(* ===== verification/Prelude.thy ===== *)
theory Prelude
  imports Main "HOL-Library.AList" "HOL-Library.Multiset"
begin

text \<open>
  Shared vocabulary of the development: the types that name the model's values
  (document identifiers, JavaScript \<open>Date\<close> values, the date formatter), the two
  JavaScript built-ins the page relies on with their exact semantics
  (\<open>Array.prototype.findIndex\<close>, which answers \<open>-1\<close> when nothing matches,
  and the indexed property write \<open>data[i].f = v\<close>, which throws a \<open>TypeError\<close>
  when \<open>data[i]\<close> is \<open>undefined\<close>), and the generic lemmas on keyed lists
  that the component theories share.
\<close>

type_synonym doc_id = string

text \<open>A JavaScript \<open>Date\<close> (or a Firestore \<open>Timestamp\<close>): milliseconds since the epoch.\<close>

type_synonym time = int

text \<open>
  \<open>date-fns\<close>' \<open>format(d, 'dd MMMM yyyy')\<close>, used by the page in two places; the
  components take it as a parameter so that their lemmas hold for any formatter.
\<close>

type_synonym formatter = "time \<Rightarrow> string"

named_theorems model_simps "characteristic equations of the model's operations"

section \<open>JavaScript built-ins\<close>

text \<open>
  The exceptions the page's code can raise: a \<open>TypeError\<close> from a property write on
  \<open>undefined\<close>, \<open>date-fns\<close>' \<open>RangeError('Invalid time value')\<close> for a
  \<open>Date\<close> outside the range of time values, and \<open>JSON.parse\<close>'s \<open>SyntaxError\<close>.
\<close>

datatype js_error = TypeError | RangeError | SyntaxError

text \<open>
  \<open>Array.prototype.findIndex\<close> (ECMA-262 23.1.3.12): scan indices from 0 and
  return the first one whose element satisfies the predicate, otherwise \<open>-1\<close>.
\<close>

fun findIndex_from :: "('a \<Rightarrow> bool) \<Rightarrow> 'a list \<Rightarrow> int \<Rightarrow> int" where
  "findIndex_from P [] k = -1"
| "findIndex_from P (x # xs) k = (if P x then k else findIndex_from P xs (k + 1))"

definition js_findIndex :: "('a \<Rightarrow> bool) \<Rightarrow> 'a list \<Rightarrow> int" where
  "js_findIndex P xs = findIndex_from P xs 0"

text \<open>
  \<open>data[i].f = v\<close> on an array: \<open>data[i]\<close> is \<open>undefined\<close> for a negative or
  too large index, and writing a property of \<open>undefined\<close> throws a \<open>TypeError\<close>.
  Otherwise the element is mutated in place.
\<close>

definition js_modify_at :: "'a list \<Rightarrow> int \<Rightarrow> ('a \<Rightarrow> 'a) \<Rightarrow> js_error + 'a list" where
  "js_modify_at xs i h =
     (if 0 \<le> i \<and> nat i < length xs then Inr (xs[nat i := h (xs ! nat i)]) else Inl TypeError)"

text \<open>
  \<open>Number.prototype.toString()\<close> on a non-negative integer: its decimal digits,
  most significant first. \<open>undec\<close> reads them back.
\<close>

fun dec_digits :: "nat \<Rightarrow> string" where
  "dec_digits n =
     (if n < 10 then [char_of (48 + n)] else dec_digits (n div 10) @ [char_of (48 + n mod 10)])"

declare dec_digits.simps [simp del]

definition undec :: "string \<Rightarrow> nat" where
  "undec cs = foldl (\<lambda>a c. 10 * a + (of_char c - 48)) 0 cs"

text \<open>A decimal digit character.\<close>

definition is_digit :: "char \<Rightarrow> bool" where
  "is_digit c \<longleftrightarrow> 48 \<le> (of_char c :: nat) \<and> (of_char c :: nat) \<le> 57"

section \<open>Keyed lists\<close>

text \<open>
  A list of records read as a map from a key field to a projection of the record:
  the first record with a key wins, as \<open>map_of\<close> does.
\<close>

definition keyed :: "('a \<Rightarrow> 'k) \<Rightarrow> ('a \<Rightarrow> 'v) \<Rightarrow> 'a list \<Rightarrow> 'k \<rightharpoonup> 'v" where
  "keyed f g xs = map_of (map (\<lambda>x. (f x, g x)) xs)"

section \<open>Lemmas on the built-ins\<close>

lemma findIndex_from_eq:
  "findIndex_from P xs k =
     (if \<exists>x\<in>set xs. P x then k + int (length (takeWhile (\<lambda>x. \<not> P x) xs)) else -1)"
  by (induction xs arbitrary: k) auto

text \<open>\<open>findIndex\<close> agrees with the reference definition through \<open>takeWhile\<close>.\<close>

lemma js_findIndex_eq:
  "js_findIndex P xs =
     (if \<exists>x\<in>set xs. P x then int (length (takeWhile (\<lambda>x. \<not> P x) xs)) else -1)"
  by (simp add: js_findIndex_def findIndex_from_eq)

lemma js_findIndex_none [model_simps]:
  "\<forall>x\<in>set xs. \<not> P x \<Longrightarrow> js_findIndex P xs = -1"
  by (simp add: js_findIndex_eq)

lemma js_findIndex_found:
  "\<exists>x\<in>set xs. P x \<Longrightarrow> 0 \<le> js_findIndex P xs \<and> nat (js_findIndex P xs) < length xs"
proof (induction xs)
  case Nil
  then show ?case by simp
next
  case (Cons x xs)
  then show ?case by (auto simp: js_findIndex_eq)
qed

lemma js_findIndex_first:
  assumes "i < length xs" "P (xs ! i)" "\<forall>j<i. \<not> P (xs ! j)"
  shows "js_findIndex P xs = int i"
  using assms
proof (induction xs arbitrary: i)
  case Nil
  then show ?case by simp
next
  case (Cons x xs)
  show ?case
  proof (cases i)
    case 0
    with Cons.prems show ?thesis by (simp add: js_findIndex_def)
  next
    case (Suc i')
    with Cons.prems have "\<not> P x" and "js_findIndex P xs = int i'"
      by (auto intro!: Cons.IH)
    with Suc show ?thesis
      by (simp add: js_findIndex_def findIndex_from_eq split: if_splits)
  qed
qed

text \<open>With distinct keys, searching for the key of element \<open>i\<close> finds \<open>i\<close>.\<close>

lemma js_findIndex_key:
  assumes "distinct (map f xs)" "i < length xs"
  shows "js_findIndex (\<lambda>x. f x = f (xs ! i)) xs = int i"
proof (rule js_findIndex_first)
  show "\<forall>j<i. f (xs ! j) \<noteq> f (xs ! i)"
    using assms by (auto simp: distinct_conv_nth)
qed (use assms in auto)

lemma findIndex_from_map: "findIndex_from P (map f xs) k = findIndex_from (\<lambda>x. P (f x)) xs k"
  by (induction xs arbitrary: k) auto

lemma js_findIndex_map: "js_findIndex P (map f xs) = js_findIndex (\<lambda>x. P (f x)) xs"
  by (simp add: js_findIndex_def findIndex_from_map)

lemma js_modify_at_nat [model_simps]:
  "i < length xs \<Longrightarrow> js_modify_at xs (int i) h = Inr (xs[i := h (xs ! i)])"
  by (simp add: js_modify_at_def)

lemma js_modify_at_neg [model_simps]:
  "i < 0 \<Longrightarrow> js_modify_at xs i h = Inl TypeError"
  by (simp add: js_modify_at_def)

section \<open>Lemmas on decimal digits\<close>

lemma undec_snoc: "undec (cs @ [c]) = 10 * undec cs + (of_char c - 48)"
  by (simp add: undec_def)

lemma undec_dec_digits: "undec (dec_digits n) = n"
proof (induction n rule: dec_digits.induct)
  case (1 n)
  show ?case
  proof (cases "n < 10")
    case True
    then show ?thesis by (subst dec_digits.simps) (simp add: undec_def)
  next
    case False
    with "1.IH" have "undec (dec_digits (n div 10)) = n div 10" by simp
    with False show ?thesis
      by (subst dec_digits.simps) (simp add: undec_snoc)
  qed
qed

lemma dec_digits_not_Nil [simp]: "dec_digits n \<noteq> []"
  by (subst dec_digits.simps) simp

lemma dec_digits_is_digit: "list_all is_digit (dec_digits n)"
proof (induction n rule: dec_digits.induct)
  case (1 n)
  have "is_digit (char_of (48 + k))" if "k < 10" for k :: nat
    using that by (simp add: is_digit_def)
  with 1 show ?case
    by (subst dec_digits.simps) simp
qed

lemma undec_zeros: "undec (replicate k CHR ''0'' @ s) = undec s"
proof -
  have "foldl (\<lambda>a c. 10 * a + (of_char c - 48)) (0::nat) (replicate k CHR ''0'') = 0"
    by (induction k) simp_all
  then show ?thesis by (simp add: undec_def)
qed

section \<open>Lemmas on keyed lists\<close>

lemma keyed_Nil [simp]: "keyed f g [] = Map.empty"
  by (simp add: keyed_def)

lemma keyed_Cons [simp]: "keyed f g (x # xs) = (keyed f g xs)(f x \<mapsto> g x)"
  by (simp add: keyed_def)

lemma keyed_None_iff: "keyed f g xs k = None \<longleftrightarrow> k \<notin> f ` set xs"
  by (induction xs) auto

lemma dom_keyed: "dom (keyed f g xs) = f ` set xs"
  by (simp add: keyed_def dom_map_of_conv_image_fst image_image)

lemma keyed_eq_mset:
  assumes "keyed f g xs = keyed f h ys" "distinct (map f xs)" "distinct (map f ys)"
  shows "mset (map f xs) = mset (map f ys)"
proof -
  from assms(1) have "dom (keyed f g xs) = dom (keyed f h ys)" by simp
  then have "set (map f xs) = set (map f ys)" by (simp add: dom_keyed)
  with set_eq_iff_mset_eq_distinct[OF assms(2,3)] show ?thesis by blast
qed

lemma keyed_append_fresh:
  "f y \<notin> f ` set xs \<Longrightarrow> keyed f g (xs @ [y]) = (keyed f g xs)(f y \<mapsto> g y)"
  by (induction xs) (auto simp: fun_upd_twist)

lemma keyed_filter_key:
  "keyed f g (filter (\<lambda>x. f x \<noteq> k) xs) = (keyed f g xs)(k := None)"
  by (induction xs) (auto simp: fun_upd_twist)

lemma keyed_update_key:
  assumes "distinct (map f xs)" "i < length xs" "f y = f (xs ! i)"
  shows "keyed f g (xs[i := y]) = (keyed f g xs)(f y \<mapsto> g y)"
  using assms
proof (induction xs arbitrary: i)
  case Nil
  then show ?case by simp
next
  case (Cons x xs)
  show ?case
  proof (cases i)
    case 0
    with Cons.prems show ?thesis by (simp add: fun_eq_iff)
  next
    case (Suc i')
    with Cons.prems have "xs ! i' \<in> set xs" and "f x \<notin> f ` set xs" and "f y = f (xs ! i')"
      by auto
    then have "f x \<noteq> f y" by force
    from Cons.prems Suc have "distinct (map f xs)" "i' < length xs" "f y = f (xs ! i')"
      by auto
    then have "keyed f g (xs[i' := y]) = (keyed f g xs)(f y \<mapsto> g y)" by (rule Cons.IH)
    with \<open>f x \<noteq> f y\<close> Suc show ?thesis by (auto simp: fun_eq_iff)
  qed
qed

lemma keyed_nth:
  assumes "distinct (map f xs)" "i < length xs"
  shows "keyed f g xs (f (xs ! i)) = Some (g (xs ! i))"
  using assms
proof (induction xs arbitrary: i)
  case Nil
  then show ?case by simp
next
  case (Cons x xs)
  show ?case
  proof (cases i)
    case 0
    then show ?thesis by simp
  next
    case (Suc j)
    with Cons.prems have j: "j < length xs" "f x \<notin> f ` set xs" "distinct (map f xs)" by auto
    then have "xs ! j \<in> set xs" by simp
    with j(2) have "f (xs ! j) \<noteq> f x" by (metis imageI)
    with Cons.IH j Suc show ?thesis by simp
  qed
qed

lemma keyed_Some_in: "keyed f g xs k \<noteq> None \<Longrightarrow> \<exists>i<length xs. f (xs ! i) = k"
  by (auto simp: keyed_None_iff in_set_conv_nth)

lemma distinct_map_update_key:
  "i < length xs \<Longrightarrow> f y = f (xs ! i) \<Longrightarrow> map f (xs[i := y]) = map f xs"
  by (simp add: map_update) (metis list_update_id nth_map)

lemma distinct_filter_map:
  "distinct (map f xs) \<Longrightarrow> distinct (map f (filter P xs))"
  by (induction xs) auto

lemma filter_key_notin:
  "k \<notin> f ` set ys \<Longrightarrow> filter (\<lambda>x. f x \<noteq> k) ys = ys"
  by (induction ys) auto

lemma filter_key_nth:
  assumes "distinct (map f xs)" "i < length xs"
  shows "filter (\<lambda>x. f x \<noteq> f (xs ! i)) xs = take i xs @ drop (Suc i) xs"
proof -
  have xs: "xs = take i xs @ xs ! i # drop (Suc i) xs"
    using assms(2) by (rule id_take_nth_drop)
  with assms(1) have "distinct (map f (take i xs @ xs ! i # drop (Suc i) xs))" by simp
  then have "f (xs ! i) \<notin> f ` set (take i xs)" "f (xs ! i) \<notin> f ` set (drop (Suc i) xs)"
    by auto
  then have "filter (\<lambda>x. f x \<noteq> f (xs ! i)) (take i xs @ xs ! i # drop (Suc i) xs) =
      take i xs @ drop (Suc i) xs"
    by (simp add: filter_key_notin)
  with xs show ?thesis by simp
qed

text \<open>An object shared by reference: writing it through the heap changes the one
  position of a duplicate-free address list that refers to it.\<close>

lemma map_nth_heap_update:
  assumes "distinct xs" "j < length xs" "\<forall>b\<in>set xs. b < length ys"
  shows "map ((!) (ys[xs ! j := v])) xs = (map ((!) ys) xs)[j := v]"
proof (rule nth_equalityI)
  fix i assume i: "i < length (map ((!) (ys[xs ! j := v])) xs)"
  then have "i < length xs" by simp
  moreover have "xs ! i = xs ! j \<longleftrightarrow> i = j"
    using assms(1,2) \<open>i < length xs\<close> by (simp add: nth_eq_iff_index_eq)
  ultimately show "map ((!) (ys[xs ! j := v])) xs ! i = (map ((!) ys) xs)[j := v] ! i"
    using assms(2,3) by (auto simp: nth_list_update)
qed simp

end
