(* ===== verification/Store.thy ===== *)
theory Store
  imports Prelude
begin

text \<open>
  The document store the page talks to: the \<open>tasks\<close> collection of the Firestore
  database \<open>db\<close> exported by \<open>services/firebaseConnection\<close> (not part of the sources
  under \<open>src/\<close>; modelled from the spec, section 2 and 6). A store is an association
  list from document identifiers to documents, in insertion order, and a counter from
  which the store draws fresh identifiers. Each remote call takes the network's
  \<open>net\<close> outcome: delivered, rejected before it took effect, or applied with its
  reply lost (the client sees a rejection, the store has changed).
\<close>

record task_doc =
  d_created :: time
  d_task :: string
  d_userId :: string
  d_name :: string

record store =
  docs :: "(doc_id \<times> task_doc) list"
  next_id :: nat

datatype net = Delivered | Rejected | ReplyLost

datatype store_error = Unavailable | NotFound

section \<open>Generated identifiers\<close>

text \<open>
  Firestore's auto-generated identifiers are modelled as the decimal rendering
  (\<open>dec_digits\<close>, in \<open>Prelude\<close>) of a counter: what matters to the page is only
  that a generated identifier is new.
\<close>

definition auto_id :: "nat \<Rightarrow> doc_id" where
  "auto_id n = dec_digits n"

definition issued :: "store \<Rightarrow> doc_id set" where
  "issued s = auto_id ` {..<next_id s}"

section \<open>Operations\<close>

text \<open>The client's view of one remote write: what it is told, and the store after it.\<close>

definition reply :: "net \<Rightarrow> 'a \<Rightarrow> store \<Rightarrow> store \<Rightarrow> (store_error + 'a) \<times> store" where
  "reply n v s s' =
     (case n of Delivered \<Rightarrow> (Inr v, s') | Rejected \<Rightarrow> (Inl Unavailable, s)
      | ReplyLost \<Rightarrow> (Inl Unavailable, s'))"

text \<open>\<open>addDoc(collection(db, 'tasks'), fields)\<close>: insert under a fresh identifier.\<close>

definition addDoc :: "net \<Rightarrow> task_doc \<Rightarrow> store \<Rightarrow> (store_error + doc_id) \<times> store" where
  "addDoc n d s =
     (let k = auto_id (next_id s)
      in reply n k s (s\<lparr>docs := docs s @ [(k, d)], next_id := Suc (next_id s)\<rparr>))"

text \<open>\<open>updateDoc(doc(db, 'tasks', k), {task: v})\<close>: fails with not-found on a missing document.\<close>

definition updateDoc :: "net \<Rightarrow> doc_id \<Rightarrow> string \<Rightarrow> store \<Rightarrow> (store_error + unit) \<times> store" where
  "updateDoc n k v s =
     (case map_of (docs s) k of
        None \<Rightarrow> (Inl (if n = Delivered then NotFound else Unavailable), s)
      | Some _ \<Rightarrow> reply n () s (s\<lparr>docs := AList.map_entry k (\<lambda>d. d\<lparr>d_task := v\<rparr>) (docs s)\<rparr>))"

text \<open>\<open>deleteDoc(doc(db, 'tasks', k))\<close>: deleting a missing document succeeds.\<close>

definition deleteDoc :: "net \<Rightarrow> doc_id \<Rightarrow> store \<Rightarrow> (store_error + unit) \<times> store" where
  "deleteDoc n k s = reply n () s (s\<lparr>docs := AList.delete k (docs s)\<rparr>)"

text \<open>\<open>query(collection(db, 'tasks'), where('userId', '==', u))\<close> and \<open>getDocs\<close>.\<close>

definition where_userId :: "string \<Rightarrow> store \<Rightarrow> (doc_id \<times> task_doc) list" where
  "where_userId u s = filter (\<lambda>(k, d). d_userId d = u) (docs s)"

definition getDocs :: "net \<Rightarrow> string \<Rightarrow> store \<Rightarrow> store_error + (doc_id \<times> task_doc) list" where
  "getDocs n u s = (if n = Delivered then Inr (where_userId u s) else Inl Unavailable)"

section \<open>Well-formed stores and the owner view\<close>

definition store_wf :: "store \<Rightarrow> bool" where
  "store_wf s \<longleftrightarrow> distinct (map fst (docs s)) \<and> fst ` set (docs s) \<subseteq> issued s"

text \<open>The documents one user owns, as a map: what a filtered query returns, by key.\<close>

definition owned :: "string \<Rightarrow> store \<Rightarrow> doc_id \<rightharpoonup> task_doc" where
  "owned u s k =
     (case map_of (docs s) k of Some d \<Rightarrow> if d_userId d = u then Some d else None | None \<Rightarrow> None)"

section \<open>Lemmas: generated identifiers are new\<close>

lemma auto_id_inj: "inj auto_id"
  by (rule inj_on_inverseI[where g = undec]) (simp add: auto_id_def undec_dec_digits)

lemma auto_id_fresh [simp]: "auto_id (next_id s) \<notin> issued s"
  using auto_id_inj by (auto simp: issued_def inj_eq)

lemma store_wf_fresh: "store_wf s \<Longrightarrow> auto_id (next_id s) \<notin> fst ` set (docs s)"
  unfolding store_wf_def using auto_id_fresh[of s] by blast

section \<open>Lemmas: the operations\<close>

lemma reply_simps [model_simps]:
  "reply Delivered v s s' = (Inr v, s')"
  "reply Rejected v s s' = (Inl Unavailable, s)"
  "reply ReplyLost v s s' = (Inl Unavailable, s')"
  by (simp_all add: reply_def)

lemma addDoc_Inr:
  "addDoc n d s = (Inr k, s') \<longleftrightarrow>
     n = Delivered \<and> k = auto_id (next_id s) \<and>
     s' = s\<lparr>docs := docs s @ [(k, d)], next_id := Suc (next_id s)\<rparr>"
  by (cases n) (auto simp: addDoc_def reply_def Let_def)

lemma deleteDoc_Inr:
  "deleteDoc n k s = (Inr r, s') \<longleftrightarrow> n = Delivered \<and> s' = s\<lparr>docs := AList.delete k (docs s)\<rparr>"
  by (cases n) (auto simp: deleteDoc_def reply_def)

lemma updateDoc_Inr:
  "updateDoc n k v s = (Inr r, s') \<longleftrightarrow>
     n = Delivered \<and> map_of (docs s) k \<noteq> None \<and>
     s' = s\<lparr>docs := AList.map_entry k (\<lambda>d. d\<lparr>d_task := v\<rparr>) (docs s)\<rparr>"
  by (cases n) (auto simp: updateDoc_def reply_def split: option.splits)

text \<open>A rejected call leaves the store as it was.\<close>

lemma rejected_unchanged:
  "snd (addDoc Rejected d s) = s" "snd (updateDoc Rejected k v s) = s" "snd (deleteDoc Rejected k s) = s"
  by (simp_all add: addDoc_def updateDoc_def deleteDoc_def reply_def Let_def split: option.splits)

lemma issued_Suc: "issued (s\<lparr>docs := ds, next_id := Suc (next_id s)\<rparr>) = insert (auto_id (next_id s)) (issued s)"
  by (auto simp: issued_def lessThan_Suc)

lemma addDoc_wf: "store_wf s \<Longrightarrow> store_wf (snd (addDoc n d s))"
  using store_wf_fresh[of s]
  by (cases n) (auto simp: addDoc_def reply_def Let_def store_wf_def issued_Suc)

lemma updateDoc_wf: "store_wf s \<Longrightarrow> store_wf (snd (updateDoc n k v s))"
  by (cases n)
    (auto simp: updateDoc_def reply_def store_wf_def issued_def dom_map_entry distinct_map_entry
      split: option.splits)

lemma deleteDoc_wf: "store_wf s \<Longrightarrow> store_wf (snd (deleteDoc n k s))"
  using distinct_delete[of "docs s" k] dom_delete_subset[of k "docs s"]
  by (cases n) (auto simp: deleteDoc_def reply_def store_wf_def issued_def)

lemma issued_mono:
  "issued s \<subseteq> issued (snd (addDoc n d s))"
  "issued (snd (updateDoc n k v s)) = issued s"
  "issued (snd (deleteDoc n k s)) = issued s"
  by (cases n; auto simp: addDoc_def updateDoc_def deleteDoc_def reply_def Let_def issued_def
      split: option.splits)+

section \<open>Lemmas: the owner view\<close>

lemma map_of_append_fresh:
  "k \<notin> fst ` set xs \<Longrightarrow> map_of (xs @ [(k, d)]) = (map_of xs)(k \<mapsto> d)"
  by (induction xs) (auto simp: fun_eq_iff)

lemma owned_append_fresh:
  "k \<notin> fst ` set (docs s) \<Longrightarrow>
   owned u (s\<lparr>docs := docs s @ [(k, d)], next_id := m\<rparr>) =
     (if d_userId d = u then (owned u s)(k \<mapsto> d) else owned u s)"
proof -
  assume k: "k \<notin> fst ` set (docs s)"
  then have "map_of (docs s) k = None" by (simp add: map_of_eq_None_iff)
  with k show ?thesis
    by (auto simp: owned_def fun_eq_iff map_of_append_fresh split: option.splits if_splits)
qed

lemma owned_map_entry:
  "(\<And>d. d_userId (f d) = d_userId d) \<Longrightarrow>
   owned u (s\<lparr>docs := AList.map_entry k f (docs s)\<rparr>) = (owned u s)(k := map_option f (owned u s k))"
  by (auto simp: owned_def fun_eq_iff map_of_map_entry split: option.splits)

lemma owned_delete:
  "owned u (s\<lparr>docs := AList.delete k (docs s)\<rparr>) = (owned u s)(k := None)"
  by (auto simp: owned_def fun_eq_iff delete_conv' split: option.splits)

lemma map_of_filter_distinct:
  "distinct (map fst xs) \<Longrightarrow>
   map_of (filter (\<lambda>(k, d). P d) xs) k =
     (case map_of xs k of Some d \<Rightarrow> if P d then Some d else None | None \<Rightarrow> None)"
  by (induction xs) (auto simp: map_of_eq_None_iff split: option.splits)

text \<open>On a well-formed store the filtered query, read by key, is the owner view.\<close>

lemma map_of_where_userId: "store_wf s \<Longrightarrow> map_of (where_userId u s) = owned u s"
  by (auto simp: where_userId_def owned_def store_wf_def fun_eq_iff map_of_filter_distinct)

text \<open>The identifiers of the store after each write.\<close>

lemma map_fst_map_entry [simp]: "map fst (AList.map_entry k f xs) = map fst xs"
  by (induction xs) auto

lemma addDoc_keys:
  "addDoc n d st = (r, st') \<Longrightarrow>
   fst ` set (docs st) \<subseteq> fst ` set (docs st') \<and> (\<forall>k. r = Inr k \<longrightarrow> k \<in> fst ` set (docs st'))"
  by (cases n) (auto simp: addDoc_def reply_def Let_def)

lemma updateDoc_keys: "updateDoc n k v st = (r, st') \<Longrightarrow> fst ` set (docs st') = fst ` set (docs st)"
proof -
  assume u: "updateDoc n k v st = (r, st')"
  have e: "fst ` set (AList.map_entry k f xs) = fst ` set xs" for f and xs :: "(doc_id \<times> task_doc) list"
    by (metis list.set_map map_fst_map_entry)
  have "st' = st \<or> st' = st\<lparr>docs := AList.map_entry k (\<lambda>d. d\<lparr>d_task := v\<rparr>) (docs st)\<rparr>"
    using u by (cases n) (auto simp: updateDoc_def reply_def split: option.splits)
  then show ?thesis using e[of _ "docs st"] by (elim disjE) simp_all
qed

lemma deleteDoc_keys: "deleteDoc n k st = (r, st') \<Longrightarrow> fst ` set (docs st) \<subseteq> insert k (fst ` set (docs st'))"
  by (cases n) (auto simp: deleteDoc_def reply_def AList.delete_eq)

end
