(* ===== verification/Task.thy ===== *)
theory Task
  imports Store
begin

text \<open>
  The page's data types (\<open>src/src/pages/board/index.tsx\<close>, lines 30--46): a
  \<open>TaskList\<close> entry as the view holds it, the user summary of \<open>BoardProps\<close>, and
  the props themselves. The record field \<open>id\<close> of the source is \<open>tid\<close> here and
  the user's \<open>id\<close>/\<open>name\<close> are \<open>uid\<close>/\<open>uname\<close> (\<open>id\<close> is HOL's identity, and
  record fields are global names). \<open>created\<close> is a \<open>string | Date\<close> in the source; here
  the time it denotes. \<open>createdFormatted?\<close> is optional.
\<close>

record TaskList =
  tid :: doc_id
  created :: time
  createdFormatted :: "string option"
  task :: string
  userId :: string
  name :: string

record UserProps =
  uid :: string
  uname :: string
  vip :: bool
  lastDonate :: time

text \<open>
  \<open>BoardProps.data\<close> is the JSON text of the task list; the page parses it once
  (\<open>JSON.parse(data)\<close>, line 50). It is held here as the list it encodes.
\<close>

record BoardProps =
  user :: UserProps
  data :: "TaskList list"

text \<open>
  What a task and a stored document agree on: text, owner and owner name. The creation
  time is not part of it: the page stamps a locally added task with its own clock.
\<close>

definition task_view :: "TaskList \<Rightarrow> string \<times> string \<times> string" where
  "task_view t = (task t, userId t, name t)"

definition doc_view :: "task_doc \<Rightarrow> string \<times> string \<times> string" where
  "doc_view d = (d_task d, d_userId d, d_name d)"

end
