(* ===== verification/Board.thy ===== *)
theory Board
  imports Task
begin

text \<open>
  The \<open>Board\<close> component (\<open>src/src/pages/board/index.tsx\<close>, lines 48--210): its
  three pieces of React state, its four handlers, the wiring of its buttons and form,
  and what it renders. Every handler that calls the store awaits one remote call and
  patches the state in the call's \<open>.then\<close> callback; a rejection, or an exception
  thrown inside the callback, ends in the \<open>.catch\<close> that only logs.

  Each \<open>.then\<close> callback is a closure over the render in which the handler ran: it
  reads \<open>input\<close>, \<open>taskList\<close> and \<open>taskEdit\<close> from that render (the
  snapshot \<open>snap\<close>) and writes the current state \<open>cur\<close> through the setters.
  In this theory every call resolves before the next event, so the snapshot is the
  current state; the closure form is kept so that the callbacks are the code's.

  The system state \<open>sys\<close> pairs the view's state with the store and the list of
  observable effects (alerts, console logs, remote calls issued). The outcome of a
  remote call and the clock readings (\<open>new Date()\<close>, three times in the add path)
  come from the \<open>world\<close>.
\<close>

record board =
  input :: string
  taskList :: "TaskList list"
  taskEdit :: "TaskList option"

text \<open>Lines 49--52: the initial state, from the props.\<close>

definition board_init :: "BoardProps \<Rightarrow> board" where
  "board_init p = \<lparr>input = [], taskList = data p, taskEdit = None\<rparr>"

datatype failure = StoreFailure store_error | ScriptFailure js_error

datatype effect =
    Alert string
  | ConsoleLog string failure
  | CallAddDoc task_doc
  | CallUpdateDoc doc_id string
  | CallDeleteDoc doc_id

record sys =
  board :: board
  db :: store
  out :: "effect list"

record world =
  w_net :: net
  clock0 :: time
  clock1 :: time
  clock2 :: time

definition console_log :: "string \<Rightarrow> failure \<Rightarrow> sys \<Rightarrow> sys" where
  "console_log msg f s = s\<lparr>out := out s @ [ConsoleLog msg f]\<rparr>"

section \<open>The \<open>.then\<close> callbacks\<close>

text \<open>Lines 90--101: append the new task, stamped with the client's clock, and clear the input.\<close>

definition add_then :: "UserProps \<Rightarrow> formatter \<Rightarrow> doc_id \<Rightarrow> time \<Rightarrow> time \<Rightarrow> board \<Rightarrow> board \<Rightarrow> board" where
  "add_then u fmt k t1 t2 snap cur =
     cur\<lparr>taskList := taskList snap @
            [\<lparr>tid = k, created = t1, createdFormatted = Some (fmt t2), task = input snap,
              userId = uid u, name = uname u\<rparr>],
         input := []\<rparr>"

text \<open>
  Lines 66--76: find the edited task by identifier and overwrite its text in place.
  \<open>data[taskIndex].task = input\<close> throws when \<open>findIndex\<close> answered \<open>-1\<close>; the
  setters after it are then not reached.
\<close>

definition update_then :: "TaskList \<Rightarrow> board \<Rightarrow> board \<Rightarrow> js_error + board" where
  "update_then te snap cur =
     (let data = taskList snap;
          taskIndex = js_findIndex (\<lambda>item. tid item = tid te) data
      in case js_modify_at data taskIndex (\<lambda>t. t\<lparr>task := input snap\<rparr>) of
           Inl e \<Rightarrow> Inl e
         | Inr data' \<Rightarrow> Inr (cur\<lparr>taskList := data', taskEdit := None, input := []\<rparr>))"

text \<open>Lines 109--114: drop every entry with the deleted identifier.\<close>

definition delete_then :: "doc_id \<Rightarrow> board \<Rightarrow> board \<Rightarrow> board" where
  "delete_then k snap cur = cur\<lparr>taskList := filter (\<lambda>item. tid item \<noteq> k) (taskList snap)\<rparr>"

section \<open>The handlers\<close>

text \<open>
  Lines 54--105, \<open>handleAddTask\<close>: the form's submit. An empty input is refused with
  an alert. With an edit target it updates that document, otherwise it adds one.
\<close>

definition handleAddTask :: "UserProps \<Rightarrow> formatter \<Rightarrow> world \<Rightarrow> sys \<Rightarrow> sys" where
  "handleAddTask u fmt w s =
     (let b = board s in
      if input b = [] then s\<lparr>out := out s @ [Alert ''Preencha alguma tarefa!'']\<rparr>
      else
        (case taskEdit b of
           Some te \<Rightarrow>
             (case updateDoc (w_net w) (tid te) (input b) (db s) of
                (r, st) \<Rightarrow>
                  let s1 = s\<lparr>db := st, out := out s @ [CallUpdateDoc (tid te) (input b)]\<rparr>
                  in (case r of
                        Inl e \<Rightarrow> console_log [] (StoreFailure e) s1
                      | Inr _ \<Rightarrow>
                          (case update_then te b b of
                             Inl e \<Rightarrow> console_log [] (ScriptFailure e) s1
                           | Inr b' \<Rightarrow> s1\<lparr>board := b'\<rparr>)))
         | None \<Rightarrow>
             (let d = \<lparr>d_created = clock0 w, d_task = input b, d_userId = uid u, d_name = uname u\<rparr>
              in (case addDoc (w_net w) d (db s) of
                    (r, st) \<Rightarrow>
                      let s1 = s\<lparr>db := st, out := out s @ [CallAddDoc d]\<rparr>
                      in (case r of
                            Inl e \<Rightarrow> console_log ''ERRO AO CADASTRAR: '' (StoreFailure e) s1
                          | Inr k \<Rightarrow> s1\<lparr>board := add_then u fmt k (clock1 w) (clock2 w) b b\<rparr>)))))"

text \<open>Lines 107--118, \<open>handleDelete\<close>.\<close>

definition handleDelete :: "world \<Rightarrow> doc_id \<Rightarrow> sys \<Rightarrow> sys" where
  "handleDelete w taskId s =
     (case deleteDoc (w_net w) taskId (db s) of
        (r, st) \<Rightarrow>
          let s1 = s\<lparr>db := st, out := out s @ [CallDeleteDoc taskId]\<rparr>
          in (case r of
                Inl e \<Rightarrow> console_log ''ERRO AO DELETAR: '' (StoreFailure e) s1
              | Inr _ \<Rightarrow> s1\<lparr>board := delete_then taskId (board s) (board s)\<rparr>))"

text \<open>Lines 120--123 and 125--128: enter and leave edit mode; no remote call.\<close>

definition handleEditTask :: "TaskList \<Rightarrow> sys \<Rightarrow> sys" where
  "handleEditTask t s = s\<lparr>board := (board s)\<lparr>taskEdit := Some t, input := task t\<rparr>\<rparr>"

definition handleCancelEdit :: "sys \<Rightarrow> sys" where
  "handleCancelEdit s = s\<lparr>board := (board s)\<lparr>taskEdit := None, input := []\<rparr>\<rparr>"

text \<open>Line 150: the input's \<open>onChange\<close>.\<close>

definition onChange :: "string \<Rightarrow> sys \<Rightarrow> sys" where
  "onChange v s = s\<lparr>board := (board s)\<lparr>input := v\<rparr>\<rparr>"

section \<open>Events\<close>

text \<open>
  The user's events, as the rendered page offers them (lines 136--188): the cancel
  button exists only in edit mode, an edit button exists on each article only for a
  supporter, a delete button on each article. An event on a control that is not on the
  page is \<open>None\<close>.
\<close>

datatype event = Submit | Change string | ClickEdit nat | ClickDelete nat | ClickCancel

fun dispatch :: "UserProps \<Rightarrow> formatter \<Rightarrow> world \<Rightarrow> event \<Rightarrow> sys \<Rightarrow> sys option" where
  "dispatch u fmt w Submit s = Some (handleAddTask u fmt w s)"
| "dispatch u fmt w (Change v) s = Some (onChange v s)"
| "dispatch u fmt w (ClickEdit i) s =
     (if vip u \<and> i < length (taskList (board s))
      then Some (handleEditTask (taskList (board s) ! i) s) else None)"
| "dispatch u fmt w (ClickDelete i) s =
     (if i < length (taskList (board s))
      then Some (handleDelete w (tid (taskList (board s) ! i)) s) else None)"
| "dispatch u fmt w ClickCancel s =
     (if taskEdit (board s) \<noteq> None then Some (handleCancelEdit s) else None)"

section \<open>Rendering\<close>

text \<open>
  Lines 130--209: what the page shows. The supporter panel's relative time
  (\<open>formatDistance\<close>, a library call) is kept as the donation time it is computed from.
\<close>

record article =
  href :: string
  link_text :: string
  time_text :: "string option"
  edit_button :: bool

record view =
  warn_banner :: bool
  input_value :: string
  task_count :: nat
  count_word :: string
  articles :: "article list"
  vip_panel :: "time option"

definition render_article :: "UserProps \<Rightarrow> TaskList \<Rightarrow> article" where
  "render_article u t =
     \<lparr>href = ''/board/'' @ tid t, link_text = task t, time_text = createdFormatted t,
      edit_button = vip u\<rparr>"

definition render :: "UserProps \<Rightarrow> board \<Rightarrow> view" where
  "render u b =
     \<lparr>warn_banner = (taskEdit b \<noteq> None), input_value = input b,
      task_count = length (taskList b),
      count_word = (if length (taskList b) = 1 then ''tarefa'' else ''tarefas''),
      articles = map (render_article u) (taskList b),
      vip_panel = (if vip u then Some (lastDonate u) else None)\<rparr>"

section \<open>Runs of events\<close>

text \<open>
  React handles one event at a time; here each event's remote call has resolved before
  the next event, and each event comes with the world its call meets.
\<close>

fun run :: "UserProps \<Rightarrow> formatter \<Rightarrow> (world \<times> event) list \<Rightarrow> sys \<Rightarrow> sys option" where
  "run u fmt [] s = Some s"
| "run u fmt ((w, e) # es) s =
     (case dispatch u fmt w e s of None \<Rightarrow> None | Some s' \<Rightarrow> run u fmt es s')"

section \<open>Concrete inputs for the witnesses\<close>

text \<open>The spec's scenario: user \<open>u1\<close> (Ana, a supporter) with one task, \<open>Buy milk\<close>.\<close>

definition demo_user :: UserProps where
  "demo_user = \<lparr>uid = ''u1'', uname = ''Ana'', vip = True, lastDonate = 0\<rparr>"

definition demo_fmt :: formatter where
  "demo_fmt t = ''09 November 2026''"

definition demo_world :: world where
  "demo_world = \<lparr>w_net = Delivered, clock0 = 1000, clock1 = 1001, clock2 = 1001\<rparr>"

definition demo_task :: TaskList where
  "demo_task = \<lparr>tid = ''1'', created = 0, createdFormatted = Some ''01 January 1970'',
     task = ''Buy milk'', userId = ''u1'', name = ''Ana''\<rparr>"

definition demo_sys :: sys where
  "demo_sys =
     \<lparr>board = \<lparr>input = ''Walk dog'', taskList = [demo_task], taskEdit = None\<rparr>,
      db = \<lparr>docs = [(''1'', \<lparr>d_created = 0, d_task = ''Buy milk'', d_userId = ''u1'', d_name = ''Ana''\<rparr>)],
            next_id = 2\<rparr>,
      out = []\<rparr>"

lemmas demo_defs = demo_user_def demo_fmt_def demo_world_def demo_task_def demo_sys_def

section \<open>Lemmas: each branch of the handlers\<close>

lemmas handler_defs = handleAddTask_def handleDelete_def console_log_def Let_def

lemma handleAddTask_empty [model_simps]:
  "input (board s) = [] \<Longrightarrow>
   handleAddTask u fmt w s = s\<lparr>out := out s @ [Alert ''Preencha alguma tarefa!'']\<rparr>"
  by (simp add: handler_defs)

lemma handleAddTask_add_ok [model_simps]:
  assumes "input (board s) \<noteq> []" "taskEdit (board s) = None" "w_net w = Delivered"
  shows "handleAddTask u fmt w s =
    (let d = \<lparr>d_created = clock0 w, d_task = input (board s), d_userId = uid u, d_name = uname u\<rparr>;
         k = auto_id (next_id (db s))
     in s\<lparr>board := add_then u fmt k (clock1 w) (clock2 w) (board s) (board s),
          db := (db s)\<lparr>docs := docs (db s) @ [(k, d)], next_id := Suc (next_id (db s))\<rparr>,
          out := out s @ [CallAddDoc d]\<rparr>)"
  using assms by (simp add: handler_defs addDoc_def reply_def)

lemma handleAddTask_add_fail [model_simps]:
  assumes "input (board s) \<noteq> []" "taskEdit (board s) = None" "w_net w \<noteq> Delivered"
  shows "handleAddTask u fmt w s =
    (let d = \<lparr>d_created = clock0 w, d_task = input (board s), d_userId = uid u, d_name = uname u\<rparr>
     in s\<lparr>db := snd (addDoc (w_net w) d (db s)),
          out := out s @ [CallAddDoc d, ConsoleLog ''ERRO AO CADASTRAR: '' (StoreFailure Unavailable)]\<rparr>)"
  using assms by (cases "w_net w") (simp_all add: handler_defs addDoc_def reply_def)

lemma update_then_found:
  assumes "distinct (map tid (taskList snap))" "i < length (taskList snap)"
    "tid (taskList snap ! i) = tid te"
  shows "update_then te snap cur =
    Inr (cur\<lparr>taskList := (taskList snap)[i := (taskList snap ! i)\<lparr>task := input snap\<rparr>],
             taskEdit := None, input := []\<rparr>)"
proof -
  have "js_findIndex (\<lambda>item. tid item = tid te) (taskList snap) = int i"
    using js_findIndex_key[OF assms(1,2)] assms(3) by simp
  with assms(2) show ?thesis by (simp add: update_then_def js_modify_at_nat Let_def)
qed

lemma update_then_missing:
  assumes "tid te \<notin> tid ` set (taskList snap)"
  shows "update_then te snap cur = Inl TypeError"
proof -
  have "js_findIndex (\<lambda>item. tid item = tid te) (taskList snap) = -1"
    using assms by (intro js_findIndex_none) (auto simp: image_iff)
  then show ?thesis by (simp add: update_then_def js_modify_at_neg Let_def)
qed

lemma handleAddTask_update_ok [model_simps]:
  assumes "input (board s) \<noteq> []" "taskEdit (board s) = Some te" "w_net w = Delivered"
    "map_of (docs (db s)) (tid te) \<noteq> None"
    "distinct (map tid (taskList (board s)))" "i < length (taskList (board s))"
    "tid (taskList (board s) ! i) = tid te"
  shows "handleAddTask u fmt w s =
    s\<lparr>board := (board s)\<lparr>taskList := (taskList (board s))[i := (taskList (board s) ! i)\<lparr>task := input (board s)\<rparr>],
                          taskEdit := None, input := []\<rparr>,
      db := (db s)\<lparr>docs := AList.map_entry (tid te) (\<lambda>d. d\<lparr>d_task := input (board s)\<rparr>) (docs (db s))\<rparr>,
      out := out s @ [CallUpdateDoc (tid te) (input (board s))]\<rparr>"
  using assms update_then_found[OF assms(5-7), of "board s"]
  by (auto simp: handler_defs updateDoc_def reply_def split: option.splits)

lemma handleAddTask_update_fail [model_simps]:
  assumes "input (board s) \<noteq> []" "taskEdit (board s) = Some te"
    "w_net w \<noteq> Delivered \<or> map_of (docs (db s)) (tid te) = None"
  shows "board (handleAddTask u fmt w s) = board s"
    "db (handleAddTask u fmt w s) = snd (updateDoc (w_net w) (tid te) (input (board s)) (db s))"
  using assms
  by (cases "w_net w"; auto simp: handler_defs updateDoc_def reply_def split: option.splits)+

lemma handleAddTask_update_script_fail:
  assumes "input (board s) \<noteq> []" "taskEdit (board s) = Some te" "w_net w = Delivered"
    "map_of (docs (db s)) (tid te) \<noteq> None" "tid te \<notin> tid ` set (taskList (board s))"
  shows "handleAddTask u fmt w s =
    s\<lparr>db := (db s)\<lparr>docs := AList.map_entry (tid te) (\<lambda>d. d\<lparr>d_task := input (board s)\<rparr>) (docs (db s))\<rparr>,
      out := out s @ [CallUpdateDoc (tid te) (input (board s)), ConsoleLog [] (ScriptFailure TypeError)]\<rparr>"
  using assms update_then_missing[OF assms(5), of "board s"]
  by (auto simp: handler_defs updateDoc_def reply_def split: option.splits)

lemma handleDelete_ok [model_simps]:
  "w_net w = Delivered \<Longrightarrow>
   handleDelete w k s =
     s\<lparr>board := (board s)\<lparr>taskList := filter (\<lambda>item. tid item \<noteq> k) (taskList (board s))\<rparr>,
       db := (db s)\<lparr>docs := AList.delete k (docs (db s))\<rparr>, out := out s @ [CallDeleteDoc k]\<rparr>"
  by (simp add: handler_defs deleteDoc_def reply_def delete_then_def)

lemma handleDelete_fail [model_simps]:
  "w_net w \<noteq> Delivered \<Longrightarrow>
   handleDelete w k s =
     s\<lparr>db := snd (deleteDoc (w_net w) k (db s)),
       out := out s @ [CallDeleteDoc k, ConsoleLog ''ERRO AO DELETAR: '' (StoreFailure Unavailable)]\<rparr>"
  by (cases "w_net w") (simp_all add: handler_defs deleteDoc_def reply_def)

section \<open>Properties of the handlers\<close>

text \<open>
  C3. Submitting a non-empty input outside edit mode, when the store accepts the new
  document, appends exactly one task to the list: the text typed, owned by the session
  user, under the identifier the store generated; the input is cleared and the store
  holds the same text for the same owner under that identifier.
\<close>

theorem add_appends_task:
  assumes "input (board s) \<noteq> []" "taskEdit (board s) = None" "w_net w = Delivered"
  shows "taskList (board (handleAddTask u fmt w s)) =
           taskList (board s) @
             [\<lparr>tid = auto_id (next_id (db s)), created = clock1 w,
               createdFormatted = Some (fmt (clock2 w)), task = input (board s),
               userId = uid u, name = uname u\<rparr>]
       \<and> input (board (handleAddTask u fmt w s)) = []
       \<and> taskEdit (board (handleAddTask u fmt w s)) = None
       \<and> docs (db (handleAddTask u fmt w s)) =
           docs (db s) @ [(auto_id (next_id (db s)),
             \<lparr>d_created = clock0 w, d_task = input (board s), d_userId = uid u, d_name = uname u\<rparr>)]"
  using assms by (simp add: handleAddTask_add_ok add_then_def Let_def)

theorem add_appends_task_witness:
  "input (board demo_sys) \<noteq> [] \<and> taskEdit (board demo_sys) = None \<and> w_net demo_world = Delivered
   \<and> taskList (board (handleAddTask demo_user demo_fmt demo_world demo_sys)) =
       [demo_task, \<lparr>tid = ''2'', created = 1001, createdFormatted = Some ''09 November 2026'',
                    task = ''Walk dog'', userId = ''u1'', name = ''Ana''\<rparr>]"
proof -
  have h: "input (board demo_sys) \<noteq> []" "taskEdit (board demo_sys) = None"
    "w_net demo_world = Delivered"
    by (simp_all add: demo_defs)
  have c: "taskList (board (handleAddTask demo_user demo_fmt demo_world demo_sys)) =
      taskList (board demo_sys) @
        [\<lparr>tid = auto_id (next_id (db demo_sys)), created = clock1 demo_world,
          createdFormatted = Some (demo_fmt (clock2 demo_world)), task = input (board demo_sys),
          userId = uid demo_user, name = uname demo_user\<rparr>]"
    using add_appends_task[OF h, of demo_user demo_fmt] by blast
  show ?thesis
    unfolding c using h by (simp add: demo_defs auto_id_def dec_digits.simps) code_simp
qed

text \<open>
  C4. Submitting an empty input is refused: the user gets the alert, no remote call is
  issued, and neither the view's state nor the store changes.
\<close>

theorem empty_submit_refused:
  assumes "input (board s) = []"
  shows "dispatch u fmt w Submit s = Some (s\<lparr>out := out s @ [Alert ''Preencha alguma tarefa!'']\<rparr>)"
  using assms by (simp add: handleAddTask_empty)

theorem empty_submit_refused_witness:
  "input (board (onChange [] demo_sys)) = [] \<and>
   dispatch demo_user demo_fmt demo_world Submit (onChange [] demo_sys) =
     Some ((onChange [] demo_sys)\<lparr>out := [Alert ''Preencha alguma tarefa!'']\<rparr>)"
proof -
  have h: "input (board (onChange [] demo_sys)) = []" by (simp add: onChange_def)
  show ?thesis
    using empty_submit_refused[OF h, of demo_user demo_fmt demo_world] h
    by (simp add: demo_sys_def onChange_def)
qed

text \<open>
  C5. Editing: a supporter clicks edit on task \<open>i\<close>, types a non-empty text and
  submits, and the store accepts the update. Then exactly task \<open>i\<close>'s text changes in
  the list (every other task and every other field of task \<open>i\<close> is kept), edit mode
  ends, the input is cleared, and the store's document gets the same text.
\<close>

theorem edit_submit_changes_only_text:
  assumes "vip u" "i < length (taskList (board s))" "distinct (map tid (taskList (board s)))"
    "map_of (docs (db s)) (tid (taskList (board s) ! i)) \<noteq> None" "v \<noteq> []" "w_net w = Delivered"
  shows "\<exists>s'. run u fmt [(w0, ClickEdit i), (w1, Change v), (w, Submit)] s = Some s' \<and>
     taskList (board s') = (taskList (board s))[i := (taskList (board s) ! i)\<lparr>task := v\<rparr>] \<and>
     taskEdit (board s') = None \<and> input (board s') = [] \<and>
     docs (db s') = AList.map_entry (tid (taskList (board s) ! i)) (\<lambda>d. d\<lparr>d_task := v\<rparr>) (docs (db s))"
proof -
  let ?t = "taskList (board s) ! i"
  define s2 where "s2 = onChange v (handleEditTask ?t s)"
  have run: "run u fmt [(w0, ClickEdit i), (w1, Change v), (w, Submit)] s = Some (handleAddTask u fmt w s2)"
    using assms(1,2) by (simp add: s2_def)
  have b2: "input (board s2) = v" "taskEdit (board s2) = Some ?t"
    "taskList (board s2) = taskList (board s)" "db s2 = db s"
    by (simp_all add: s2_def onChange_def handleEditTask_def)
  have "handleAddTask u fmt w s2 =
    s2\<lparr>board := (board s2)\<lparr>taskList := (taskList (board s2))[i := (taskList (board s2) ! i)\<lparr>task := input (board s2)\<rparr>],
                          taskEdit := None, input := []\<rparr>,
      db := (db s2)\<lparr>docs := AList.map_entry (tid ?t) (\<lambda>d. d\<lparr>d_task := input (board s2)\<rparr>) (docs (db s2))\<rparr>,
      out := out s2 @ [CallUpdateDoc (tid ?t) (input (board s2))]\<rparr>"
    by (rule handleAddTask_update_ok) (use assms b2 in auto)
  with run b2 show ?thesis by simp
qed

theorem edit_submit_changes_only_text_witness:
  "vip demo_user \<and> 0 < length (taskList (board demo_sys)) \<and>
   distinct (map tid (taskList (board demo_sys))) \<and>
   map_of (docs (db demo_sys)) (tid (taskList (board demo_sys) ! 0)) \<noteq> None \<and>
   ''Buy oat milk'' \<noteq> [] \<and> w_net demo_world = Delivered \<and>
   (\<exists>s'. run demo_user demo_fmt
            [(demo_world, ClickEdit 0), (demo_world, Change ''Buy oat milk''), (demo_world, Submit)]
            demo_sys = Some s' \<and>
          taskList (board s') = [demo_task\<lparr>task := ''Buy oat milk''\<rparr>])"
proof -
  have h: "vip demo_user" "0 < length (taskList (board demo_sys))"
    "distinct (map tid (taskList (board demo_sys)))"
    "map_of (docs (db demo_sys)) (tid (taskList (board demo_sys) ! 0)) \<noteq> None"
    "''Buy oat milk'' \<noteq> []" "w_net demo_world = Delivered"
    by (simp_all add: demo_defs)
  from edit_submit_changes_only_text[OF h, of demo_fmt demo_world demo_world]
  obtain s' where "run demo_user demo_fmt
      [(demo_world, ClickEdit 0), (demo_world, Change ''Buy oat milk''), (demo_world, Submit)] demo_sys = Some s'"
    "taskList (board s') = (taskList (board demo_sys))[0 := (taskList (board demo_sys) ! 0)\<lparr>task := ''Buy oat milk''\<rparr>]"
    by blast
  with h show ?thesis by (auto simp: demo_sys_def)
qed

text \<open>
  C14. Entering edit mode, typing, and cancelling issues no remote call and restores
  the page: the list, the store and the effects are as before, and only the input is
  cleared.
\<close>

theorem edit_then_cancel_restores:
  assumes "taskEdit (board s) = None" "vip u" "i < length (taskList (board s))"
  shows "run u fmt [(w0, ClickEdit i), (w1, Change v), (w2, ClickCancel)] s =
           Some (s\<lparr>board := (board s)\<lparr>input := []\<rparr>\<rparr>)"
  using assms by (simp add: handleEditTask_def onChange_def handleCancelEdit_def)

theorem edit_then_cancel_restores_witness:
  "taskEdit (board demo_sys) = None \<and> vip demo_user \<and> 0 < length (taskList (board demo_sys)) \<and>
   run demo_user demo_fmt [(demo_world, ClickEdit 0), (demo_world, Change ''x''), (demo_world, ClickCancel)]
     demo_sys = Some (demo_sys\<lparr>board := (board demo_sys)\<lparr>input := []\<rparr>\<rparr>)"
proof -
  have h: "taskEdit (board demo_sys) = None" "vip demo_user" "0 < length (taskList (board demo_sys))"
    by (simp_all add: demo_defs)
  show ?thesis using edit_then_cancel_restores[OF h] h by blast
qed

text \<open>
  C6. Deleting task \<open>i\<close> when the store accepts removes exactly that entry from the
  list (the list is one shorter and keeps every other task in order) and its document
  from the store.
\<close>

theorem delete_removes_exactly_one:
  assumes "distinct (map tid (taskList (board s)))" "i < length (taskList (board s))"
    "w_net w = Delivered"
  shows "\<exists>s'. dispatch u fmt w (ClickDelete i) s = Some s' \<and>
     taskList (board s') = take i (taskList (board s)) @ drop (Suc i) (taskList (board s)) \<and>
     length (taskList (board s')) = length (taskList (board s)) - 1 \<and>
     docs (db s') = AList.delete (tid (taskList (board s) ! i)) (docs (db s))"
  using assms filter_key_nth[OF assms(1,2)] by (simp add: handleDelete_ok)

theorem delete_removes_exactly_one_witness:
  "distinct (map tid (taskList (board demo_sys))) \<and> 0 < length (taskList (board demo_sys)) \<and>
   w_net demo_world = Delivered \<and>
   (\<exists>s'. dispatch demo_user demo_fmt demo_world (ClickDelete 0) demo_sys = Some s' \<and>
         taskList (board s') = [] \<and> docs (db s') = [])"
proof -
  have h: "distinct (map tid (taskList (board demo_sys)))" "0 < length (taskList (board demo_sys))"
    "w_net demo_world = Delivered"
    by (simp_all add: demo_defs)
  from delete_removes_exactly_one[OF h, of demo_user demo_fmt] h show ?thesis
    by (auto simp: demo_sys_def demo_task_def AList.delete_eq)
qed

text \<open>
  C7. A remote call the store rejects changes neither the view's state nor the store,
  for the submit (add or update) and for delete alike: the rejection is only logged.
\<close>

theorem rejected_call_changes_nothing:
  assumes "w_net w = Rejected" "e = Submit \<or> (\<exists>i. e = ClickDelete i)" "dispatch u fmt w e s = Some s'"
  shows "board s' = board s \<and> db s' = db s"
  using assms
  by (cases "input (board s) = []"; cases "taskEdit (board s)")
    (auto simp: handleAddTask_empty handleAddTask_add_fail handleAddTask_update_fail
      handleDelete_fail Let_def rejected_unchanged split: if_splits)

theorem rejected_call_changes_nothing_witness:
  "w_net (demo_world\<lparr>w_net := Rejected\<rparr>) = Rejected \<and>
   (ClickDelete 0 = Submit \<or> (\<exists>i. ClickDelete 0 = ClickDelete i)) \<and>
   dispatch demo_user demo_fmt (demo_world\<lparr>w_net := Rejected\<rparr>) (ClickDelete 0) demo_sys =
     Some (handleDelete (demo_world\<lparr>w_net := Rejected\<rparr>) ''1'' demo_sys) \<and>
   board (handleDelete (demo_world\<lparr>w_net := Rejected\<rparr>) ''1'' demo_sys) = board demo_sys"
proof -
  have h: "w_net (demo_world\<lparr>w_net := Rejected\<rparr>) = Rejected"
    "ClickDelete 0 = Submit \<or> (\<exists>i. ClickDelete 0 = ClickDelete i)"
    "dispatch demo_user demo_fmt (demo_world\<lparr>w_net := Rejected\<rparr>) (ClickDelete 0) demo_sys =
       Some (handleDelete (demo_world\<lparr>w_net := Rejected\<rparr>) ''1'' demo_sys)"
    by (simp_all add: demo_sys_def demo_task_def)
  show ?thesis using rejected_call_changes_nothing[OF h] h by blast
qed

end
