(* ===== verification/Loader.thy ===== *)
theory Loader
  imports Task
begin

text \<open>
  The server-side loader \<open>getServerSideProps\<close> (\<open>src/src/pages/board/index.tsx\<close>,
  lines 212--246). It reads the session; without a session identifier it redirects to
  \<open>/\<close>, non-permanently, and touches nothing else. Otherwise it queries the
  \<open>tasks\<close> collection for the documents whose \<open>userId\<close> is the session's, turns
  each into a \<open>TaskList\<close> entry with a formatted creation date, and returns them with
  the user summary as props. A failed query is an unhandled rejection of the loader.
\<close>

text \<open>The next-auth session fields the loader reads.\<close>

record session =
  sess_id :: "string option"
  sess_name :: string
  sess_vip :: bool
  sess_lastDonate :: time

datatype gssp_result = Redirect string bool | Props BoardProps | Unhandled store_error

text \<open>
  Lines 229--233: \<open>{id: doc.id, createdFormatted: format(created), ...doc.data()}\<close>.
  The spread copies the document's four fields; a document written by this page has no
  \<open>id\<close> or \<open>createdFormatted\<close> field, so nothing is overridden.
\<close>

definition doc_to_task :: "formatter \<Rightarrow> doc_id \<times> task_doc \<Rightarrow> TaskList" where
  "doc_to_task fmt kd =
     (case kd of (k, d) \<Rightarrow>
        \<lparr>tid = k, created = d_created d, createdFormatted = Some (fmt (d_created d)),
         task = d_task d, userId = d_userId d, name = d_name d\<rparr>)"

text \<open>
  The guard \<open>!session?.id\<close>: true without a session, without an identifier, and for
  the empty identifier, which JavaScript treats as false.
\<close>

definition getServerSideProps :: "formatter \<Rightarrow> net \<Rightarrow> session option \<Rightarrow> store \<Rightarrow> gssp_result" where
  "getServerSideProps fmt n sess st =
     (case sess of
        None \<Rightarrow> Redirect ''/'' False
      | Some se \<Rightarrow>
          (case sess_id se of
             None \<Rightarrow> Redirect ''/'' False
           | Some i \<Rightarrow>
               if i = [] then Redirect ''/'' False
               else (case getDocs n i st of
                       Inl e \<Rightarrow> Unhandled e
                     | Inr ds \<Rightarrow>
                         Props \<lparr>user = \<lparr>uid = i, uname = sess_name se, vip = sess_vip se,
                                         lastDonate = sess_lastDonate se\<rparr>,
                                data = map (doc_to_task fmt) ds\<rparr>)))"

section \<open>Concrete inputs for the witnesses\<close>

definition demo_fmt_loader :: formatter where
  "demo_fmt_loader t = ''01 January 1970''"

definition demo_session :: session where
  "demo_session = \<lparr>sess_id = Some ''u1'', sess_name = ''Ana'', sess_vip = True, sess_lastDonate = 0\<rparr>"

text \<open>Two documents, one of \<open>u1\<close> and one of another user.\<close>

definition demo_store :: store where
  "demo_store =
     \<lparr>docs = [(''1'', \<lparr>d_created = 0, d_task = ''Buy milk'', d_userId = ''u1'', d_name = ''Ana''\<rparr>),
             (''2'', \<lparr>d_created = 0, d_task = ''Other'', d_userId = ''u2'', d_name = ''Bia''\<rparr>)],
      next_id = 3\<rparr>"

section \<open>Lemmas\<close>

lemma getServerSideProps_Props:
  "getServerSideProps fmt n sess st = Props p \<longleftrightarrow>
     (\<exists>se i. sess = Some se \<and> sess_id se = Some i \<and> i \<noteq> [] \<and> n = Delivered \<and>
        p = \<lparr>user = \<lparr>uid = i, uname = sess_name se, vip = sess_vip se, lastDonate = sess_lastDonate se\<rparr>,
             data = map (doc_to_task fmt) (where_userId i st)\<rparr>)"
  by (auto simp: getServerSideProps_def getDocs_def split: option.splits if_splits)

lemma doc_to_task_fields [simp]:
  "tid (doc_to_task fmt kd) = fst kd" "task_view (doc_to_task fmt kd) = doc_view (snd kd)"
  "userId (doc_to_task fmt kd) = d_userId (snd kd)"
  "createdFormatted (doc_to_task fmt kd) = Some (fmt (created (doc_to_task fmt kd)))"
  by (simp_all add: doc_to_task_def task_view_def doc_view_def split: prod.splits)

text \<open>The loaded list, read by identifier, is the user's documents in the store.\<close>

lemma keyed_loaded:
  "store_wf st \<Longrightarrow>
   keyed tid task_view (map (doc_to_task fmt) (where_userId i st)) = map_option doc_view \<circ> owned i st"
proof -
  assume wf: "store_wf st"
  have "keyed tid task_view (map (doc_to_task fmt) xs) = map_option doc_view \<circ> map_of xs" for xs
    by (induction xs) (auto simp: fun_eq_iff)
  with map_of_where_userId[OF wf] show ?thesis by simp
qed

lemma distinct_loaded:
  "store_wf st \<Longrightarrow> distinct (map tid (map (doc_to_task fmt) (where_userId i st)))"
  by (simp add: store_wf_def where_userId_def distinct_map_filter comp_def)

text \<open>The loaded list's dates, read by identifier: each of the user's documents' timestamps, formatted.\<close>

lemma keyed_created_loaded:
  "store_wf st \<Longrightarrow>
   keyed tid createdFormatted (map (doc_to_task fmt) (where_userId i st)) =
     map_option (\<lambda>d. Some (fmt (d_created d))) \<circ> owned i st"
proof -
  assume wf: "store_wf st"
  have "keyed tid createdFormatted (map (doc_to_task fmt) xs) =
          map_option (\<lambda>d. Some (fmt (d_created d))) \<circ> map_of xs" for xs
    by (induction xs) (auto simp: fun_eq_iff doc_to_task_def)
  with map_of_where_userId[OF wf] show ?thesis by simp
qed

section \<open>Properties of the loader\<close>

text \<open>
  C9. A request without a session, with a session but no identifier, or with the empty
  identifier is redirected to \<open>/\<close>, not permanently, whatever the store holds and
  whatever the network does: no task data is read.
\<close>

theorem unauthenticated_redirects:
  "getServerSideProps fmt n None st = Redirect ''/'' False \<and>
   getServerSideProps fmt n (Some (se\<lparr>sess_id := None\<rparr>)) st = Redirect ''/'' False \<and>
   getServerSideProps fmt n (Some (se\<lparr>sess_id := Some []\<rparr>)) st = Redirect ''/'' False"
  by (simp add: getServerSideProps_def)

text \<open>
  C10. For a signed-in user, when the query is delivered, the props are the session's
  user summary and, in the store's order, exactly the user's documents, each with its
  formatted creation date.
\<close>

theorem loads_owned_tasks:
  assumes "sess_id se = Some i" "i \<noteq> []" "n = Delivered"
  shows "getServerSideProps fmt n (Some se) st =
    Props \<lparr>user = \<lparr>uid = i, uname = sess_name se, vip = sess_vip se, lastDonate = sess_lastDonate se\<rparr>,
           data = map (doc_to_task fmt) (filter (\<lambda>(k, d). d_userId d = i) (docs st))\<rparr>"
  using assms by (simp add: getServerSideProps_def getDocs_def where_userId_def)

theorem loads_owned_tasks_witness:
  "sess_id demo_session = Some ''u1'' \<and> ''u1'' \<noteq> [] \<and> Delivered = Delivered \<and>
   getServerSideProps demo_fmt_loader Delivered (Some demo_session) demo_store =
     Props \<lparr>user = \<lparr>uid = ''u1'', uname = ''Ana'', vip = True, lastDonate = 0\<rparr>,
            data = [\<lparr>tid = ''1'', created = 0, createdFormatted = Some (demo_fmt_loader 0),
                     task = ''Buy milk'', userId = ''u1'', name = ''Ana''\<rparr>]\<rparr>"
proof -
  have h: "sess_id demo_session = Some ''u1''" "''u1'' \<noteq> []" "Delivered = Delivered"
    by (simp_all add: demo_session_def)
  show ?thesis
    using loads_owned_tasks[OF h, of demo_fmt_loader demo_store] h
    by (simp add: demo_session_def demo_store_def doc_to_task_def)
qed

text \<open>
  C15. Every task the loader hands the page belongs to the signed-in user and carries
  its formatted creation date; the user's identifier is not empty.
\<close>

theorem loaded_tasks_owned:
  assumes "getServerSideProps fmt n sess st = Props p" "t \<in> set (data p)"
  shows "userId t = uid (user p) \<and> createdFormatted t = Some (fmt (created t)) \<and> uid (user p) \<noteq> []"
  using assms by (auto simp: getServerSideProps_Props where_userId_def)

theorem loaded_tasks_owned_witness:
  "getServerSideProps demo_fmt_loader Delivered (Some demo_session) demo_store =
     Props \<lparr>user = \<lparr>uid = ''u1'', uname = ''Ana'', vip = True, lastDonate = 0\<rparr>,
            data = [\<lparr>tid = ''1'', created = 0, createdFormatted = Some ''01 January 1970'',
                     task = ''Buy milk'', userId = ''u1'', name = ''Ana''\<rparr>]\<rparr> \<and>
   userId \<lparr>tid = ''1'', created = 0, createdFormatted = Some ''01 January 1970'',
           task = ''Buy milk'', userId = ''u1'', name = ''Ana''\<rparr> = ''u1''"
proof -
  let ?t = "\<lparr>tid = ''1'', created = 0, createdFormatted = Some ''01 January 1970'',
             task = ''Buy milk'', userId = ''u1'', name = ''Ana''\<rparr>"
  let ?p = "\<lparr>user = \<lparr>uid = ''u1'', uname = ''Ana'', vip = True, lastDonate = 0\<rparr>, data = [?t]\<rparr>"
  have h1: "getServerSideProps demo_fmt_loader Delivered (Some demo_session) demo_store = Props ?p"
    by (simp add: getServerSideProps_def getDocs_def demo_session_def demo_store_def where_userId_def
        doc_to_task_def demo_fmt_loader_def)
  have h2: "?t \<in> set (data ?p)" by simp
  from loaded_tasks_owned[OF h1 h2] h1 show ?thesis by simp
qed

text \<open>
  C16. For a signed-in user, a query that is not delivered makes the loader fail with
  an unhandled rejection; no props are produced.
\<close>

theorem query_failure_unhandled:
  assumes "sess_id se = Some i" "i \<noteq> []" "n \<noteq> Delivered"
  shows "getServerSideProps fmt n (Some se) st = Unhandled Unavailable"
  using assms by (simp add: getServerSideProps_def getDocs_def)

theorem query_failure_unhandled_witness:
  "sess_id demo_session = Some ''u1'' \<and> ''u1'' \<noteq> [] \<and> Rejected \<noteq> Delivered \<and>
   getServerSideProps demo_fmt_loader Rejected (Some demo_session) demo_store = Unhandled Unavailable"
proof -
  have h: "sess_id demo_session = Some ''u1''" "''u1'' \<noteq> []" "Rejected \<noteq> Delivered"
    by (simp_all add: demo_session_def)
  show ?thesis using query_failure_unhandled[OF h] h by blast
qed

end
