(* ===== verification/Board_System.thy ===== *)
theory Board_System
  imports Board Loader
begin

text \<open>
  The page as a whole: the loader produces the props and the view's first state, then
  the user's events run against the store, each remote call resolving before the next
  event. \<open>reachable u fmt ok\<close> collects the states the page can reach for the
  signed-in user \<open>u\<close> when every remote call meets a world satisfying \<open>ok\<close>.

  The abstract specification of the page is a map from identifiers to
  (text, owner, owner name): the user's tasks. \<open>abs_sys\<close> reads it off the store.
  \<open>consistent\<close> states that the view's list, read by identifier, is that map, with
  distinct identifiers, and that an edit target is a document of the user or one
  that no longer exists. Over a reliable network, where no reply is lost, every
  step keeps it and is a step of the abstract specification (\<open>spec_step\<close>).
\<close>

definition reliable :: "world \<Rightarrow> bool" where
  "reliable w \<longleftrightarrow> w_net w \<noteq> ReplyLost"

inductive reachable :: "UserProps \<Rightarrow> formatter \<Rightarrow> (world \<Rightarrow> bool) \<Rightarrow> sys \<Rightarrow> bool"
  for u fmt ok where
  init: "store_wf st \<Longrightarrow> getServerSideProps fmt n sess st = Props p \<Longrightarrow> user p = u \<Longrightarrow>
         reachable u fmt ok \<lparr>board = board_init p, db = st, out = []\<rparr>"
| step: "reachable u fmt ok s \<Longrightarrow> ok w \<Longrightarrow> dispatch u fmt w e s = Some s' \<Longrightarrow>
         reachable u fmt ok s'"

type_synonym abs_board = "doc_id \<rightharpoonup> string \<times> string \<times> string"

definition abs_sys :: "UserProps \<Rightarrow> sys \<Rightarrow> abs_board" where
  "abs_sys u s = map_option doc_view \<circ> owned (uid u) (db s)"

definition consistent :: "UserProps \<Rightarrow> sys \<Rightarrow> bool" where
  "consistent u s \<longleftrightarrow>
     store_wf (db s) \<and> distinct (map tid (taskList (board s))) \<and>
     keyed tid task_view (taskList (board s)) = abs_sys u s \<and>
     (\<forall>te. taskEdit (board s) = Some te \<longrightarrow>
        tid te \<in> issued (db s) \<and>
        (map_of (docs (db s)) (tid te) \<noteq> None \<longrightarrow> owned (uid u) (db s) (tid te) \<noteq> None))"

text \<open>
  The abstract specification: one step adds a task under a new identifier with a
  non-empty text for the user, replaces the text of one of the user's tasks by a
  non-empty text, removes a task, or does nothing.
\<close>

inductive spec_step :: "string \<Rightarrow> string \<Rightarrow> abs_board \<Rightarrow> abs_board \<Rightarrow> bool" for owner nm where
  skip: "spec_step owner nm m m"
| add: "m k = None \<Longrightarrow> v \<noteq> [] \<Longrightarrow> spec_step owner nm m (m(k \<mapsto> (v, owner, nm)))"
| update: "m k = Some (v0, ow, nw) \<Longrightarrow> v \<noteq> [] \<Longrightarrow> spec_step owner nm m (m(k \<mapsto> (v, ow, nw)))"
| delete: "spec_step owner nm m (m(k := None))"

text \<open>
  What keeps the edit callback from throwing: an edit target is on the list or no
  longer in the store, and the console has never shown the callback's \<open>TypeError\<close>.
\<close>

definition edit_safe :: "sys \<Rightarrow> bool" where
  "edit_safe s \<longleftrightarrow>
     (\<forall>te. taskEdit (board s) = Some te \<longrightarrow>
        tid te \<in> tid ` set (taskList (board s)) \<or> map_of (docs (db s)) (tid te) = None) \<and>
     ConsoleLog [] (ScriptFailure TypeError) \<notin> set (out s)"

section \<open>Concrete runs for the witnesses\<close>

text \<open>
  The page of \<open>u1\<close> loaded from \<open>demo_store\<close> (one task of \<open>u1\<close>, one of another
  user), for a supporter or not.
\<close>

definition demo_start :: "bool \<Rightarrow> sys" where
  "demo_start b =
     \<lparr>board = board_init \<lparr>user = \<lparr>uid = ''u1'', uname = ''Ana'', vip = b, lastDonate = 0\<rparr>,
                          data = map (doc_to_task demo_fmt) (where_userId ''u1'' demo_store)\<rparr>,
      db = demo_store, out = []\<rparr>"

section \<open>Lemmas: one lemma per kind of step\<close>

lemma consistent_frame:
  assumes "consistent u s" "db s' = db s" "taskList (board s') = taskList (board s)"
    "taskEdit (board s') = taskEdit (board s) \<or> taskEdit (board s') = None"
  shows "consistent u s' \<and> abs_sys u s' = abs_sys u s"
  using assms by (auto simp: consistent_def abs_sys_def)

lemma consistent_edit_click:
  assumes "consistent u s" "i < length (taskList (board s))"
  shows "consistent u (handleEditTask (taskList (board s) ! i) s) \<and>
         abs_sys u (handleEditTask (taskList (board s) ! i) s) = abs_sys u s"
proof -
  let ?t = "taskList (board s) ! i"
  from assms have "keyed tid task_view (taskList (board s)) (tid ?t) = Some (task_view ?t)"
    by (intro keyed_nth) (simp_all add: consistent_def)
  with assms(1) have own: "owned (uid u) (db s) (tid ?t) \<noteq> None"
    by (auto simp: consistent_def abs_sys_def)
  then have "map_of (docs (db s)) (tid ?t) \<noteq> None"
    by (auto simp: owned_def split: option.splits)
  then have "tid ?t \<in> issued (db s)"
    using assms(1) by (auto simp: consistent_def store_wf_def dest!: map_of_SomeD)
  with own assms(1) show ?thesis
    by (simp add: consistent_def abs_sys_def handleEditTask_def)
qed

lemma consistent_add_ok:
  assumes c: "consistent u s" and a: "input (board s) \<noteq> []" "taskEdit (board s) = None"
    "w_net w = Delivered"
  shows "consistent u (handleAddTask u fmt w s) \<and>
         abs_sys u (handleAddTask u fmt w s) =
           (abs_sys u s)(auto_id (next_id (db s)) \<mapsto> (input (board s), uid u, uname u))"
proof -
  let ?k = "auto_id (next_id (db s))"
  let ?d = "\<lparr>d_created = clock0 w, d_task = input (board s), d_userId = uid u, d_name = uname u\<rparr>"
  let ?t = "\<lparr>tid = ?k, created = clock1 w, createdFormatted = Some (fmt (clock2 w)),
             task = input (board s), userId = uid u, name = uname u\<rparr>"
  from c have wf: "store_wf (db s)" by (simp add: consistent_def)
  then have fs: "?k \<notin> fst ` set (docs (db s))" by (rule store_wf_fresh)
  then have "map_of (docs (db s)) ?k = None" by (simp add: map_of_eq_None_iff)
  then have "owned (uid u) (db s) ?k = None" by (simp add: owned_def)
  with c have "keyed tid task_view (taskList (board s)) ?k = None"
    by (simp add: consistent_def abs_sys_def)
  then have fl: "?k \<notin> tid ` set (taskList (board s))" by (simp add: keyed_None_iff)
  have st: "store_wf (snd (addDoc Delivered ?d (db s)))" using wf by (rule addDoc_wf)
  have abs: "abs_sys u (handleAddTask u fmt w s) = (abs_sys u s)(?k \<mapsto> (input (board s), uid u, uname u))"
    using a fs by (simp add: handleAddTask_add_ok abs_sys_def owned_append_fresh doc_view_def Let_def)
  have "keyed tid task_view (taskList (board s) @ [?t]) = (keyed tid task_view (taskList (board s)))(?k \<mapsto> task_view ?t)"
    using fl by (simp add: keyed_append_fresh)
  with abs c a fl st show ?thesis
    by (simp add: consistent_def handleAddTask_add_ok add_then_def task_view_def addDoc_def
        reply_def Let_def)
qed

lemma consistent_update_ok:
  assumes c: "consistent u s" and a: "input (board s) \<noteq> []" "taskEdit (board s) = Some te"
    "w_net w = Delivered" "map_of (docs (db s)) (tid te) \<noteq> None"
  obtains v0 ow nw where "abs_sys u s (tid te) = Some (v0, ow, nw)"
    "consistent u (handleAddTask u fmt w s)"
    "abs_sys u (handleAddTask u fmt w s) = (abs_sys u s)(tid te \<mapsto> (input (board s), ow, nw))"
proof -
  let ?xs = "taskList (board s)" and ?k = "tid te" and ?v = "input (board s)"
  let ?f = "\<lambda>d. d\<lparr>d_task := ?v\<rparr>"
  from c have wf: "store_wf (db s)" and dist: "distinct (map tid ?xs)"
    and kv: "keyed tid task_view ?xs = abs_sys u s"
    and own: "owned (uid u) (db s) ?k \<noteq> None"
    using a by (auto simp: consistent_def)
  then obtain d where d: "owned (uid u) (db s) ?k = Some d" by auto
  with kv have "keyed tid task_view ?xs ?k \<noteq> None" by (simp add: abs_sys_def)
  then obtain i where i: "i < length ?xs" "tid (?xs ! i) = ?k" using keyed_Some_in by metis
  have "keyed tid task_view ?xs (tid (?xs ! i)) = Some (task_view (?xs ! i))"
    using dist i(1) by (rule keyed_nth)
  with kv d i(2) have tv: "task_view (?xs ! i) = doc_view d" by (simp add: abs_sys_def)
  have s': "handleAddTask u fmt w s =
    s\<lparr>board := (board s)\<lparr>taskList := ?xs[i := (?xs ! i)\<lparr>task := ?v\<rparr>], taskEdit := None, input := []\<rparr>,
      db := (db s)\<lparr>docs := AList.map_entry ?k ?f (docs (db s))\<rparr>,
      out := out s @ [CallUpdateDoc ?k ?v]\<rparr>"
    using a dist i by (intro handleAddTask_update_ok) auto
  have so: "owned (uid u) ((db s)\<lparr>docs := AList.map_entry ?k ?f (docs (db s))\<rparr>) =
      (owned (uid u) (db s))(?k \<mapsto> ?f d)"
    using d by (simp add: owned_map_entry)
  have lo: "keyed tid task_view (?xs[i := (?xs ! i)\<lparr>task := ?v\<rparr>]) =
      (keyed tid task_view ?xs)(?k \<mapsto> task_view ((?xs ! i)\<lparr>task := ?v\<rparr>))"
    using dist i keyed_update_key[OF dist i(1), of "(?xs ! i)\<lparr>task := ?v\<rparr>"] by simp
  have wf': "store_wf ((db s)\<lparr>docs := AList.map_entry ?k ?f (docs (db s))\<rparr>)"
    using updateDoc_wf[OF wf, of Delivered ?k ?v] a(4) by (auto simp: updateDoc_def reply_def)
  have "abs_sys u s ?k = Some (doc_view d)" using d by (simp add: abs_sys_def)
  moreover have "consistent u (handleAddTask u fmt w s)"
    using s' so lo wf' kv tv i dist
    by (simp add: consistent_def abs_sys_def distinct_map_update_key task_view_def doc_view_def)
  moreover have "abs_sys u (handleAddTask u fmt w s) = (abs_sys u s)(?k \<mapsto> (?v, d_userId d, d_name d))"
    using s' so by (simp add: abs_sys_def doc_view_def)
  ultimately show ?thesis using that by (simp add: doc_view_def)
qed

lemma consistent_delete_ok:
  assumes c: "consistent u s" and a: "w_net w = Delivered"
  shows "consistent u (handleDelete w k s) \<and> abs_sys u (handleDelete w k s) = (abs_sys u s)(k := None)"
proof -
  from c have wf: "store_wf (db s)" by (simp add: consistent_def)
  have wf': "store_wf ((db s)\<lparr>docs := AList.delete k (docs (db s))\<rparr>)"
    using deleteDoc_wf[OF wf, of Delivered k] by (simp add: deleteDoc_def reply_def)
  have abs: "abs_sys u (handleDelete w k s) = (abs_sys u s)(k := None)"
    using a by (simp add: handleDelete_ok abs_sys_def owned_delete fun_eq_iff)
  with c a wf' show ?thesis
    by (auto simp: consistent_def handleDelete_ok keyed_filter_key distinct_filter_map
        owned_delete delete_conv' abs_sys_def issued_def)
qed

lemma abs_sys_fresh:
  "consistent u s \<Longrightarrow> abs_sys u s (auto_id (next_id (db s))) = None"
proof -
  assume "consistent u s"
  then have "auto_id (next_id (db s)) \<notin> fst ` set (docs (db s))"
    by (intro store_wf_fresh) (simp add: consistent_def)
  then have "map_of (docs (db s)) (auto_id (next_id (db s))) = None"
    by (simp add: map_of_eq_None_iff)
  then show ?thesis by (simp add: abs_sys_def owned_def)
qed

lemma consistent_submit:
  assumes c: "consistent u s" and r: "reliable w"
  shows "consistent u (handleAddTask u fmt w s) \<and>
         spec_step (uid u) (uname u) (abs_sys u s) (abs_sys u (handleAddTask u fmt w s))"
proof (cases "input (board s) = []")
  case True
  then show ?thesis
    using consistent_frame[OF c, of "handleAddTask u fmt w s"] by (simp add: handleAddTask_empty spec_step.skip)
next
  case ne: False
  show ?thesis
  proof (cases "taskEdit (board s)")
    case None
    show ?thesis
    proof (cases "w_net w = Delivered")
      case True
      from consistent_add_ok[OF c ne None True, of fmt] abs_sys_fresh[OF c] ne show ?thesis
        by (simp add: spec_step.add)
    next
      case False
      with r have "w_net w = Rejected" by (cases "w_net w") (auto simp: reliable_def)
      with ne None consistent_frame[OF c, of "handleAddTask u fmt w s"] show ?thesis
        by (simp add: handleAddTask_add_fail rejected_unchanged Let_def spec_step.skip)
    qed
  next
    case (Some te)
    show ?thesis
    proof (cases "w_net w = Delivered \<and> map_of (docs (db s)) (tid te) \<noteq> None")
      case True
      then obtain v0 ow nw where "abs_sys u s (tid te) = Some (v0, ow, nw)"
        "consistent u (handleAddTask u fmt w s)"
        "abs_sys u (handleAddTask u fmt w s) = (abs_sys u s)(tid te \<mapsto> (input (board s), ow, nw))"
        using consistent_update_ok[OF c ne Some] by blast
      with ne show ?thesis by (simp add: spec_step.update)
    next
      case False
      with r have "w_net w = Rejected \<or> map_of (docs (db s)) (tid te) = None"
        by (cases "w_net w") (auto simp: reliable_def)
      then have "db (handleAddTask u fmt w s) = db s"
        using ne Some handleAddTask_update_fail(2)[OF ne Some, of w u fmt]
        by (auto simp: updateDoc_def reply_def split: option.splits)
      moreover have "board (handleAddTask u fmt w s) = board s"
        using False ne Some by (intro handleAddTask_update_fail(1)) auto
      ultimately show ?thesis
        using consistent_frame[OF c, of "handleAddTask u fmt w s"] by (simp add: spec_step.skip)
    qed
  qed
qed

lemma consistent_dispatch:
  assumes c: "consistent u s" and r: "reliable w" and d: "dispatch u fmt w e s = Some s'"
  shows "consistent u s' \<and> spec_step (uid u) (uname u) (abs_sys u s) (abs_sys u s')"
proof (cases e)
  case Submit
  with d consistent_submit[OF c r] show ?thesis by auto
next
  case (Change v)
  with d consistent_frame[OF c, of s'] show ?thesis by (auto simp: onChange_def spec_step.skip)
next
  case (ClickEdit i)
  with d consistent_edit_click[OF c, of i] show ?thesis by (auto simp: spec_step.skip split: if_splits)
next
  case (ClickDelete i)
  show ?thesis
  proof (cases "w_net w = Delivered")
    case True
    with d ClickDelete consistent_delete_ok[OF c True] show ?thesis
      by (auto simp: spec_step.delete split: if_splits)
  next
    case False
    with r have "w_net w = Rejected" by (cases "w_net w") (auto simp: reliable_def)
    with d ClickDelete consistent_frame[OF c, of s'] show ?thesis
      by (auto simp: handleDelete_fail rejected_unchanged spec_step.skip split: if_splits)
  qed
next
  case ClickCancel
  with d consistent_frame[OF c, of s'] show ?thesis
    by (auto simp: handleCancelEdit_def spec_step.skip split: if_splits)
qed

lemma consistent_init:
  assumes "store_wf st" "getServerSideProps fmt n sess st = Props p"
  shows "consistent (user p) \<lparr>board = board_init p, db = st, out = []\<rparr>"
  using assms distinct_loaded[OF assms(1)]
  by (auto simp: consistent_def getServerSideProps_Props board_init_def abs_sys_def
      keyed_loaded)

lemma reachable_imp_consistent:
  "reachable u fmt reliable s \<Longrightarrow> consistent u s"
proof (induction rule: reachable.induct)
  case (init st n sess p)
  then show ?case using consistent_init by blast
next
  case (step s w e s')
  then show ?case using consistent_dispatch by blast
qed

lemma store_wf_demo: "store_wf demo_store"
proof -
  have "''1'' \<in> issued demo_store" unfolding issued_def demo_store_def
    by (rule image_eqI[where x = "1::nat"]) code_simp+
  moreover have "''2'' \<in> issued demo_store" unfolding issued_def demo_store_def
    by (rule image_eqI[where x = "2::nat"]) code_simp+
  ultimately show ?thesis by (simp add: store_wf_def demo_store_def)
qed

lemma demo_start_reachable:
  "reachable \<lparr>uid = ''u1'', uname = ''Ana'', vip = b, lastDonate = 0\<rparr> demo_fmt ok (demo_start b)"
proof -
  have "getServerSideProps demo_fmt Delivered (Some (demo_session\<lparr>sess_vip := b\<rparr>)) demo_store =
      Props \<lparr>user = \<lparr>uid = ''u1'', uname = ''Ana'', vip = b, lastDonate = 0\<rparr>,
             data = map (doc_to_task demo_fmt) (where_userId ''u1'' demo_store)\<rparr>"
    by (simp add: getServerSideProps_def getDocs_def demo_session_def)
  from reachable.init[OF store_wf_demo this] show ?thesis by (simp add: demo_start_def)
qed

section \<open>Lemmas: the edit callback\<close>

lemma edit_safe_dispatch:
  assumes es: "edit_safe s" and d: "dispatch u fmt w e s = Some s'"
  shows "edit_safe s'"
proof (cases e)
  case Submit
  show ?thesis
  proof (cases "input (board s) = [] \<or> taskEdit (board s) = None")
    case True
    then show ?thesis
    proof
      assume "input (board s) = []"
      with d Submit have "s' = s\<lparr>out := out s @ [Alert ''Preencha alguma tarefa!'']\<rparr>"
        by (simp add: handleAddTask_empty)
      with es show ?thesis by (simp add: edit_safe_def)
    next
      assume n: "taskEdit (board s) = None"
      have "taskEdit (board (handleAddTask u fmt w s)) = None"
        "ConsoleLog [] (ScriptFailure TypeError) \<notin> set (out (handleAddTask u fmt w s))"
        using n es by (cases "input (board s) = []"; cases "w_net w = Delivered";
            simp add: handleAddTask_empty handleAddTask_add_ok handleAddTask_add_fail add_then_def
              Let_def edit_safe_def)+
      with d Submit show ?thesis by (simp add: edit_safe_def)
    qed
  next
    case False
    then obtain te where ne: "input (board s) \<noteq> []" and te: "taskEdit (board s) = Some te" by auto
    have keys: "map_of (docs (db (handleAddTask u fmt w s))) (tid te) = None \<longleftrightarrow>
        map_of (docs (db s)) (tid te) = None"
      by (simp add: handler_defs updateDoc_def reply_def map_of_map_entry te ne
          split: option.splits net.splits sum.splits prod.splits)
    show ?thesis
    proof (cases "w_net w = Delivered \<and> map_of (docs (db s)) (tid te) \<noteq> None")
      case True
      with es te have "tid te \<in> tid ` set (taskList (board s))" by (auto simp: edit_safe_def)
      then have "\<exists>x\<in>set (taskList (board s)). tid x = tid te" by force
      then have "\<exists>b'. update_then te (board s) (board s) = Inr b' \<and> taskEdit b' = None"
        using js_findIndex_found[of "taskList (board s)" "\<lambda>item. tid item = tid te"]
        by (auto simp: update_then_def js_modify_at_def Let_def)
      then obtain b' where "update_then te (board s) (board s) = Inr b'" "taskEdit b' = None" by blast
      with True ne te es d Submit show ?thesis
        by (auto simp: handler_defs updateDoc_def reply_def edit_safe_def split: option.splits)
    next
      case False
      then have "board (handleAddTask u fmt w s) = board s" "db (handleAddTask u fmt w s) =
          snd (updateDoc (w_net w) (tid te) (input (board s)) (db s))"
        using ne te by (intro handleAddTask_update_fail; auto)+
      moreover have "out (handleAddTask u fmt w s) = out s @ [CallUpdateDoc (tid te) (input (board s)),
          ConsoleLog [] (StoreFailure (if w_net w = Delivered then NotFound else Unavailable))]"
        using False ne te by (cases "w_net w") (auto simp: handler_defs updateDoc_def reply_def
            split: option.splits)
      ultimately show ?thesis using keys es te d Submit by (auto simp: edit_safe_def)
    qed
  qed
next
  case (Change v)
  with d es show ?thesis by (auto simp: onChange_def edit_safe_def)
next
  case (ClickEdit i)
  with d es show ?thesis by (auto simp: handleEditTask_def edit_safe_def split: if_splits)
next
  case (ClickDelete i)
  with d es show ?thesis
    by (cases "w_net w") (auto simp: handleDelete_ok handleDelete_fail deleteDoc_def reply_def
        edit_safe_def delete_conv' split: if_splits)
next
  case ClickCancel
  with d es show ?thesis by (auto simp: handleCancelEdit_def edit_safe_def split: if_splits)
qed

lemma reachable_imp_edit_safe: "reachable u fmt ok s \<Longrightarrow> edit_safe s"
proof (induction rule: reachable.induct)
  case (init st n sess p)
  then show ?case by (simp add: edit_safe_def board_init_def)
next
  case (step s w e s')
  then show ?case using edit_safe_dispatch by blast
qed

lemma taskEdit_stays_None:
  assumes "\<not> vip u" "taskEdit (board s) = None" "dispatch u fmt w e s = Some s'"
  shows "taskEdit (board s') = None"
proof (cases e)
  case Submit
  with assms show ?thesis
    by (cases "input (board s) = []"; cases "w_net w = Delivered")
      (auto simp: handleAddTask_empty handleAddTask_add_ok handleAddTask_add_fail add_then_def Let_def)
qed (use assms in \<open>auto simp: onChange_def handleDelete_def delete_then_def console_log_def
       handleCancelEdit_def Let_def split: if_splits prod.splits sum.splits\<close>)

section \<open>Properties of the page\<close>

text \<open>
  C2. Over a network that loses no reply, the page never drifts from the store: in
  every reachable state, reloading the page (the loader's delivered query for the same
  user) shows the same tasks, one per identifier, with the same text, owner and owner
  name as the list the page holds.
\<close>

theorem reload_shows_same_tasks:
  assumes "reachable u fmt reliable s"
    "getServerSideProps fmt' Delivered (Some se) (db s) = Props p" "uid (user p) = uid u"
  shows "keyed tid task_view (data p) = keyed tid task_view (taskList (board s)) \<and>
         mset (map tid (data p)) = mset (map tid (taskList (board s)))"
proof -
  from assms(1) have c: "consistent u s" by (rule reachable_imp_consistent)
  from assms(2,3) have dp: "data p = map (doc_to_task fmt') (where_userId (uid u) (db s))"
    by (auto simp: getServerSideProps_Props)
  from c have wf: "store_wf (db s)" by (simp add: consistent_def)
  have k: "keyed tid task_view (data p) = keyed tid task_view (taskList (board s))"
    using c dp keyed_loaded[OF wf] by (simp add: consistent_def abs_sys_def)
  moreover have "mset (map tid (data p)) = mset (map tid (taskList (board s)))"
  proof (rule keyed_eq_mset)
    show "keyed tid task_view (data p) = keyed tid task_view (taskList (board s))" by (rule k)
    show "distinct (map tid (data p))" using dp distinct_loaded[OF wf, of fmt' "uid u"] by simp
    show "distinct (map tid (taskList (board s)))" using c by (simp add: consistent_def)
  qed
  ultimately show ?thesis by blast
qed

theorem reload_shows_same_tasks_witness:
  "reachable demo_user demo_fmt reliable (demo_start True) \<and>
   getServerSideProps demo_fmt Delivered (Some demo_session) (db (demo_start True)) =
     Props \<lparr>user = demo_user, data = map (doc_to_task demo_fmt) (where_userId ''u1'' demo_store)\<rparr> \<and>
   uid (user \<lparr>user = demo_user, data = map (doc_to_task demo_fmt) (where_userId ''u1'' demo_store)\<rparr>) = uid demo_user \<and>
   mset (map tid (map (doc_to_task demo_fmt) (where_userId ''u1'' demo_store))) =
     mset (map tid (taskList (board (demo_start True))))"
proof -
  have h1: "reachable demo_user demo_fmt reliable (demo_start True)"
    using demo_start_reachable[of True] by (simp add: demo_user_def)
  have h2: "getServerSideProps demo_fmt Delivered (Some demo_session) (db (demo_start True)) =
     Props \<lparr>user = demo_user, data = map (doc_to_task demo_fmt) (where_userId ''u1'' demo_store)\<rparr>"
    by (simp add: getServerSideProps_def getDocs_def demo_session_def demo_start_def demo_user_def)
  have h3: "uid (user \<lparr>user = demo_user, data = map (doc_to_task demo_fmt) (where_userId ''u1'' demo_store)\<rparr>) =
      uid demo_user" by simp
  from reload_shows_same_tasks[OF h1 h2 h3] h1 h2 h3 show ?thesis by simp
qed

text \<open>
  C1. Refinement: over a network that loses no reply, every event the page handles is
  a step of the abstract specification \<open>spec_step\<close> on the user's tasks (add a new
  identifier with a non-empty text for the user, replace one task's text by a non-empty
  text keeping its owner, remove a task, or nothing), and afterwards the page's list,
  read by identifier, is again the abstract state.
\<close>

theorem page_refines_spec:
  assumes "reachable u fmt reliable s" "reliable w" "dispatch u fmt w e s = Some s'"
  shows "spec_step (uid u) (uname u) (abs_sys u s) (abs_sys u s') \<and>
         keyed tid task_view (taskList (board s')) = abs_sys u s'"
  using consistent_dispatch[OF reachable_imp_consistent[OF assms(1)] assms(2,3)]
  by (simp add: consistent_def)

theorem page_refines_spec_witness:
  "reachable demo_user demo_fmt reliable (demo_start True) \<and> reliable demo_world \<and>
   dispatch demo_user demo_fmt demo_world (ClickDelete 0) (demo_start True) =
     Some (handleDelete demo_world ''1'' (demo_start True)) \<and>
   spec_step ''u1'' ''Ana'' (abs_sys demo_user (demo_start True))
     (abs_sys demo_user (handleDelete demo_world ''1'' (demo_start True)))"
proof -
  have h1: "reachable demo_user demo_fmt reliable (demo_start True)"
    using demo_start_reachable[of True] by (simp add: demo_user_def)
  have h2: "reliable demo_world" by (simp add: reliable_def demo_world_def)
  have h3: "dispatch demo_user demo_fmt demo_world (ClickDelete 0) (demo_start True) =
     Some (handleDelete demo_world ''1'' (demo_start True))"
    by (simp add: demo_start_def board_init_def demo_store_def where_userId_def doc_to_task_def)
  from page_refines_spec[OF h1 h2 h3] h1 h2 h3 show ?thesis by (simp add: demo_user_def)
qed

text \<open>
  C8. Only a supporter can edit: for a user whose session is not a supporter's, no
  reachable state of the page is in edit mode, and the edit banner is never shown,
  whatever the network does.
\<close>

theorem non_supporter_never_edits:
  assumes "reachable u fmt ok s" "\<not> vip u"
  shows "taskEdit (board s) = None \<and> \<not> warn_banner (render u (board s))"
proof -
  from assms have "taskEdit (board s) = None"
  proof (induction rule: reachable.induct)
    case (init st n sess p)
    then show ?case by (simp add: board_init_def)
  next
    case (step s w e s')
    then show ?case using taskEdit_stays_None by blast
  qed
  then show ?thesis by (simp add: render_def)
qed

theorem non_supporter_never_edits_witness:
  "reachable \<lparr>uid = ''u1'', uname = ''Ana'', vip = False, lastDonate = 0\<rparr> demo_fmt (\<lambda>_. True)
     (demo_start False) \<and>
   \<not> vip \<lparr>uid = ''u1'', uname = ''Ana'', vip = False, lastDonate = 0\<rparr> \<and>
   taskEdit (board (demo_start False)) = None"
proof -
  have h1: "reachable \<lparr>uid = ''u1'', uname = ''Ana'', vip = False, lastDonate = 0\<rparr> demo_fmt (\<lambda>_. True)
     (demo_start False)" by (rule demo_start_reachable)
  have h2: "\<not> vip \<lparr>uid = ''u1'', uname = ''Ana'', vip = False, lastDonate = 0\<rparr>" by simp
  from non_supporter_never_edits[OF h1 h2] h1 h2 show ?thesis by blast
qed

text \<open>
  C11. In runs where each call resolves before the next event, the edit callback
  never throws, whatever the network does. \<open>findIndex\<close> always finds the edited
  task when the store accepted the update, so the console never shows the callback's
  \<open>TypeError\<close>.
\<close>

theorem edit_callback_never_throws:
  assumes "reachable u fmt ok s"
  shows "ConsoleLog [] (ScriptFailure TypeError) \<notin> set (out s)"
  using reachable_imp_edit_safe[OF assms] by (simp add: edit_safe_def)

theorem edit_callback_never_throws_witness:
  "reachable demo_user demo_fmt (\<lambda>_. True) (demo_start True) \<and>
   ConsoleLog [] (ScriptFailure TypeError) \<notin> set (out (demo_start True))"
proof -
  have h: "reachable demo_user demo_fmt (\<lambda>_. True) (demo_start True)"
    using demo_start_reachable[of True] by (simp add: demo_user_def)
  from edit_callback_never_throws[OF h] h show ?thesis by blast
qed

text \<open>
  C12. A lost reply makes the page and the store diverge, from every state the page
  reaches over a reliable network. The user submits a new task outside edit mode, the
  store adds it, and the reply is lost. The page logs a failure and keeps its state,
  while the store holds a new task of the user under a fresh identifier. The invariant
  \<open>consistent\<close> that every reliable step keeps (C1) is broken.
\<close>

theorem lost_reply_diverges:
  assumes r: "reachable u fmt reliable s" and a: "input (board s) \<noteq> []" "taskEdit (board s) = None"
    "w_net w = ReplyLost"
  shows "board (handleAddTask u fmt w s) = board s \<and>
         abs_sys u (handleAddTask u fmt w s) =
           (abs_sys u s)(auto_id (next_id (db s)) \<mapsto> (input (board s), uid u, uname u)) \<and>
         \<not> consistent u (handleAddTask u fmt w s)"
proof -
  let ?k = "auto_id (next_id (db s))"
  let ?s' = "handleAddTask u fmt w s"
  from r have c: "consistent u s" by (rule reachable_imp_consistent)
  then have fs: "?k \<notin> fst ` set (docs (db s))"
    by (intro store_wf_fresh) (simp add: consistent_def)
  have nd: "w_net w \<noteq> Delivered" using a(3) by simp
  have b: "board ?s' = board s" using a(1,2) nd by (simp add: handleAddTask_add_fail Let_def)
  have abs: "abs_sys u ?s' = (abs_sys u s)(?k \<mapsto> (input (board s), uid u, uname u))"
    using a fs by (simp add: handleAddTask_add_fail abs_sys_def addDoc_def reply_def
        owned_append_fresh doc_view_def Let_def)
  have "keyed tid task_view (taskList (board ?s')) ?k = None"
    using b c abs_sys_fresh[OF c] by (simp add: consistent_def)
  with abs have "\<not> consistent u ?s'" by (auto simp: consistent_def dest: fun_cong[where x = ?k])
  with b abs show ?thesis by blast
qed

theorem lost_reply_diverges_witness:
  "reachable demo_user demo_fmt reliable (onChange ''Walk dog'' (demo_start True)) \<and>
   input (board (onChange ''Walk dog'' (demo_start True))) \<noteq> [] \<and>
   taskEdit (board (onChange ''Walk dog'' (demo_start True))) = None \<and>
   w_net (demo_world\<lparr>w_net := ReplyLost\<rparr>) = ReplyLost \<and>
   \<not> consistent demo_user
       (handleAddTask demo_user demo_fmt (demo_world\<lparr>w_net := ReplyLost\<rparr>) (onChange ''Walk dog'' (demo_start True)))"
proof -
  have r0: "reachable demo_user demo_fmt reliable (demo_start True)"
    using demo_start_reachable[of True] by (simp add: demo_user_def)
  have r1: "reachable demo_user demo_fmt reliable (onChange ''Walk dog'' (demo_start True))"
    by (rule reachable.step[OF r0, of demo_world "Change ''Walk dog''"])
      (simp_all add: reliable_def demo_world_def)
  have h: "input (board (onChange ''Walk dog'' (demo_start True))) \<noteq> []"
    "taskEdit (board (onChange ''Walk dog'' (demo_start True))) = None"
    "w_net (demo_world\<lparr>w_net := ReplyLost\<rparr>) = ReplyLost"
    by (simp_all add: onChange_def demo_start_def board_init_def)
  from lost_reply_diverges[OF r1 h] r1 h show ?thesis by blast
qed

text \<open>
  C13. Deleting the task being edited leaves the page in edit mode with a target that no
  longer exists. Once the store accepts the delete, the edit target is unchanged and its
  document is gone. From then on every submit, whatever the network does, changes neither
  the page's state nor the store (the update fails with not-found, and the failure is
  only logged) until the user cancels.
\<close>

theorem deleted_edit_target_stuck:
  assumes "taskEdit (board s) = Some te" "w_net w = Delivered"
  shows "taskEdit (board (handleDelete w (tid te) s)) = Some te \<and>
         map_of (docs (db (handleDelete w (tid te) s))) (tid te) = None \<and>
         (\<forall>w' s'. dispatch u fmt w' Submit (handleDelete w (tid te) s) = Some s' \<longrightarrow>
            board s' = board (handleDelete w (tid te) s) \<and> db s' = db (handleDelete w (tid te) s))"
proof -
  let ?s1 = "handleDelete w (tid te) s"
  have e: "taskEdit (board ?s1) = Some te" and m: "map_of (docs (db ?s1)) (tid te) = None"
    using assms by (simp_all add: handleDelete_ok delete_conv')
  have "board (handleAddTask u fmt w' ?s1) = board ?s1 \<and> db (handleAddTask u fmt w' ?s1) = db ?s1" for w'
  proof (cases "input (board ?s1) = []")
    case True
    then show ?thesis by (simp add: handleAddTask_empty)
  next
    case False
    with e m handleAddTask_update_fail[OF False e, of w' u fmt] show ?thesis
      by (auto simp: updateDoc_def)
  qed
  with e m show ?thesis by simp
qed

theorem deleted_edit_target_stuck_witness:
  "reachable demo_user demo_fmt (\<lambda>_. True)
     (handleEditTask (taskList (board (demo_start True)) ! 0) (demo_start True)) \<and>
   taskEdit (board (handleEditTask (taskList (board (demo_start True)) ! 0) (demo_start True))) =
     Some (taskList (board (demo_start True)) ! 0) \<and>
   w_net demo_world = Delivered \<and>
   taskEdit (board (handleDelete demo_world (tid (taskList (board (demo_start True)) ! 0))
     (handleEditTask (taskList (board (demo_start True)) ! 0) (demo_start True)))) =
     Some (taskList (board (demo_start True)) ! 0)"
proof -
  let ?t = "taskList (board (demo_start True)) ! 0"
  have t: "length (taskList (board (demo_start True))) = 1"
    by (simp add: demo_start_def board_init_def demo_store_def where_userId_def doc_to_task_def)
  have r0: "reachable demo_user demo_fmt (\<lambda>_. True) (demo_start True)"
    using demo_start_reachable[of True] by (simp add: demo_user_def)
  have r1: "reachable demo_user demo_fmt (\<lambda>_. True) (handleEditTask ?t (demo_start True))"
    by (rule reachable.step[OF r0, of demo_world "ClickEdit 0"]) (simp_all add: t demo_user_def)
  have h: "taskEdit (board (handleEditTask ?t (demo_start True))) = Some ?t"
    "w_net demo_world = Delivered"
    by (simp_all add: handleEditTask_def demo_world_def)
  from deleted_edit_target_stuck[OF h, of demo_user demo_fmt] r1 h show ?thesis by blast
qed

end
