(* ===== verification/Board_Async.thy ===== *)
theory Board_Async
  imports Board_System
begin

text \<open>
  The page with overlapping remote calls. Each handler issues its call and returns; the
  reply arrives later, in any order relative to other replies and to new events, and
  its callback runs with the values of the render in which the handler ran (the
  \<open>snapshot\<close>). The store applies each write when the call is issued (the server
  sees the calls in issue order); only the replies are reordered.

  JavaScript objects are shared by reference: the task objects live in a heap
  (\<open>objs\<close>, an object's address is its index), the \<open>taskList\<close> state is an array
  of addresses, and \<open>taskEdit\<close> is the address of the object that was clicked. The
  update callback's \<open>data[taskIndex].task = input\<close> (line 71) mutates an object in
  the heap, so the change is seen by every array holding that object.
\<close>

type_synonym addr = nat

record snapshot =
  s_list :: "addr list"
  s_input :: string

datatype pending_call =
    PAdd "store_error + doc_id" snapshot
  | PUpdate "store_error + unit" doc_id snapshot
  | PDelete "store_error + unit" doc_id snapshot

record astate =
  objs :: "TaskList list"
  a_input :: string
  a_taskList :: "addr list"
  a_taskEdit :: "addr option"
  a_db :: store
  pending :: "pending_call list"
  a_out :: "effect list"

text \<open>Line 50: \<open>JSON.parse(data)\<close> builds one fresh object per task.\<close>

definition a_init :: "BoardProps \<Rightarrow> store \<Rightarrow> astate" where
  "a_init p st =
     \<lparr>objs = data p, a_input = [], a_taskList = [0..<length (data p)], a_taskEdit = None,
      a_db = st, pending = [], a_out = []\<rparr>"

definition snap :: "astate \<Rightarrow> snapshot" where
  "snap s = \<lparr>s_list = a_taskList s, s_input = a_input s\<rparr>"

section \<open>Issuing calls\<close>

text \<open>\<open>handleAddTask\<close> up to its \<open>await\<close>: the guard, the call, the pending callback.\<close>

definition a_submit :: "UserProps \<Rightarrow> world \<Rightarrow> astate \<Rightarrow> astate" where
  "a_submit u w s =
     (if a_input s = [] then s\<lparr>a_out := a_out s @ [Alert ''Preencha alguma tarefa!'']\<rparr>
      else
        (case a_taskEdit s of
           Some a \<Rightarrow>
             (let k = tid (objs s ! a) in
              case updateDoc (w_net w) k (a_input s) (a_db s) of
                (r, st) \<Rightarrow>
                  s\<lparr>a_db := st, a_out := a_out s @ [CallUpdateDoc k (a_input s)],
                    pending := pending s @ [PUpdate r k (snap s)]\<rparr>)
         | None \<Rightarrow>
             (let d = \<lparr>d_created = clock0 w, d_task = a_input s, d_userId = uid u, d_name = uname u\<rparr>
              in case addDoc (w_net w) d (a_db s) of
                   (r, st) \<Rightarrow>
                     s\<lparr>a_db := st, a_out := a_out s @ [CallAddDoc d],
                       pending := pending s @ [PAdd r (snap s)]\<rparr>)))"

text \<open>\<open>handleDelete\<close> up to its \<open>await\<close>.\<close>

definition a_delete :: "world \<Rightarrow> doc_id \<Rightarrow> astate \<Rightarrow> astate" where
  "a_delete w k s =
     (case deleteDoc (w_net w) k (a_db s) of
        (r, st) \<Rightarrow>
          s\<lparr>a_db := st, a_out := a_out s @ [CallDeleteDoc k],
            pending := pending s @ [PDelete r k (snap s)]\<rparr>)"

section \<open>Replies\<close>

text \<open>
  The callbacks of lines 66--79, 90--104 and 109--117, reading the snapshot and writing
  the current state. In the update callback, \<open>data[taskIndex]\<close> is \<open>undefined\<close>
  when \<open>findIndex\<close> answered \<open>-1\<close>, and setting its \<open>task\<close> throws.
\<close>

definition a_log :: "string \<Rightarrow> failure \<Rightarrow> astate \<Rightarrow> astate" where
  "a_log msg f s = s\<lparr>a_out := a_out s @ [ConsoleLog msg f]\<rparr>"

fun a_callback :: "UserProps \<Rightarrow> formatter \<Rightarrow> world \<Rightarrow> pending_call \<Rightarrow> astate \<Rightarrow> astate" where
  "a_callback u fmt w (PAdd (Inl e) sn) s = a_log ''ERRO AO CADASTRAR: '' (StoreFailure e) s"
| "a_callback u fmt w (PAdd (Inr k) sn) s =
     s\<lparr>objs := objs s @ [\<lparr>tid = k, created = clock1 w, createdFormatted = Some (fmt (clock2 w)),
                         task = s_input sn, userId = uid u, name = uname u\<rparr>],
       a_taskList := s_list sn @ [length (objs s)], a_input := []\<rparr>"
| "a_callback u fmt w (PUpdate (Inl e) k sn) s = a_log [] (StoreFailure e) s"
| "a_callback u fmt w (PUpdate (Inr _) k sn) s =
     (let data = s_list sn; taskIndex = js_findIndex (\<lambda>a. tid (objs s ! a) = k) data
      in if 0 \<le> taskIndex \<and> nat taskIndex < length data
         then (let a = data ! nat taskIndex
               in s\<lparr>objs := (objs s)[a := (objs s ! a)\<lparr>task := s_input sn\<rparr>],
                    a_taskList := data, a_taskEdit := None, a_input := []\<rparr>)
         else a_log [] (ScriptFailure TypeError) s)"
| "a_callback u fmt w (PDelete (Inl e) k sn) s = a_log ''ERRO AO DELETAR: '' (StoreFailure e) s"
| "a_callback u fmt w (PDelete (Inr _) k sn) s =
     s\<lparr>a_taskList := filter (\<lambda>a. tid (objs s ! a) \<noteq> k) (s_list sn)\<rparr>"

section \<open>Events\<close>

datatype aevent = UI event | Reply nat

fun a_dispatch :: "UserProps \<Rightarrow> formatter \<Rightarrow> world \<Rightarrow> aevent \<Rightarrow> astate \<Rightarrow> astate option" where
  "a_dispatch u fmt w (UI Submit) s = Some (a_submit u w s)"
| "a_dispatch u fmt w (UI (Change v)) s = Some (s\<lparr>a_input := v\<rparr>)"
| "a_dispatch u fmt w (UI (ClickEdit i)) s =
     (if vip u \<and> i < length (a_taskList s)
      then Some (s\<lparr>a_taskEdit := Some (a_taskList s ! i), a_input := task (objs s ! (a_taskList s ! i))\<rparr>)
      else None)"
| "a_dispatch u fmt w (UI (ClickDelete i)) s =
     (if i < length (a_taskList s) then Some (a_delete w (tid (objs s ! (a_taskList s ! i))) s) else None)"
| "a_dispatch u fmt w (UI ClickCancel) s =
     (if a_taskEdit s \<noteq> None then Some (s\<lparr>a_taskEdit := None, a_input := []\<rparr>) else None)"
| "a_dispatch u fmt w (Reply j) s =
     (if j < length (pending s)
      then Some (a_callback u fmt w (pending s ! j) (s\<lparr>pending := take j (pending s) @ drop (Suc j) (pending s)\<rparr>))
      else None)"

fun a_run :: "UserProps \<Rightarrow> formatter \<Rightarrow> (world \<times> aevent) list \<Rightarrow> astate \<Rightarrow> astate option" where
  "a_run u fmt [] s = Some s"
| "a_run u fmt ((w, e) # es) s =
     (case a_dispatch u fmt w e s of None \<Rightarrow> None | Some s' \<Rightarrow> a_run u fmt es s')"

text \<open>The page's tasks as the user sees them: the objects the list refers to.\<close>

definition shown :: "astate \<Rightarrow> TaskList list" where
  "shown s = map ((!) (objs s)) (a_taskList s)"

text \<open>
  The sequential page of \<open>Board\<close> is the special case where each reply arrives right
  after its call: \<open>a_sync\<close> runs one user event and then, if it issued a call, that
  call's reply. \<open>to_sys\<close> reads a heap state as a state of the sequential model.
\<close>

definition to_sys :: "astate \<Rightarrow> sys" where
  "to_sys s =
     \<lparr>board = \<lparr>input = a_input s, taskList = shown s,
               taskEdit = map_option ((!) (objs s)) (a_taskEdit s)\<rparr>,
      db = a_db s, out = a_out s\<rparr>"

definition heap_wf :: "astate \<Rightarrow> bool" where
  "heap_wf s \<longleftrightarrow>
     distinct (a_taskList s) \<and> (\<forall>a\<in>set (a_taskList s). a < length (objs s)) \<and>
     (\<forall>a. a_taskEdit s = Some a \<longrightarrow> a < length (objs s))"

definition a_sync :: "UserProps \<Rightarrow> formatter \<Rightarrow> world \<Rightarrow> event \<Rightarrow> astate \<Rightarrow> astate option" where
  "a_sync u fmt w e s =
     (case a_dispatch u fmt w (UI e) s of
        None \<Rightarrow> None
      | Some s1 \<Rightarrow> if pending s1 = [] then Some s1 else a_dispatch u fmt w (Reply 0) s1)"

fun a_sync_run :: "UserProps \<Rightarrow> formatter \<Rightarrow> (world \<times> event) list \<Rightarrow> astate \<Rightarrow> astate option" where
  "a_sync_run u fmt [] s = Some s"
| "a_sync_run u fmt ((w, e) # es) s =
     (case a_sync u fmt w e s of None \<Rightarrow> None | Some s' \<Rightarrow> a_sync_run u fmt es s')"

text \<open>
  Over any interleaving: every address the page or a pending callback holds names an
  object of the heap, and no list holds an address twice.
\<close>

fun call_snap :: "pending_call \<Rightarrow> snapshot" where
  "call_snap (PAdd r sn) = sn"
| "call_snap (PUpdate r k sn) = sn"
| "call_snap (PDelete r k sn) = sn"

definition snap_wf :: "nat \<Rightarrow> snapshot \<Rightarrow> bool" where
  "snap_wf n sn \<longleftrightarrow> distinct (s_list sn) \<and> (\<forall>a\<in>set (s_list sn). a < n)"

definition a_wf :: "astate \<Rightarrow> bool" where
  "a_wf s \<longleftrightarrow> heap_wf s \<and> (\<forall>c\<in>set (pending s). snap_wf (length (objs s)) (call_snap c))"

text \<open>
  What the page may show over any interleaving: an identifier is \<open>known\<close> when the
  store holds it or the page itself asked to delete it. \<open>no_ghost\<close>: every task object
  and every identifier a pending add's reply carries is known.
\<close>

definition known :: "astate \<Rightarrow> doc_id \<Rightarrow> bool" where
  "known s k \<longleftrightarrow> k \<in> fst ` set (docs (a_db s)) \<or> CallDeleteDoc k \<in> set (a_out s)"

definition no_ghost :: "astate \<Rightarrow> bool" where
  "no_ghost s \<longleftrightarrow>
     (\<forall>t\<in>set (objs s). known s (tid t)) \<and>
     (\<forall>c\<in>set (pending s). \<forall>k sn. c = PAdd (Inr k) sn \<longrightarrow> known s k)"

text \<open>A page of two tasks of the same user, with the matching store.\<close>

definition demo_task2 :: TaskList where
  "demo_task2 = \<lparr>tid = ''2'', created = 0, createdFormatted = Some ''01 January 1970'',
     task = ''Call mom'', userId = ''u1'', name = ''Ana''\<rparr>"

definition demo_store2 :: store where
  "demo_store2 =
     \<lparr>docs = [(''1'', \<lparr>d_created = 0, d_task = ''Buy milk'', d_userId = ''u1'', d_name = ''Ana''\<rparr>),
             (''2'', \<lparr>d_created = 0, d_task = ''Call mom'', d_userId = ''u1'', d_name = ''Ana''\<rparr>)],
      next_id = 3\<rparr>"

definition demo_async :: astate where
  "demo_async = a_init \<lparr>user = demo_user, data = [demo_task, demo_task2]\<rparr> demo_store2"

text \<open>The user summary the loader builds from \<open>demo_session\<close> for this page.\<close>

definition demo_loaded_user2 :: UserProps where
  "demo_loaded_user2 = \<lparr>uid = ''u1'', uname = ''Ana'', vip = True, lastDonate = 0\<rparr>"

section \<open>Lemmas: the sequential special case\<close>

lemma pending_Nil_update [simp]: "pending s = [] \<Longrightarrow> s\<lparr>pending := []\<rparr> = s"
  by simp

lemma a_submit_empty:
  "a_input s = [] \<Longrightarrow> a_submit u w s = s\<lparr>a_out := a_out s @ [Alert ''Preencha alguma tarefa!'']\<rparr>"
  by (simp add: a_submit_def)

lemma a_sync_submit_add:
  assumes wf: "heap_wf s" and np: "pending s = []" and ne: "a_input s \<noteq> []"
    and te: "a_taskEdit s = None"
  obtains s' where "a_sync u fmt w Submit s = Some s'" "to_sys s' = handleAddTask u fmt w (to_sys s)"
    "heap_wf s'" "pending s' = []"
proof -
  let ?d = "\<lparr>d_created = clock0 w, d_task = a_input s, d_userId = uid u, d_name = uname u\<rparr>"
  have ne': "input (board (to_sys s)) \<noteq> []" "taskEdit (board (to_sys s)) = None"
    using ne te by (simp_all add: to_sys_def)
  show ?thesis
  proof (cases "w_net w = Delivered")
    case True
    let ?k = "auto_id (next_id (a_db s))"
    let ?t = "\<lparr>tid = ?k, created = clock1 w, createdFormatted = Some (fmt (clock2 w)),
               task = a_input s, userId = uid u, name = uname u\<rparr>"
    let ?s' = "s\<lparr>a_db := (a_db s)\<lparr>docs := docs (a_db s) @ [(?k, ?d)], next_id := Suc (next_id (a_db s))\<rparr>,
                 a_out := a_out s @ [CallAddDoc ?d],
                 objs := objs s @ [?t], a_taskList := a_taskList s @ [length (objs s)], a_input := []\<rparr>"
    have run: "a_sync u fmt w Submit s = Some ?s'"
      using ne te True np by (simp add: a_sync_def a_submit_def addDoc_def reply_def snap_def Let_def)
    have "map ((!) (objs s @ [?t])) (a_taskList s) = shown s"
      using wf by (auto simp: heap_wf_def shown_def nth_append)
    then have "to_sys ?s' = handleAddTask u fmt w (to_sys s)"
      using ne' True te
      by (simp add: handleAddTask_add_ok to_sys_def add_then_def shown_def Let_def)
    moreover have "heap_wf ?s'" using wf te by (auto simp: heap_wf_def)
    moreover have "pending ?s' = []" using np by simp
    ultimately show ?thesis by (rule that[OF run])
  next
    case False
    have run: "a_sync u fmt w Submit s =
        Some (a_log ''ERRO AO CADASTRAR: '' (StoreFailure Unavailable)
          (s\<lparr>a_db := snd (addDoc (w_net w) ?d (a_db s)), a_out := a_out s @ [CallAddDoc ?d]\<rparr>))"
      using ne te False np
      by (cases "w_net w") (simp_all add: a_sync_def a_submit_def addDoc_def reply_def snap_def Let_def)
    have "to_sys (a_log ''ERRO AO CADASTRAR: '' (StoreFailure Unavailable)
          (s\<lparr>a_db := snd (addDoc (w_net w) ?d (a_db s)), a_out := a_out s @ [CallAddDoc ?d]\<rparr>)) =
        handleAddTask u fmt w (to_sys s)"
      using ne' False by (simp add: handleAddTask_add_fail to_sys_def a_log_def shown_def Let_def)
    moreover have "heap_wf (a_log ''ERRO AO CADASTRAR: '' (StoreFailure Unavailable)
          (s\<lparr>a_db := snd (addDoc (w_net w) ?d (a_db s)), a_out := a_out s @ [CallAddDoc ?d]\<rparr>))"
      using wf by (simp add: heap_wf_def a_log_def)
    moreover have "pending (a_log ''ERRO AO CADASTRAR: '' (StoreFailure Unavailable)
          (s\<lparr>a_db := snd (addDoc (w_net w) ?d (a_db s)), a_out := a_out s @ [CallAddDoc ?d]\<rparr>)) = []"
      using np by (simp add: a_log_def)
    ultimately show ?thesis by (rule that[OF run])
  qed
qed

lemma shown_length [simp]: "length (shown s) = length (a_taskList s)"
  by (simp add: shown_def)

text \<open>The update callback on the heap, read through \<open>to_sys\<close>, is \<open>update_then\<close>.\<close>

lemma a_update_callback:
  assumes wf: "heap_wf s" and te: "a_taskEdit s = Some a"
  shows "to_sys (a_callback u fmt w (PUpdate (Inr r) (tid (objs s ! a)) (snap s)) s) =
           (case update_then (objs s ! a) (board (to_sys s)) (board (to_sys s)) of
              Inl e \<Rightarrow> console_log [] (ScriptFailure e) (to_sys s)
            | Inr b' \<Rightarrow> (to_sys s)\<lparr>board := b'\<rparr>) \<and>
         heap_wf (a_callback u fmt w (PUpdate (Inr r) (tid (objs s ! a)) (snap s)) s)"
proof -
  define idx where "idx = js_findIndex (\<lambda>b. tid (objs s ! b) = tid (objs s ! a)) (a_taskList s)"
  have fi: "js_findIndex (\<lambda>item. tid item = tid (objs s ! a)) (shown s) = idx"
    by (simp add: idx_def shown_def js_findIndex_map)
  have d: "distinct (a_taskList s)" and bnd: "\<forall>b\<in>set (a_taskList s). b < length (objs s)"
    using wf by (simp_all add: heap_wf_def)
  show ?thesis
  proof (cases "0 \<le> idx \<and> nat idx < length (a_taskList s)")
    case True
    define j where "j = nat idx"
    have j: "idx = int j" "j < length (a_taskList s)" using True by (simp_all add: j_def)
    have jb: "a_taskList s ! j < length (objs s)" using bnd j(2) by simp
    have "map ((!) ((objs s)[a_taskList s ! j := (objs s ! (a_taskList s ! j))\<lparr>task := a_input s\<rparr>]))
            (a_taskList s) = (shown s)[j := (shown s ! j)\<lparr>task := a_input s\<rparr>]"
      using map_nth_heap_update[OF d j(2) bnd] j(2) by (simp add: shown_def)
    then show ?thesis
      using j jb d bnd fi idx_def
      by (simp add: update_then_def js_modify_at_nat to_sys_def shown_def snap_def heap_wf_def Let_def)
  next
    case False
    then have "js_modify_at (shown s) idx (\<lambda>t. t\<lparr>task := a_input s\<rparr>) = Inl TypeError"
      by (auto simp: js_modify_at_def)
    then show ?thesis
      using False fi wf idx_def
      by (simp add: update_then_def to_sys_def console_log_def a_log_def snap_def heap_wf_def shown_def Let_def)
  qed
qed

lemma a_sync_submit_update:
  assumes wf: "heap_wf s" and np: "pending s = []" and ne: "a_input s \<noteq> []"
    and te: "a_taskEdit s = Some a"
  shows "\<exists>s'. a_sync u fmt w Submit s = Some s' \<and> to_sys s' = handleAddTask u fmt w (to_sys s) \<and>
              heap_wf s' \<and> pending s' = []"
proof -
  let ?k = "tid (objs s ! a)"
  obtain r st where ud: "updateDoc (w_net w) ?k (a_input s) (a_db s) = (r, st)" by fastforce
  define s1 where "s1 = s\<lparr>a_db := st, a_out := a_out s @ [CallUpdateDoc ?k (a_input s)]\<rparr>"
  have run: "a_sync u fmt w Submit s = Some (a_callback u fmt w (PUpdate r ?k (snap s1)) s1)"
    using ne te np ud by (simp add: a_sync_def a_submit_def s1_def snap_def Let_def)
  have wf1: "heap_wf s1" and te1: "a_taskEdit s1 = Some a" and np1: "pending s1 = []"
    using wf te np by (simp_all add: s1_def heap_wf_def)
  have seq: "handleAddTask u fmt w (to_sys s) =
      (case r of Inl e \<Rightarrow> console_log [] (StoreFailure e) (to_sys s1)
       | Inr _ \<Rightarrow> (case update_then (objs s ! a) (board (to_sys s1)) (board (to_sys s1)) of
                    Inl e \<Rightarrow> console_log [] (ScriptFailure e) (to_sys s1)
                  | Inr b' \<Rightarrow> (to_sys s1)\<lparr>board := b'\<rparr>))"
    using ne te ud unfolding s1_def to_sys_def
    by (cases r) (simp_all add: handleAddTask_def shown_def Let_def split: sum.split)
  show ?thesis
  proof (cases r)
    case (Inl e)
    then show ?thesis using run seq wf1 np1
      by (simp add: to_sys_def console_log_def a_log_def shown_def heap_wf_def)
  next
    case (Inr x)
    have o1: "objs s1 = objs s" by (simp add: s1_def)
    note cb = a_update_callback[OF wf1 te1, of u fmt w x, unfolded o1]
    have np': "pending (a_callback u fmt w (PUpdate r ?k (snap s1)) s1) = []"
      using np1 Inr by (simp add: a_log_def Let_def)
    show ?thesis using run seq cb np' Inr by (simp del: a_callback.simps)
  qed
qed

lemma a_sync_delete:
  assumes wf: "heap_wf s" and np: "pending s = []" and i: "i < length (a_taskList s)"
  shows "\<exists>s'. a_sync u fmt w (ClickDelete i) s = Some s' \<and>
              to_sys s' = handleDelete w (tid (shown s ! i)) (to_sys s) \<and> heap_wf s' \<and> pending s' = []"
proof -
  let ?k = "tid (shown s ! i)"
  obtain r st where dd: "deleteDoc (w_net w) ?k (a_db s) = (r, st)" by fastforce
  have k: "tid (objs s ! (a_taskList s ! i)) = ?k" using i by (simp add: shown_def)
  define s1 where "s1 = s\<lparr>a_db := st, a_out := a_out s @ [CallDeleteDoc ?k]\<rparr>"
  have run: "a_sync u fmt w (ClickDelete i) s = Some (a_callback u fmt w (PDelete r ?k (snap s1)) s1)"
    using i np dd k by (simp add: a_sync_def a_delete_def s1_def snap_def)
  have seq: "handleDelete w ?k (to_sys s) =
      (case r of Inl e \<Rightarrow> console_log ''ERRO AO DELETAR: '' (StoreFailure e) (to_sys s1)
       | Inr _ \<Rightarrow> (to_sys s1)\<lparr>board := delete_then ?k (board (to_sys s1)) (board (to_sys s1))\<rparr>)"
    using dd unfolding s1_def
    by (cases r) (simp_all add: handleDelete_def to_sys_def console_log_def shown_def Let_def)
  show ?thesis
  proof (cases r)
    case (Inl e)
    then show ?thesis using run seq wf np
      by (simp add: to_sys_def console_log_def a_log_def shown_def heap_wf_def s1_def)
  next
    case (Inr x)
    then show ?thesis using run seq wf np
      by (auto simp: to_sys_def delete_then_def shown_def heap_wf_def s1_def snap_def filter_map comp_def)
  qed
qed

lemma a_sync_step:
  assumes wf: "heap_wf s" and np: "pending s = []"
  shows "case a_sync u fmt w e s of
           None \<Rightarrow> dispatch u fmt w e (to_sys s) = None
         | Some s' \<Rightarrow> dispatch u fmt w e (to_sys s) = Some (to_sys s') \<and> heap_wf s' \<and> pending s' = []"
proof (cases e)
  case Submit
  show ?thesis
  proof (cases "a_input s = []")
    case True
    then show ?thesis using Submit wf np
      by (simp add: a_sync_def a_submit_def handleAddTask_def to_sys_def heap_wf_def shown_def)
  next
    case ne: False
    show ?thesis
    proof (cases "a_taskEdit s")
      case None
      obtain s' where "a_sync u fmt w Submit s = Some s'" "to_sys s' = handleAddTask u fmt w (to_sys s)"
        "heap_wf s'" "pending s' = []"
        using a_sync_submit_add[OF wf np ne None] by blast
      then show ?thesis using Submit by simp
    next
      case (Some a)
      then show ?thesis using a_sync_submit_update[OF wf np ne Some, of u fmt w] Submit by auto
    qed
  qed
next
  case (Change v)
  then show ?thesis using wf np
    by (simp add: a_sync_def onChange_def to_sys_def heap_wf_def shown_def)
next
  case (ClickEdit i)
  then show ?thesis using wf np
    by (auto simp: a_sync_def handleEditTask_def to_sys_def heap_wf_def shown_def)
next
  case (ClickDelete i)
  show ?thesis
  proof (cases "i < length (a_taskList s)")
    case True
    then show ?thesis using a_sync_delete[OF wf np True, of u fmt w] ClickDelete
      by (auto simp: to_sys_def)
  next
    case False
    then show ?thesis using ClickDelete by (simp add: a_sync_def to_sys_def)
  qed
next
  case ClickCancel
  then show ?thesis using wf np
    by (auto simp: a_sync_def handleCancelEdit_def to_sys_def heap_wf_def shown_def)
qed

lemma a_init_to_sys: "to_sys (a_init p st) = \<lparr>board = board_init p, db = st, out = []\<rparr>"
  by (simp add: a_init_def to_sys_def board_init_def shown_def map_nth)

lemma a_init_wf: "heap_wf (a_init p st)" "pending (a_init p st) = []"
  by (simp_all add: a_init_def heap_wf_def)

lemma a_sync_run_sim:
  "heap_wf s \<Longrightarrow> pending s = [] \<Longrightarrow>
   map_option to_sys (a_sync_run u fmt es s) = run u fmt es (to_sys s)"
proof (induction es arbitrary: s)
  case Nil
  then show ?case by simp
next
  case (Cons we es)
  obtain w e where we: "we = (w, e)" by fastforce
  have st: "case a_sync u fmt w e s of
           None \<Rightarrow> dispatch u fmt w e (to_sys s) = None
         | Some s' \<Rightarrow> dispatch u fmt w e (to_sys s) = Some (to_sys s') \<and> heap_wf s' \<and> pending s' = []"
    by (rule a_sync_step[OF Cons.prems])
  show ?case
  proof (cases "a_sync u fmt w e s")
    case None
    then show ?thesis using st we by simp
  next
    case (Some s')
    then show ?thesis using st we Cons.IH[of s'] by simp
  qed
qed

text \<open>Every identifier on a consistent page is a key of the store.\<close>

lemma consistent_ids_in_store:
  assumes "consistent u s"
  shows "tid ` set (taskList (board s)) \<subseteq> fst ` set (docs (db s))"
proof
  fix k assume "k \<in> tid ` set (taskList (board s))"
  then have "keyed tid task_view (taskList (board s)) k \<noteq> None" by (simp add: keyed_None_iff)
  then have "owned (uid u) (db s) k \<noteq> None" using assms by (auto simp: consistent_def abs_sys_def)
  then obtain d where "map_of (docs (db s)) k = Some d"
    by (auto simp: owned_def split: option.splits)
  from map_of_SomeD[OF this] show "k \<in> fst ` set (docs (db s))" by force
qed

lemma heap_demo_async: "heap_wf demo_async" "pending demo_async = []"
  by (simp_all add: demo_async_def a_init_wf)

lemma store_wf_demo2: "store_wf demo_store2"
proof -
  have "''1'' \<in> issued demo_store2" unfolding issued_def demo_store2_def
    by (rule image_eqI[where x = "1::nat"]) code_simp+
  moreover have "''2'' \<in> issued demo_store2" unfolding issued_def demo_store2_def
    by (rule image_eqI[where x = "2::nat"]) code_simp+
  ultimately show ?thesis by (simp add: store_wf_def demo_store2_def)
qed

lemma consistent_demo_async: "consistent demo_user (to_sys (demo_async\<lparr>a_input := v\<rparr>))"
  using store_wf_demo2
  by (simp add: consistent_def abs_sys_def owned_def to_sys_def shown_def demo_async_def a_init_def
      fun_eq_iff demo_task_def demo_task2_def demo_store2_def demo_user_def task_view_def doc_view_def)

section \<open>Properties of overlapping calls\<close>

text \<open>
  C17. When every reply arrives right after its call, the page with asynchronous
  callbacks and shared task objects behaves exactly as the sequential model: from the
  first render, any sequence of events gives, read through \<open>to_sys\<close>, the state
  \<open>run\<close> gives, and is refused exactly when \<open>run\<close> refuses it.
\<close>

theorem async_refines_sequential:
  "map_option to_sys (a_sync_run u fmt es (a_init p st)) =
     run u fmt es \<lparr>board = board_init p, db = st, out = []\<rparr>"
  using a_sync_run_sim[OF a_init_wf] by (simp add: a_init_to_sys)

text \<open>
  C18. Two deletes in flight bring a deleted task back. The user clicks delete on task
  \<open>i\<close> and then on task \<open>j\<close> before the first reply; both callbacks filter the
  list of the render they were issued from (line 111), so the second reply restores
  task \<open>i\<close> on the page although the store no longer holds it.
\<close>

theorem overlapping_deletes_resurrect:
  assumes wf: "heap_wf s" and np: "pending s = []"
    and ij: "i < length (a_taskList s)" "j < length (a_taskList s)" "i \<noteq> j"
    and d: "distinct (map tid (shown s))" and dl: "w_net w = Delivered"
  shows "\<exists>s'. a_run u fmt [(w, UI (ClickDelete i)), (w, UI (ClickDelete j)), (w, Reply 0), (w, Reply 0)] s
                = Some s' \<and>
              shown s ! i \<in> set (shown s') \<and> map_of (docs (a_db s')) (tid (shown s ! i)) = None"
proof -
  let ?k1 = "tid (shown s ! i)" and ?k2 = "tid (shown s ! j)"
  have k: "tid (objs s ! (a_taskList s ! i)) = ?k1" "tid (objs s ! (a_taskList s ! j)) = ?k2"
    using ij by (simp_all add: shown_def)
  have ne: "?k1 \<noteq> ?k2" using nth_eq_iff_index_eq[OF d, of i j] ij by simp
  let ?s' = "s\<lparr>a_db := (a_db s)\<lparr>docs := AList.delete ?k2 (AList.delete ?k1 (docs (a_db s)))\<rparr>,
               a_out := a_out s @ [CallDeleteDoc ?k1, CallDeleteDoc ?k2],
               a_taskList := filter (\<lambda>a. tid (objs s ! a) \<noteq> ?k2) (a_taskList s)\<rparr>"
  have run: "a_run u fmt [(w, UI (ClickDelete i)), (w, UI (ClickDelete j)), (w, Reply 0), (w, Reply 0)] s
               = Some ?s'"
    using ij k np dl by (simp add: a_delete_def deleteDoc_def reply_def snap_def)
  have "shown ?s' = filter (\<lambda>t. tid t \<noteq> ?k2) (shown s)"
    by (simp add: shown_def filter_map comp_def)
  then have "shown s ! i \<in> set (shown ?s')" using ij ne by simp
  moreover have "map_of (docs (a_db ?s')) ?k1 = None" using ne by (simp add: delete_conv')
  ultimately show ?thesis using run by blast
qed

theorem overlapping_deletes_resurrect_witness:
  "\<exists>s'. a_run demo_user demo_fmt
          [(demo_world, UI (ClickDelete 0)), (demo_world, UI (ClickDelete 1)),
           (demo_world, Reply 0), (demo_world, Reply 0)] demo_async = Some s' \<and>
        demo_task \<in> set (shown s') \<and> map_of (docs (a_db s')) ''1'' = None"
proof -
  have sh: "shown demo_async = [demo_task, demo_task2]"
    by (simp add: demo_async_def a_init_def shown_def)
  have "distinct (map tid (shown demo_async))" unfolding sh by (simp add: demo_task_def demo_task2_def)
  moreover have "w_net demo_world = Delivered" by (simp add: demo_world_def)
  moreover have "0 < length (a_taskList demo_async)" "1 < length (a_taskList demo_async)"
    by (simp_all add: demo_async_def a_init_def)
  ultimately have "distinct (map tid (shown demo_async))" "w_net demo_world = Delivered"
       "0 < length (a_taskList demo_async)" "1 < length (a_taskList demo_async)" by auto
  from overlapping_deletes_resurrect[OF heap_demo_async this(3,4) _ this(1,2), of demo_user demo_fmt]
  show ?thesis by (simp add: sh demo_task_def)
qed

text \<open>
  C19. An add and a delete in flight together lose the added task on the page. The user
  submits a new task and deletes another one before the add's reply. The delete
  callback filters the list of the render it was issued from, which does not yet hold
  the new task, so after both replies the page shows none but tasks it showed before,
  while the store holds the new document.
\<close>

theorem add_lost_by_stale_delete:
  assumes wf: "heap_wf s" and np: "pending s = []" and c: "consistent u (to_sys s)"
    and ne: "a_input s \<noteq> []" and te: "a_taskEdit s = None"
    and i: "i < length (a_taskList s)" and dl: "w_net w = Delivered"
  shows "\<exists>s'. a_run u fmt [(w, UI Submit), (w, UI (ClickDelete i)), (w, Reply 0), (w, Reply 0)] s
                = Some s' \<and>
              set (shown s') \<subseteq> set (shown s) \<and>
              (auto_id (next_id (a_db s)),
               \<lparr>d_created = clock0 w, d_task = a_input s, d_userId = uid u, d_name = uname u\<rparr>)
                 \<in> set (docs (a_db s'))"
proof -
  let ?k = "auto_id (next_id (a_db s))" and ?k1 = "tid (shown s ! i)"
  let ?d = "\<lparr>d_created = clock0 w, d_task = a_input s, d_userId = uid u, d_name = uname u\<rparr>"
  let ?t = "\<lparr>tid = ?k, created = clock1 w, createdFormatted = Some (fmt (clock2 w)),
             task = a_input s, userId = uid u, name = uname u\<rparr>"
  have bnd: "\<forall>a\<in>set (a_taskList s). a < length (objs s)" using wf by (simp add: heap_wf_def)
  have k1: "tid (objs s ! (a_taskList s ! i)) = ?k1" using i by (simp add: shown_def)
  have "?k1 \<in> fst ` set (docs (a_db s))"
    using consistent_ids_in_store[OF c] i by (auto simp: to_sys_def)
  moreover have "?k \<notin> fst ` set (docs (a_db s))"
    using c store_wf_fresh[of "a_db s"] by (simp add: consistent_def to_sys_def)
  ultimately have kk: "?k \<noteq> ?k1" by (metis (no_types))
  let ?s' = "s\<lparr>a_db := (a_db s)\<lparr>docs := AList.delete ?k1 (docs (a_db s) @ [(?k, ?d)]),
                                 next_id := Suc (next_id (a_db s))\<rparr>,
               a_out := a_out s @ [CallAddDoc ?d, CallDeleteDoc ?k1],
               objs := objs s @ [?t],
               a_taskList := filter (\<lambda>a. tid ((objs s @ [?t]) ! a) \<noteq> ?k1) (a_taskList s),
               a_input := []\<rparr>"
  have run: "a_run u fmt [(w, UI Submit), (w, UI (ClickDelete i)), (w, Reply 0), (w, Reply 0)] s
               = Some ?s'"
    using i k1 np dl ne te
    by (simp add: a_submit_def a_delete_def addDoc_def deleteDoc_def reply_def snap_def
        nth_append Let_def)
  have "set (shown ?s') \<subseteq> set (shown s)"
    using bnd by (auto simp: shown_def nth_append)
  moreover have "(?k, ?d) \<in> set (docs (a_db ?s'))" using kk by (simp add: AList.delete_eq)
  ultimately show ?thesis using run by blast
qed

theorem add_lost_by_stale_delete_witness:
  "\<exists>s'. a_run demo_user demo_fmt
          [(demo_world, UI Submit), (demo_world, UI (ClickDelete 0)),
           (demo_world, Reply 0), (demo_world, Reply 0)] (demo_async\<lparr>a_input := ''Walk dog''\<rparr>) = Some s' \<and>
        set (shown s') \<subseteq> {demo_task, demo_task2} \<and>
        (''3'', \<lparr>d_created = 1000, d_task = ''Walk dog'', d_userId = ''u1'', d_name = ''Ana''\<rparr>)
          \<in> set (docs (a_db s'))"
proof -
  let ?s = "demo_async\<lparr>a_input := ''Walk dog''\<rparr>"
  have wf: "heap_wf ?s" "pending ?s = []" using heap_demo_async by (simp_all add: heap_wf_def)
  have h: "a_input ?s \<noteq> []" "a_taskEdit ?s = None" "0 < length (a_taskList ?s)"
      "w_net demo_world = Delivered"
    by (simp_all add: demo_async_def a_init_def demo_world_def)
  have sh: "set (shown ?s) = {demo_task, demo_task2}"
    by (simp add: demo_async_def a_init_def shown_def)
  have k: "auto_id (next_id (a_db ?s)) = ''3''"
    by (simp add: demo_async_def a_init_def demo_store2_def auto_id_def) code_simp
  from add_lost_by_stale_delete[OF wf consistent_demo_async h, of demo_fmt] show ?thesis
    unfolding sh k by (simp add: demo_world_def demo_user_def)
qed

text \<open>
  C20. With calls in flight, the edit callback's \<open>TypeError\<close> is reachable, which the
  sequential page rules out (C11). From any consistent page with no call in flight, a
  non-empty input, not in edit mode, a supporter adds the typed task and deletes any task
  before the replies. The add's reply shows the new task, and the user starts editing it.
  Then the delete's reply replaces the list by the snapshot taken before the add. On
  submit the store updates the new document, but its callback does not find the task in
  the list of the render it ran in: \<open>data[-1].task = input\<close> throws, and the page stays
  in edit mode.
\<close>

theorem stale_edit_throws:
  assumes wf: "heap_wf s" and np: "pending s = []" and c: "consistent u (to_sys s)"
    and ne: "a_input s \<noteq> []" and te: "a_taskEdit s = None"
    and i: "i < length (a_taskList s)" and v: "vip u" and dl: "w_net w = Delivered"
  shows "\<exists>s'. a_run u fmt [(w, UI Submit), (w, UI (ClickDelete i)), (w, Reply 0),
                  (w, UI (ClickEdit (length (a_taskList s)))), (w, Reply 0), (w, UI Submit),
                  (w, Reply 0)] s = Some s' \<and>
              last (a_out s') = ConsoleLog [] (ScriptFailure TypeError) \<and> a_taskEdit s' \<noteq> None"
proof -
  let ?k = "auto_id (next_id (a_db s))" and ?k1 = "tid (shown s ! i)"
  have bnd: "\<forall>a\<in>set (a_taskList s). a < length (objs s)" using wf by (simp add: heap_wf_def)
  have k1: "tid (objs s ! (a_taskList s ! i)) = ?k1" using i by (simp add: shown_def)
  have ids: "tid ` set (shown s) \<subseteq> fst ` set (docs (a_db s))"
    using consistent_ids_in_store[OF c] by (simp add: to_sys_def)
  have fr: "?k \<notin> fst ` set (docs (a_db s))"
    using c store_wf_fresh[of "a_db s"] by (simp add: consistent_def to_sys_def)
  have "?k1 \<in> fst ` set (docs (a_db s))" using ids i by (auto simp: shown_def)
  with fr have kk: "?k \<noteq> ?k1" by metis
  have old: "\<forall>a\<in>set (a_taskList s). tid (objs s ! a) \<noteq> ?k"
  proof
    fix a assume "a \<in> set (a_taskList s)"
    then have "tid (objs s ! a) \<in> fst ` set (docs (a_db s))" using ids by (auto simp: shown_def)
    with fr show "tid (objs s ! a) \<noteq> ?k" by metis
  qed
  have mk: "map_of (docs (a_db s)) ?k = None" using fr by (simp add: map_of_eq_None_iff)
  show ?thesis
    using mk i k1 np dl ne te v kk old bnd
    by (simp add: map_add_def a_submit_def a_delete_def addDoc_def deleteDoc_def updateDoc_def
        reply_def snap_def nth_append Let_def a_log_def delete_conv' js_findIndex_none)
qed

theorem stale_edit_throws_witness:
  "\<exists>s'. a_run demo_user demo_fmt
          [(demo_world, UI Submit), (demo_world, UI (ClickDelete 0)), (demo_world, Reply 0),
           (demo_world, UI (ClickEdit 2)), (demo_world, Reply 0), (demo_world, UI Submit),
           (demo_world, Reply 0)] (demo_async\<lparr>a_input := ''Walk dog''\<rparr>) = Some s' \<and>
        last (a_out s') = ConsoleLog [] (ScriptFailure TypeError) \<and> a_taskEdit s' \<noteq> None"
proof -
  let ?s = "demo_async\<lparr>a_input := ''Walk dog''\<rparr>"
  have wf: "heap_wf ?s" "pending ?s = []" using heap_demo_async by (simp_all add: heap_wf_def)
  have h: "a_input ?s \<noteq> []" "a_taskEdit ?s = None" "0 < length (a_taskList ?s)" "vip demo_user"
      "w_net demo_world = Delivered"
    by (simp_all add: demo_async_def a_init_def demo_user_def demo_world_def)
  have l: "length (a_taskList ?s) = 2" by (simp add: demo_async_def a_init_def)
  from stale_edit_throws[OF wf consistent_demo_async h, of demo_fmt] show ?thesis unfolding l .
qed

section \<open>Lemmas: the heap invariant\<close>

lemma snap_wf_mono: "snap_wf n sn \<Longrightarrow> n \<le> m \<Longrightarrow> snap_wf m sn"
  by (auto simp: snap_wf_def)

lemma snap_wf_snap: "heap_wf s \<Longrightarrow> snap_wf (length (objs s)) (snap s)"
  by (simp add: snap_wf_def heap_wf_def snap_def)

lemma a_wf_issue:
  "a_wf s \<Longrightarrow> a_wf (s\<lparr>a_db := st, a_out := out1, pending := pending s @ [c]\<rparr>) \<longleftrightarrow>
     snap_wf (length (objs s)) (call_snap c)"
  by (auto simp: a_wf_def heap_wf_def)

lemma a_wf_submit: "a_wf s \<Longrightarrow> a_wf (a_submit u w s)"
  using snap_wf_snap[of s]
  by (auto simp: a_submit_def a_wf_def heap_wf_def Let_def split: option.splits prod.splits)

lemma a_wf_delete: "a_wf s \<Longrightarrow> a_wf (a_delete w k s)"
  using snap_wf_snap[of s] by (auto simp: a_delete_def a_wf_def heap_wf_def split: prod.splits)

lemma a_wf_callback:
  assumes "heap_wf s" "\<forall>c\<in>set (pending s). snap_wf (length (objs s)) (call_snap c)"
    "snap_wf (length (objs s)) (call_snap c)"
  shows "a_wf (a_callback u fmt w c s)"
  using assms
proof (induction u fmt w c s rule: a_callback.induct)
  case (2 u fmt w k sn s)
  then show ?case by (simp add: a_wf_def heap_wf_def snap_wf_def) (meson less_SucI less_irrefl)
next
  case (4 u fmt w uu k sn s)
  then show ?case
    by (auto simp: a_wf_def heap_wf_def snap_wf_def Let_def a_log_def)
next
  case (6 u fmt w uu k sn s)
  then show ?case by (auto simp: a_wf_def heap_wf_def snap_wf_def)
qed (simp_all add: a_wf_def heap_wf_def a_log_def)

lemma a_wf_dispatch:
  assumes wf: "a_wf s" and d: "a_dispatch u fmt w e s = Some s'"
  shows "a_wf s'"
proof (cases e)
  case (UI ev)
  show ?thesis
  proof (cases ev)
    case Submit
    then show ?thesis using UI d a_wf_submit[OF wf, of u w] by simp
  next
    case (ClickDelete i)
    then show ?thesis using UI d a_wf_delete[OF wf, of w] by (auto split: if_splits)
  qed (use UI wf d in \<open>auto simp: a_wf_def heap_wf_def split: if_splits\<close>)
next
  case (Reply j)
  let ?s1 = "s\<lparr>pending := take j (pending s) @ drop (Suc j) (pending s)\<rparr>"
  have j: "j < length (pending s)" and s': "s' = a_callback u fmt w (pending s ! j) ?s1"
    using d Reply by (simp_all split: if_splits)
  have "set (pending ?s1) \<subseteq> set (pending s)"
    using set_take_subset[of j "pending s"] set_drop_subset[of "Suc j" "pending s"] by auto
  then have "heap_wf ?s1" "\<forall>c\<in>set (pending ?s1). snap_wf (length (objs ?s1)) (call_snap c)"
      "snap_wf (length (objs ?s1)) (call_snap (pending s ! j))"
    using wf j by (auto simp: a_wf_def heap_wf_def)
  from a_wf_callback[OF this] s' show ?thesis by simp
qed

lemma a_wf_run: "a_wf s \<Longrightarrow> a_run u fmt es s = Some s' \<Longrightarrow> a_wf s'"
proof (induction es arbitrary: s)
  case Nil
  then show ?case by simp
next
  case (Cons we es)
  obtain w e where we: "we = (w, e)" by fastforce
  from Cons.prems we obtain s1 where "a_dispatch u fmt w e s = Some s1" "a_run u fmt es s1 = Some s'"
    by (auto split: option.splits)
  with Cons.IH[of s1] a_wf_dispatch[OF Cons.prems(1)] show ?case by blast
qed

text \<open>
  C21. The outcome depends on the order of the replies. From any consistent page with
  no call in flight, a supporter deletes task \<open>j\<close> and, before its reply, edits another
  task \<open>i\<close> to a non-empty text. Both calls reach the store, so whichever reply comes
  first the store ends the same, without task \<open>j\<close>. If the update's reply comes first,
  the page ends without task \<open>j\<close>: the delete callback filters a list whose task
  \<open>i\<close> object was already changed in place (line 71). If the delete's reply comes
  first, the update callback restores its own snapshot of the list, and task \<open>j\<close>
  comes back on the page.
\<close>

theorem reply_order_matters:
  assumes wf: "heap_wf s" and np: "pending s = []" and c: "consistent u (to_sys s)"
    and ij: "i < length (a_taskList s)" "j < length (a_taskList s)" "i \<noteq> j"
    and v: "vip u" "x \<noteq> []" and dl: "w_net w = Delivered"
  shows "\<exists>s1 s2.
           a_run u fmt [(w, UI (ClickDelete j)), (w, UI (ClickEdit i)), (w, UI (Change x)), (w, UI Submit),
                        (w, Reply 1), (w, Reply 0)] s = Some s1 \<and>
           a_run u fmt [(w, UI (ClickDelete j)), (w, UI (ClickEdit i)), (w, UI (Change x)), (w, UI Submit),
                        (w, Reply 0), (w, Reply 0)] s = Some s2 \<and>
           a_db s1 = a_db s2 \<and> map_of (docs (a_db s1)) (tid (shown s ! j)) = None \<and>
           tid (shown s ! j) \<notin> tid ` set (shown s1) \<and> shown s ! j \<in> set (shown s2)"
proof -
  let ?ai = "a_taskList s ! i" and ?aj = "a_taskList s ! j"
  let ?ki = "tid (shown s ! i)" and ?kj = "tid (shown s ! j)"
  have dt: "distinct (map tid (shown s))" using c by (simp add: consistent_def to_sys_def)
  have dl2: "distinct (a_taskList s)" using wf by (simp add: heap_wf_def)
  have aij: "?ai \<noteq> ?aj" using ij dl2 by (simp add: nth_eq_iff_index_eq)
  have ki: "tid (objs s ! ?ai) = ?ki" "tid (objs s ! ?aj) = ?kj" using ij by (simp_all add: shown_def)
  have kij: "?ki \<noteq> ?kj" using nth_eq_iff_index_eq[OF dt, of i j] ij by simp
  have "?ki \<in> fst ` set (docs (a_db s))"
    using consistent_ids_in_store[OF c] ij by (auto simp: to_sys_def)
  then have "map_of (docs (a_db s)) ?ki \<noteq> None" by (simp add: map_of_eq_None_iff)
  then obtain d where md: "map_of (docs (a_db s)) ?ki = Some d" by blast
  have fi: "js_findIndex (\<lambda>a. tid (objs s ! a) = ?ki) (a_taskList s) = int i"
    using js_findIndex_key[of "\<lambda>a. tid (objs s ! a)" "a_taskList s" i] dt ij
    by (simp add: shown_def comp_def)
  let ?o = "(objs s)[?ai := (objs s ! ?ai)\<lparr>task := x\<rparr>]"
  let ?st = "(a_db s)\<lparr>docs := AList.map_entry ?ki (\<lambda>d. d\<lparr>d_task := x\<rparr>) (AList.delete ?kj (docs (a_db s)))\<rparr>"
  let ?out = "a_out s @ [CallDeleteDoc ?kj, CallUpdateDoc ?ki x]"
  have r1: "a_run u fmt [(w, UI (ClickDelete j)), (w, UI (ClickEdit i)), (w, UI (Change x)), (w, UI Submit),
                         (w, Reply 1), (w, Reply 0)] s =
    Some (s\<lparr>objs := ?o, a_taskList := filter (\<lambda>a. tid (?o ! a) \<noteq> ?kj) (a_taskList s),
            a_taskEdit := None, a_input := [], a_db := ?st, a_out := ?out\<rparr>)"
    using ij ki kij md fi np dl v
    by (simp add: a_submit_def a_delete_def deleteDoc_def updateDoc_def reply_def snap_def
        delete_conv' Let_def)
  have r2: "a_run u fmt [(w, UI (ClickDelete j)), (w, UI (ClickEdit i)), (w, UI (Change x)), (w, UI Submit),
                         (w, Reply 0), (w, Reply 0)] s =
    Some (s\<lparr>objs := ?o, a_taskList := a_taskList s,
            a_taskEdit := None, a_input := [], a_db := ?st, a_out := ?out\<rparr>)"
    using ij ki kij md fi np dl v
    by (simp add: a_submit_def a_delete_def deleteDoc_def updateDoc_def reply_def snap_def
        delete_conv' Let_def)
  have "map_of (docs ?st) ?kj = None" by (simp add: map_of_map_entry delete_conv')
  moreover have "?kj \<notin> tid ` set (map ((!) ?o) (filter (\<lambda>a. tid (?o ! a) \<noteq> ?kj) (a_taskList s)))"
    by auto
  moreover have "shown s ! j \<in> set (map ((!) ?o) (a_taskList s))"
  proof -
    have "?o ! ?aj = objs s ! ?aj" using aij by simp
    then show ?thesis using ij by (auto simp: shown_def intro!: image_eqI[where x = ?aj])
  qed
  ultimately show ?thesis using r1 r2 by (simp add: shown_def)
qed

theorem reply_order_matters_witness:
  "\<exists>s1 s2.
     a_run demo_user demo_fmt
       [(demo_world, UI (ClickDelete 1)), (demo_world, UI (ClickEdit 0)),
        (demo_world, UI (Change ''Buy oat milk'')), (demo_world, UI Submit),
        (demo_world, Reply 1), (demo_world, Reply 0)] demo_async = Some s1 \<and>
     a_run demo_user demo_fmt
       [(demo_world, UI (ClickDelete 1)), (demo_world, UI (ClickEdit 0)),
        (demo_world, UI (Change ''Buy oat milk'')), (demo_world, UI Submit),
        (demo_world, Reply 0), (demo_world, Reply 0)] demo_async = Some s2 \<and>
     a_db s1 = a_db s2 \<and> map_of (docs (a_db s1)) ''2'' = None \<and>
     ''2'' \<notin> tid ` set (shown s1) \<and> demo_task2 \<in> set (shown s2)"
proof -
  have e: "demo_async\<lparr>a_input := []\<rparr> = demo_async" by (simp add: demo_async_def a_init_def)
  have c: "consistent demo_user (to_sys demo_async)" using consistent_demo_async[of "[]"] by (simp only: e)
  have h: "0 < length (a_taskList demo_async)" "1 < length (a_taskList demo_async)" "(0::nat) \<noteq> 1"
    "vip demo_user" "''Buy oat milk'' \<noteq> []" "w_net demo_world = Delivered"
    by (simp_all add: demo_async_def a_init_def demo_user_def demo_world_def)
  have sh: "shown demo_async ! 1 = demo_task2" "tid demo_task2 = ''2''"
    by (simp_all add: demo_async_def a_init_def shown_def demo_task2_def)
  from reply_order_matters[OF heap_demo_async c h, of demo_fmt] show ?thesis unfolding sh .
qed

section \<open>Lemmas: replies and the identifiers the page shows\<close>

lemma a_callback_pending [simp]: "pending (a_callback u fmt w c s) = pending s"
  by (induction u fmt w c s rule: a_callback.induct) (simp_all add: a_log_def Let_def)

lemma known_mono:
  "known s k \<Longrightarrow> fst ` set (docs (a_db s)) \<subseteq> fst ` set (docs (a_db s')) \<union> {k. CallDeleteDoc k \<in> set (a_out s')} \<Longrightarrow>
   set (a_out s) \<subseteq> set (a_out s') \<Longrightarrow> known s' k"
  by (auto simp: known_def)

lemma tid_list_update_task:
  "\<forall>t\<in>set xs. P (tid t) \<Longrightarrow> \<forall>t\<in>set (xs[a := (xs ! a)\<lparr>task := v\<rparr>]). P (tid t)"
  by (cases "a < length xs") (auto simp: list_update_beyond not_less dest: set_update_subset_insert[THEN subsetD])

lemma no_ghost_view [simp]:
  "no_ghost (s\<lparr>a_input := v\<rparr>) = no_ghost s" "no_ghost (s\<lparr>a_taskEdit := x\<rparr>) = no_ghost s"
  by (simp_all add: no_ghost_def known_def)

lemma no_ghost_init:
  "set (map tid (data p)) \<subseteq> fst ` set (docs st) \<Longrightarrow> no_ghost (a_init p st)"
  by (auto simp: no_ghost_def known_def a_init_def)

lemma no_ghost_extend:
  assumes "no_ghost s" "\<And>k. known s k \<Longrightarrow> known s' k" "set (objs s') \<subseteq> set (objs s)"
    "\<And>c k sn. c \<in> set (pending s') \<Longrightarrow> c = PAdd (Inr k) sn \<Longrightarrow> c \<in> set (pending s) \<or> known s' k"
  shows "no_ghost s'"
  unfolding no_ghost_def
proof
  show "\<forall>t\<in>set (objs s'). known s' (tid t)" using assms(1-3) by (auto simp: no_ghost_def)
  show "\<forall>c\<in>set (pending s'). \<forall>k sn. c = PAdd (Inr k) sn \<longrightarrow> known s' k"
    using assms(1,2,4) unfolding no_ghost_def by blast
qed

lemma no_ghost_submit: "no_ghost s \<Longrightarrow> no_ghost (a_submit u w s)"
proof -
  assume ng: "no_ghost s"
  show ?thesis
  proof (cases "a_input s = []")
    case True
    then show ?thesis using ng by (auto simp: a_submit_def no_ghost_def known_def)
  next
    case ne: False
    show ?thesis
    proof (cases "a_taskEdit s")
      case (Some a)
      let ?k = "tid (objs s ! a)"
      obtain r st' where u: "updateDoc (w_net w) ?k (a_input s) (a_db s) = (r, st')" by fastforce
      have e: "a_submit u w s = s\<lparr>a_db := st', a_out := a_out s @ [CallUpdateDoc ?k (a_input s)],
                 pending := pending s @ [PUpdate r ?k (snap s)]\<rparr>"
        using ne Some u by (simp add: a_submit_def Let_def)
      have ks: "fst ` set (docs st') = fst ` set (docs (a_db s))" using updateDoc_keys[OF u] .
      show ?thesis unfolding e by (rule no_ghost_extend[OF ng]) (use ks in \<open>auto simp: known_def\<close>)
    next
      case None
      let ?d = "\<lparr>d_created = clock0 w, d_task = a_input s, d_userId = uid u, d_name = uname u\<rparr>"
      obtain r st' where a: "addDoc (w_net w) ?d (a_db s) = (r, st')" by fastforce
      have e: "a_submit u w s = s\<lparr>a_db := st', a_out := a_out s @ [CallAddDoc ?d],
                 pending := pending s @ [PAdd r (snap s)]\<rparr>"
        using ne None a by (simp add: a_submit_def Let_def)
      note k = addDoc_keys[OF a]
      show ?thesis unfolding e by (rule no_ghost_extend[OF ng]) (use k in \<open>auto simp: known_def\<close>)
    qed
  qed
qed

lemma no_ghost_delete: "no_ghost s \<Longrightarrow> no_ghost (a_delete w k s)"
proof -
  assume ng: "no_ghost s"
  obtain r st' where d: "deleteDoc (w_net w) k (a_db s) = (r, st')" by fastforce
  have e: "a_delete w k s = s\<lparr>a_db := st', a_out := a_out s @ [CallDeleteDoc k],
             pending := pending s @ [PDelete r k (snap s)]\<rparr>"
    using d by (simp add: a_delete_def)
  note ks = deleteDoc_keys[OF d]
  show ?thesis unfolding e by (rule no_ghost_extend[OF ng]) (use ks in \<open>auto simp: known_def\<close>)
qed

lemma no_ghost_callback:
  assumes "no_ghost s" "\<forall>k sn. c = PAdd (Inr k) sn \<longrightarrow> known s k"
  shows "no_ghost (a_callback u fmt w c s)"
  using assms
proof (induction u fmt w c s rule: a_callback.induct)
  case (4 u fmt w uu k sn s)
  have "\<forall>t\<in>set ((objs s)[a := (objs s ! a)\<lparr>task := v\<rparr>]). known s (tid t)" for a v
    using "4.prems"(1) by (intro tid_list_update_task) (simp add: no_ghost_def)
  then show ?case using "4.prems"(1)
    by (auto simp: no_ghost_def known_def Let_def a_log_def)
qed (auto simp: no_ghost_def known_def a_log_def)

lemma no_ghost_dispatch:
  assumes ng: "no_ghost s" and d: "a_dispatch u fmt w e s = Some s'"
  shows "no_ghost s'"
proof (cases e)
  case (UI ev)
  show ?thesis
  proof (cases ev)
    case Submit
    then show ?thesis using UI d no_ghost_submit[OF ng, of u w] by simp
  next
    case (ClickDelete i)
    then show ?thesis using UI d no_ghost_delete[OF ng, of w] by (auto split: if_splits)
  qed (use UI ng d in \<open>auto split: if_splits\<close>)
next
  case (Reply j)
  let ?s1 = "s\<lparr>pending := take j (pending s) @ drop (Suc j) (pending s)\<rparr>"
  have j: "j < length (pending s)" and s': "s' = a_callback u fmt w (pending s ! j) ?s1"
    using d Reply by (simp_all split: if_splits)
  have "set (pending ?s1) \<subseteq> set (pending s)"
    using set_take_subset[of j "pending s"] set_drop_subset[of "Suc j" "pending s"] by auto
  moreover have kn: "known ?s1 = known s" by (simp add: known_def fun_eq_iff)
  ultimately have "no_ghost ?s1" using ng unfolding no_ghost_def by auto
  moreover have "\<forall>k sn. pending s ! j = PAdd (Inr k) sn \<longrightarrow> known ?s1 k"
    using ng nth_mem[OF j] unfolding no_ghost_def kn by blast
  ultimately show ?thesis using no_ghost_callback s' by blast
qed

lemma no_ghost_run: "no_ghost s \<Longrightarrow> a_run u fmt es s = Some s' \<Longrightarrow> no_ghost s'"
proof (induction es arbitrary: s)
  case Nil
  then show ?case by simp
next
  case (Cons we es)
  obtain w e where we: "we = (w, e)" by fastforce
  from Cons.prems we obtain s1 where "a_dispatch u fmt w e s = Some s1" "a_run u fmt es s1 = Some s'"
    by (auto split: option.splits)
  with Cons.IH[of s1] no_ghost_dispatch[OF Cons.prems(1)] show ?case by blast
qed

section \<open>No task is invented\<close>

text \<open>
  C28. The divergence between page and store is bounded over every interleaving and
  every network outcome: starting from the loader's props, every task the page shows
  is either in the store or one the page itself asked to delete. Tasks come back on the
  page (C18, C21) only after their own deletion; the page never shows a task that no
  one stored.
\<close>

theorem shown_tasks_known:
  "getServerSideProps fmt n sess st = Props p \<Longrightarrow> a_run u fmt' es (a_init p st) = Some s' \<Longrightarrow>
   \<forall>t\<in>set (shown s'). tid t \<in> fst ` set (docs (a_db s')) \<or> CallDeleteDoc (tid t) \<in> set (a_out s')"
proof -
  assume g: "getServerSideProps fmt n sess st = Props p" and r: "a_run u fmt' es (a_init p st) = Some s'"
  from g obtain i where "data p = map (doc_to_task fmt) (where_userId i st)"
    by (auto simp: getServerSideProps_Props)
  then have "set (map tid (data p)) \<subseteq> fst ` set (docs st)"
    by (auto simp: where_userId_def)
  then have ng: "no_ghost s'" using no_ghost_run[OF no_ghost_init r] by blast
  have "a_wf s'" using a_wf_run[OF _ r] a_init_wf by (simp add: a_wf_def)
  then have "set (shown s') \<subseteq> set (objs s')" by (auto simp: a_wf_def heap_wf_def shown_def)
  then show ?thesis using ng by (auto simp: no_ghost_def known_def)
qed

theorem shown_tasks_known_witness:
  "pred_option (\<lambda>s'. \<forall>t\<in>set (shown s'). tid t \<in> fst ` set (docs (a_db s')) \<or> CallDeleteDoc (tid t) \<in> set (a_out s'))
     (a_run demo_user demo_fmt
        [(demo_world, UI (ClickDelete 0)), (demo_world, UI (ClickDelete 1)),
         (demo_world, Reply 0), (demo_world, Reply 0)] demo_async) \<and>
   a_run demo_user demo_fmt
        [(demo_world, UI (ClickDelete 0)), (demo_world, UI (ClickDelete 1)),
         (demo_world, Reply 0), (demo_world, Reply 0)] demo_async \<noteq> None"
proof -
  let ?es = "[(demo_world, UI (ClickDelete 0)), (demo_world, UI (ClickDelete 1)),
              (demo_world, Reply 0), (demo_world, Reply 0)]"
  let ?p = "\<lparr>user = demo_loaded_user2, data = [demo_task, demo_task2]\<rparr>"
  have g: "getServerSideProps demo_fmt_loader Delivered (Some demo_session) demo_store2 = Props ?p"
    by (simp add: getServerSideProps_def getDocs_def demo_session_def demo_loaded_user2_def where_userId_def
        demo_store2_def doc_to_task_def demo_fmt_loader_def demo_task_def demo_task2_def)
  have a: "demo_async = a_init ?p demo_store2"
    by (simp add: demo_async_def a_init_def)
  have ne: "a_run demo_user demo_fmt ?es demo_async \<noteq> None" by code_simp
  then obtain s' where r: "a_run demo_user demo_fmt ?es demo_async = Some s'" by blast
  show ?thesis using shown_tasks_known[OF g r[unfolded a]] r by simp
qed

end
