(* ===== verification/Calendar.thy ===== *)
theory Calendar
  imports Prelude
begin

text \<open>
  The day arithmetic of ECMA-262's \<open>Date\<close> (section 21.4.1), which JavaScript's
  \<open>Date\<close> getters and \<open>date-fns\<close>' \<open>format\<close> rest on: a time value is a number
  of milliseconds since 1 January 1970 UTC; \<open>Day\<close> is the day it falls in, and
  \<open>DayFromYear y\<close> the day on which year \<open>y\<close> of the proleptic Gregorian calendar
  starts. The main lemma, \<open>DayFromYear_succ\<close>, says that consecutive years start
  \<open>DaysInYear\<close> days apart; the searches of \<open>DateFormat\<close> terminate because of it.
\<close>

section \<open>Days and years (ECMA-262 21.4.1.3--21.4.1.5)\<close>

definition msPerDay :: int where
  "msPerDay = 86400000"

definition Day :: "time \<Rightarrow> int" where
  "Day t = t div msPerDay"

definition DaysInYear :: "int \<Rightarrow> int" where
  "DaysInYear y =
     (if y mod 4 \<noteq> 0 then 365 else if y mod 100 \<noteq> 0 then 366
      else if y mod 400 \<noteq> 0 then 365 else 366)"

definition DayFromYear :: "int \<Rightarrow> int" where
  "DayFromYear y = 365 * (y - 1970) + (y - 1969) div 4 - (y - 1901) div 100 + (y - 1601) div 400"

section \<open>Months and MakeDay (21.4.1.6, 21.4.1.28)\<close>

text \<open>
  \<open>month_start lp m\<close>: the day within the year on which month \<open>m\<close> starts (months
  numbered from 0, as \<open>getMonth\<close> does), in a leap year when \<open>lp\<close>; month 12 is the
  next year's first day. These are the bounds of the standard's \<open>MonthFromTime\<close>
  table.
\<close>

definition month_start :: "bool \<Rightarrow> nat \<Rightarrow> int" where
  "month_start lp m =
     [0, 31, 59, 90, 120, 151, 181, 212, 243, 273, 304, 334, 365] ! m + (if lp \<and> 2 \<le> m then 1 else 0)"

definition InLeapYear :: "int \<Rightarrow> bool" where
  "InLeapYear y \<longleftrightarrow> DaysInYear y = 366"

definition days_in_month :: "bool \<Rightarrow> nat \<Rightarrow> int" where
  "days_in_month lp m = month_start lp (Suc m) - month_start lp m"

text \<open>
  \<open>MakeDay(year, month, date)\<close> on integral arguments: the month may exceed 11 and
  is carried into the year; the day of the month counts from 1.
\<close>

definition MakeDay :: "int \<Rightarrow> int \<Rightarrow> int \<Rightarrow> int" where
  "MakeDay y m dt =
     (let ym = y + m div 12; mn = nat (m mod 12)
      in DayFromYear ym + month_start (InLeapYear ym) mn + dt - 1)"

section \<open>Lemmas: consecutive years\<close>

lemma div_succ_int:
  assumes n: "0 < (n::int)"
  shows "(a + 1) div n = a div n + (if (a + 1) mod n = 0 then 1 else 0)"
proof -
  define q r where "q = a div n" and "r = a mod n"
  have a: "a + 1 = (r + 1) + q * n" by (simp add: q_def r_def)
  have r: "0 \<le> r" "r < n" using n by (simp_all add: r_def)
  show ?thesis
  proof (cases "r + 1 < n")
    case True
    then have "(a + 1) div n = q" "(a + 1) mod n = r + 1" unfolding a using r n by simp_all
    then show ?thesis using r by (simp add: q_def)
  next
    case False
    then have "a + 1 = (q + 1) * n" using a r by (simp add: algebra_simps)
    then have "(a + 1) div n = q + 1" "(a + 1) mod n = 0" using n by simp_all
    then show ?thesis by (simp add: q_def)
  qed
qed

lemma mod_sub_mult: "((y::int) - k * n) mod n = y mod n"
  by (metis diff_conv_add_uminus mod_mult_self1 mult_minus_left)

lemma div_succ_shift:
  assumes "0 < (n::int)"
  shows "(y + 1 - (k * n + 1)) div n = (y - (k * n + 1)) div n + (if y mod n = 0 then 1 else 0)"
proof -
  have "y + 1 - (k * n + 1) = (y - (k * n + 1)) + 1" by simp
  moreover have "(y + 1 - (k * n + 1)) mod n = y mod n" using mod_sub_mult[of y k n] by simp
  ultimately show ?thesis using div_succ_int[OF assms, of "y - (k * n + 1)"] by simp
qed

lemma DayFromYear_succ: "DayFromYear (y + 1) = DayFromYear y + DaysInYear y"
proof -
  have h4: "(4::int) dvd 100" and h100: "(100::int) dvd 400" by simp_all
  have m: "y mod 100 = 0 \<Longrightarrow> y mod 4 = 0" "y mod 400 = 0 \<Longrightarrow> y mod 100 = 0"
    using dvd_trans[OF h4, of y] dvd_trans[OF h100, of y] by (simp_all add: mod_eq_0_iff_dvd)
  have e1: "(y + 1 - 1969) div 4 = (y - 1969) div 4 + (if y mod 4 = 0 then 1 else 0)"
    using div_succ_shift[of 4 y 492] by simp
  have e2: "(y + 1 - 1901) div 100 = (y - 1901) div 100 + (if y mod 100 = 0 then 1 else 0)"
    using div_succ_shift[of 100 y 19] by simp
  have e3: "(y + 1 - 1601) div 400 = (y - 1601) div 400 + (if y mod 400 = 0 then 1 else 0)"
    using div_succ_shift[of 400 y 4] by simp
  have "DayFromYear (y + 1) =
      DayFromYear y + 365 + (if y mod 4 = 0 then 1 else 0) - (if y mod 100 = 0 then 1 else 0)
        + (if y mod 400 = 0 then 1 else 0)"
    unfolding DayFromYear_def e1 e2 e3 by simp
  also have "\<dots> = DayFromYear y + DaysInYear y"
    using m by (simp add: DaysInYear_def)
  finally show ?thesis .
qed

lemma DaysInYear_range: "365 \<le> DaysInYear y" "DaysInYear y \<le> 366"
  by (simp_all add: DaysInYear_def)

lemma DayFromYear_less_succ: "DayFromYear y < DayFromYear (y + 1)"
  using DaysInYear_range(1)[of y] by (simp add: DayFromYear_succ)

lemma DayFromYear_1970 [simp]: "DayFromYear 1970 = 0"
  by (simp add: DayFromYear_def)

lemma DayFromYear_strict_mono: "y < y' \<Longrightarrow> DayFromYear y < DayFromYear y'"
proof -
  have "DayFromYear y < DayFromYear (y + 1 + int n)" for n
  proof (induction n)
    case 0
    then show ?case using DayFromYear_less_succ[of y] by simp
  next
    case (Suc n)
    then show ?case using DayFromYear_less_succ[of "y + 1 + int n"] by (simp add: add.assoc)
  qed
  moreover assume "y < y'"
  then have "y' = y + 1 + int (nat (y' - y - 1))" by simp
  ultimately show ?thesis by metis
qed

lemma DayFromYear_mono_iff: "DayFromYear y \<le> DayFromYear y' \<longleftrightarrow> y \<le> y'"
  by (metis DayFromYear_strict_mono le_less not_less)

section \<open>Lemmas: months\<close>

lemma less_12_cases: "m < 12 \<Longrightarrow> m \<in> {0, 1, 2, 3, 4, 5, 6, 7, 8, 9, 10, 11 :: nat}"
  by (simp add: less_Suc_eq numeral_eq_Suc)

lemma month_start_0 [simp]: "month_start lp 0 = 0"
  by (simp add: month_start_def)

lemma month_start_12: "month_start lp 12 = (if lp then 366 else 365)"
  by (simp add: month_start_def)

lemma days_in_month_range: "m < 12 \<Longrightarrow> 28 \<le> days_in_month lp m \<and> days_in_month lp m \<le> 31"
  by (drule less_12_cases) (auto simp: days_in_month_def month_start_def)

lemma month_start_strict_mono: "m < m' \<Longrightarrow> m' \<le> 12 \<Longrightarrow> month_start lp m < month_start lp m'"
proof (induction m' arbitrary: m)
  case 0
  then show ?case by simp
next
  case (Suc m')
  have step: "month_start lp m' < month_start lp (Suc m')"
    using days_in_month_range[of m' lp] Suc.prems by (simp add: days_in_month_def)
  show ?case
  proof (cases "m = m'")
    case True
    then show ?thesis using step by simp
  next
    case False
    then have "m < m'" using Suc.prems by simp
    with Suc.IH[of m] Suc.prems step show ?thesis by simp
  qed
qed

lemma month_start_le_iff: "m \<le> 12 \<Longrightarrow> m' \<le> 12 \<Longrightarrow> month_start lp m \<le> month_start lp m' \<longleftrightarrow> m \<le> m'"
  using month_start_strict_mono[of m m' lp] month_start_strict_mono[of m' m lp]
  by (cases "m \<le> m'") (auto simp: le_less)

end
