(* ===== verification/DateFormat.thy ===== *)
theory DateFormat
  imports Calendar
begin

text \<open>
  The date string the page shows for each task: \<open>format(date, 'dd MMMM yyyy')\<close> of
  \<open>date-fns\<close> (lines 94 and 231 of \<open>src/src/pages/board/index.tsx\<close>). \<open>format\<close>
  reads the day of the month, the month and the year of the date in local time, and
  these are the \<open>Date\<close> algorithms of ECMA-262 (section 21.4.1): \<open>Day\<close>,
  \<open>DayFromYear\<close>, \<open>YearFromTime\<close>, \<open>MonthFromTime\<close>, \<open>DateFromTime\<close>,
  \<open>MakeDay\<close>. The definitions keep the standard's names. Neither \<open>date-fns\<close> nor
  the JavaScript engine is part of the sources, so the group is modelled from their
  specifications.

  \<open>YearFromTime\<close> is defined by the standard as the largest year whose first day is
  not after the given day. It is computed here the way engines do, by a search upwards
  from an estimate (\<open>year_search\<close>, a \<open>function\<close> with a termination measure).
  \<open>MonthFromTime\<close> is the standard's table of month ranges, computed by a search
  over the twelve months.
\<close>

text \<open>
  \<open>YearFromTime\<close> (21.4.1.4): the search goes up from \<open>y\<close> while the next year has
  started by day \<open>d\<close>. Each step passes at least 365 days, so the distance from the
  year's first day to \<open>d\<close> shrinks.
\<close>

function year_search :: "int \<Rightarrow> int \<Rightarrow> int" where
  "year_search d y = (if DayFromYear (y + 1) \<le> d then year_search d (y + 1) else y)"
  by pat_completeness auto
termination
proof (relation "measure (\<lambda>(d, y). nat (d - DayFromYear y))")
  fix d y :: int
  assume "DayFromYear (y + 1) \<le> d"
  with DayFromYear_less_succ[of y] show "((d, y + 1), d, y) \<in> measure (\<lambda>(d, y). nat (d - DayFromYear y))"
    by simp
qed simp

declare year_search.simps [simp del]

text \<open>The estimate to start from: every year has 365 or 366 days.\<close>

definition year_start :: "int \<Rightarrow> int" where
  "year_start d = 1970 + (if 0 \<le> d then d div 366 else d div 365)"

definition YearFromDay :: "int \<Rightarrow> int" where
  "YearFromDay d = year_search d (year_start d)"

definition YearFromTime :: "time \<Rightarrow> int" where
  "YearFromTime t = YearFromDay (Day t)"

definition DayWithinYear :: "int \<Rightarrow> int" where
  "DayWithinYear d = d - DayFromYear (YearFromDay d)"

section \<open>Months and days of the month (21.4.1.6--21.4.1.7)\<close>

text \<open>
  \<open>MonthFromTime\<close>: the month \<open>m\<close> with \<open>month_start m \<le> DayWithinYear < month_start
  (m + 1)\<close>, found by going up from January.
\<close>

function month_search :: "bool \<Rightarrow> int \<Rightarrow> nat \<Rightarrow> nat" where
  "month_search lp w m = (if m < 11 \<and> month_start lp (Suc m) \<le> w then month_search lp w (Suc m) else m)"
  by pat_completeness auto
termination
  by (relation "measure (\<lambda>(lp, w, m). 11 - m)") auto

declare month_search.simps [simp del]

definition MonthFromDay :: "int \<Rightarrow> nat" where
  "MonthFromDay d = month_search (InLeapYear (YearFromDay d)) (DayWithinYear d) 0"

definition DateFromDay :: "int \<Rightarrow> int" where
  "DateFromDay d = DayWithinYear d - month_start (InLeapYear (YearFromDay d)) (MonthFromDay d) + 1"

definition MonthFromTime :: "time \<Rightarrow> nat" where
  "MonthFromTime t = MonthFromDay (Day t)"

definition DateFromTime :: "time \<Rightarrow> int" where
  "DateFromTime t = DateFromDay (Day t)"

section \<open>Local time and time values (21.4.1.25, 21.4.1.31)\<close>

text \<open>
  \<open>LocalTime(t) = t + LocalTZA(t, true)\<close>: the offset of the host's time zone at
  \<open>t\<close>, a parameter \<open>tz\<close> of the model (it differs between the server, which formats
  the loaded tasks, and the browser, which formats a new one).
\<close>

definition LocalTime :: "(time \<Rightarrow> int) \<Rightarrow> time \<Rightarrow> time" where
  "LocalTime tz t = t + tz t"

text \<open>\<open>TimeClip\<close>: a time value beyond 8.64e15 ms from the epoch is \<open>NaN\<close>, an invalid date.\<close>

definition valid_time :: "time \<Rightarrow> bool" where
  "valid_time t \<longleftrightarrow> \<bar>t\<bar> \<le> 8640000000000000"

section \<open>date-fns format(date, 'dd MMMM yyyy')\<close>

text \<open>
  \<open>addLeadingZeros(number, targetLength)\<close> of \<open>date-fns\<close>: the sign, then the
  decimal digits of the absolute value padded on the left with zeros.
\<close>

definition pad_start :: "nat \<Rightarrow> string \<Rightarrow> string" where
  "pad_start n s = replicate (n - length s) CHR ''0'' @ s"

definition addLeadingZeros :: "int \<Rightarrow> nat \<Rightarrow> string" where
  "addLeadingZeros x n = (if x < 0 then ''-'' else []) @ pad_start n (dec_digits (nat \<bar>x\<bar>))"

text \<open>The \<open>MMMM\<close> token with no locale given: \<open>en-US\<close>, wide month names.\<close>

definition month_names :: "string list" where
  "month_names = [''January'', ''February'', ''March'', ''April'', ''May'', ''June'', ''July'',
     ''August'', ''September'', ''October'', ''November'', ''December'']"

text \<open>
  The \<open>yyyy\<close> token prints the year of the era: year 0 and before are 1 BC and
  before, printed without a sign (\<open>signedYear > 0 ? signedYear : 1 - signedYear\<close>).
\<close>

definition era_year :: "int \<Rightarrow> int" where
  "era_year y = (if 0 < y then y else 1 - y)"

text \<open>
  \<open>format\<close> throws \<open>RangeError('Invalid time value')\<close> on an invalid date; otherwise
  it reads the local date's fields and writes the pattern's tokens in order.
\<close>

definition format_dMy :: "(time \<Rightarrow> int) \<Rightarrow> time \<Rightarrow> js_error + string" where
  "format_dMy tz t =
     (if \<not> valid_time t then Inl RangeError
      else
        (let lt = LocalTime tz t
         in Inr (addLeadingZeros (DateFromTime lt) 2 @ '' '' @ month_names ! MonthFromTime lt @ '' '' @
                 addLeadingZeros (era_year (YearFromTime lt)) 4)))"

text \<open>
  The formatter the page's components take (\<open>Board\<close>, \<open>Loader\<close>): \<open>format\<close> in the
  host's time zone. The time values the page formats are \<open>new Date()\<close> and Firestore
  timestamps, which are valid, so the \<open>RangeError\<close> branch is not reached there
  (\<open>format_range_error\<close>); it is mapped to the empty string only to make the
  formatter total.
\<close>

definition date_fns_format :: "(time \<Rightarrow> int) \<Rightarrow> formatter" where
  "date_fns_format tz t = (case format_dMy tz t of Inr s \<Rightarrow> s | Inl _ \<Rightarrow> [])"

section \<open>Reading a formatted date back\<close>

text \<open>
  To state that the string determines the date, a reader of the pattern: two fields of
  digits around a month name, separated by single spaces.
\<close>

definition digits_value :: "string \<Rightarrow> int option" where
  "digits_value s = (if s \<noteq> [] \<and> list_all is_digit s then Some (int (undec s)) else None)"

definition month_of_name :: "string \<Rightarrow> nat option" where
  "month_of_name b = find (\<lambda>i. month_names ! i = b) [0..<12]"

definition parse_dMy :: "string \<Rightarrow> (int \<times> nat \<times> int) option" where
  "parse_dMy s =
     (let a = takeWhile (\<lambda>c. c \<noteq> CHR '' '') s; r = drop (Suc (length a)) s;
          b = takeWhile (\<lambda>c. c \<noteq> CHR '' '') r; c = drop (Suc (length b)) r
      in case (digits_value a, month_of_name b, digits_value c) of
           (Some x, Some m, Some z) \<Rightarrow> Some (x, m, z)
         | _ \<Rightarrow> None)"

section \<open>Lemmas: the year search\<close>

lemma DayFromYear_after_1970: "DayFromYear (1970 + int n) \<le> 366 * int n"
proof (induction n)
  case (Suc n)
  then show ?case
    using DayFromYear_succ[of "1970 + int n"] DaysInYear_range(2)[of "1970 + int n"] by (simp add: add.assoc)
qed simp

lemma DayFromYear_before_1970: "DayFromYear (1970 - int n) \<le> - 365 * int n"
proof (induction n)
  case (Suc n)
  have "DayFromYear (1970 - int n) = DayFromYear (1970 - int (Suc n)) + DaysInYear (1970 - int (Suc n))"
    using DayFromYear_succ[of "1970 - int (Suc n)"] by simp
  then show ?case using Suc DaysInYear_range(1)[of "1970 - int (Suc n)"] by simp
qed simp

lemma year_start_le: "DayFromYear (year_start d) \<le> d"
proof (cases "0 \<le> d")
  case True
  define k where "k = d div 366"
  have k: "0 \<le> k" "366 * k \<le> d"
    using True pos_mod_sign[of 366 d] minus_mod_eq_mult_div[of d 366] by (simp_all add: k_def)
  have "DayFromYear (1970 + int (nat k)) \<le> 366 * int (nat k)" by (rule DayFromYear_after_1970)
  with k True show ?thesis by (simp add: year_start_def k_def[symmetric])
next
  case False
  define k where "k = d div 365"
  have k: "k < 0" "365 * k \<le> d"
    using False pos_mod_sign[of 365 d] minus_mod_eq_mult_div[of d 365] by (simp_all add: k_def)
  have "DayFromYear (1970 - int (nat (- k))) \<le> - 365 * int (nat (- k))" by (rule DayFromYear_before_1970)
  with k False show ?thesis by (simp add: year_start_def k_def[symmetric])
qed

lemma year_search_spec:
  "DayFromYear y \<le> d \<Longrightarrow>
   DayFromYear (year_search d y) \<le> d \<and> d < DayFromYear (year_search d y + 1)"
proof (induction d y rule: year_search.induct)
  case (1 d y)
  then show ?case
    by (cases "DayFromYear (y + 1) \<le> d") (simp_all add: year_search.simps[of d y])
qed

lemma YearFromDay_spec: "DayFromYear (YearFromDay d) \<le> d \<and> d < DayFromYear (YearFromDay d + 1)"
  unfolding YearFromDay_def by (rule year_search_spec[OF year_start_le])

lemma YearFromDay_unique:
  assumes "DayFromYear y \<le> d" "d < DayFromYear (y + 1)"
  shows "YearFromDay d = y"
proof -
  have "DayFromYear (YearFromDay d) < DayFromYear (y + 1)" "DayFromYear y < DayFromYear (YearFromDay d + 1)"
    using assms YearFromDay_spec[of d] by linarith+
  then have "YearFromDay d < y + 1" "y < YearFromDay d + 1"
    using DayFromYear_strict_mono not_less_iff_gr_or_eq by (metis less_asym)+
  then show ?thesis by simp
qed

lemma mult_le_iff_le_div: "0 < (k::int) \<Longrightarrow> k * a \<le> t \<longleftrightarrow> a \<le> t div k"
proof
  assume "0 < k" "k * a \<le> t"
  then show "a \<le> t div k" using zdiv_mono1[of "k * a" t k] by simp
next
  assume k: "0 < k" and "a \<le> t div k"
  then have "k * a \<le> k * (t div k)" by simp
  also have "\<dots> \<le> t" using k minus_mod_eq_mult_div[of t k] pos_mod_sign[of k t] by linarith
  finally show "k * a \<le> t" .
qed

lemma YearFromDay_greatest: "YearFromDay d = (GREATEST y. DayFromYear y \<le> d)"
proof (rule Greatest_equality[symmetric])
  show "DayFromYear (YearFromDay d) \<le> d" using YearFromDay_spec by blast
next
  fix y assume "DayFromYear y \<le> d"
  with YearFromDay_spec[of d] have "DayFromYear y < DayFromYear (YearFromDay d + 1)" by linarith
  then have "\<not> YearFromDay d + 1 \<le> y" using DayFromYear_mono_iff[of "YearFromDay d + 1" y] by simp
  then show "y \<le> YearFromDay d" by simp
qed

section \<open>Lemmas: months\<close>

lemma month_start_12_InLeapYear: "month_start (InLeapYear y) 12 = DaysInYear y"
  using DaysInYear_range[of y] by (auto simp: month_start_12 InLeapYear_def)

lemma DayWithinYear_range:
  "0 \<le> DayWithinYear d \<and> DayWithinYear d < month_start (InLeapYear (YearFromDay d)) 12"
  using YearFromDay_spec[of d] DayFromYear_succ[of "YearFromDay d"]
  by (simp add: DayWithinYear_def month_start_12_InLeapYear)

lemma month_search_spec:
  "month_start lp m \<le> w \<Longrightarrow> m \<le> 11 \<Longrightarrow> w < month_start lp 12 \<Longrightarrow>
   month_search lp w m < 12 \<and> month_start lp (month_search lp w m) \<le> w \<and>
   w < month_start lp (Suc (month_search lp w m))"
proof (induction lp w m rule: month_search.induct)
  case (1 lp w m)
  show ?case
  proof (cases "m < 11 \<and> month_start lp (Suc m) \<le> w")
    case True
    then show ?thesis using 1 by (simp add: month_search.simps[of lp w m])
  next
    case False
    then have "w < month_start lp (Suc m)" using 1 by (cases "m = 11") auto
    with False 1 show ?thesis by (simp add: month_search.simps[of lp w m])
  qed
qed

lemma month_search_unique:
  assumes "m < 12" "month_start lp m \<le> w" "w < month_start lp (Suc m)"
  shows "month_search lp w 0 = m"
proof -
  have w12: "w < month_start lp 12"
    using assms month_start_le_iff[of "Suc m" 12 lp] by simp
  have w0: "0 \<le> w" using assms month_start_le_iff[of 0 m lp] by simp
  let ?r = "month_search lp w 0"
  have r: "?r < 12" "month_start lp ?r \<le> w" "w < month_start lp (Suc ?r)"
    using month_search_spec[of lp 0 w] w0 w12 by simp_all
  have "\<not> Suc m \<le> ?r" using assms r month_start_le_iff[of "Suc m" ?r lp] by simp
  moreover have "\<not> Suc ?r \<le> m" using assms r month_start_le_iff[of "Suc ?r" m lp] by simp
  ultimately show ?thesis by simp
qed

lemma MonthFromDay_spec:
  "MonthFromDay d < 12 \<and>
   month_start (InLeapYear (YearFromDay d)) (MonthFromDay d) \<le> DayWithinYear d \<and>
   DayWithinYear d < month_start (InLeapYear (YearFromDay d)) (Suc (MonthFromDay d))"
  unfolding MonthFromDay_def using DayWithinYear_range[of d]
  by (intro month_search_spec) simp_all

lemma MakeDay_month_lt_12:
  "m < 12 \<Longrightarrow> MakeDay y (int m) dt = DayFromYear y + month_start (InLeapYear y) m + dt - 1"
  by (simp add: MakeDay_def)

section \<open>Lemmas: the fields of a date\<close>

lemma day_roundtrip: "MakeDay (YearFromDay d) (int (MonthFromDay d)) (DateFromDay d) = d"
  using MonthFromDay_spec[of d] by (simp add: MakeDay_month_lt_12 DateFromDay_def DayWithinYear_def)

lemma civil_of_MakeDay:
  assumes m: "m < 12" and dt: "1 \<le> dt" "dt \<le> days_in_month (InLeapYear y) m"
  shows "YearFromDay (MakeDay y (int m) dt) = y \<and> MonthFromDay (MakeDay y (int m) dt) = m \<and>
         DateFromDay (MakeDay y (int m) dt) = dt"
proof -
  let ?lp = "InLeapYear y" and ?D = "MakeDay y (int m) dt"
  have D: "?D = DayFromYear y + month_start ?lp m + dt - 1" using m by (rule MakeDay_month_lt_12)
  have ms: "0 \<le> month_start ?lp m" "month_start ?lp (Suc m) \<le> month_start ?lp 12"
    using m month_start_le_iff[of 0 m ?lp] month_start_le_iff[of "Suc m" 12 ?lp] by simp_all
  have "DayFromYear y \<le> ?D" "?D < DayFromYear (y + 1)"
    using D ms dt DayFromYear_succ[of y] month_start_12_InLeapYear[of y]
    by (simp_all add: days_in_month_def)
  then have Y: "YearFromDay ?D = y" by (rule YearFromDay_unique)
  then have W: "DayWithinYear ?D = month_start ?lp m + dt - 1" using D by (simp add: DayWithinYear_def)
  have M: "MonthFromDay ?D = m"
    unfolding MonthFromDay_def Y W using m dt
    by (intro month_search_unique) (simp_all add: days_in_month_def)
  show ?thesis using Y W M by (simp add: DateFromDay_def)
qed

section \<open>Lemmas: digits and the format string\<close>

lemma pad_start_digits:
  "list_all is_digit (pad_start n (dec_digits k)) \<and> pad_start n (dec_digits k) \<noteq> [] \<and>
   undec (pad_start n (dec_digits k)) = k"
  using dec_digits_is_digit[of k]
  by (auto simp: pad_start_def undec_zeros undec_dec_digits is_digit_def list_all_iff)

lemma no_space_digits: "list_all is_digit s \<Longrightarrow> CHR '' '' \<notin> set s"
  by (auto simp: list_all_iff is_digit_def)

lemma takeWhile_field:
  "CHR '' '' \<notin> set a \<Longrightarrow>
   takeWhile (\<lambda>c. c \<noteq> CHR '' '') (a @ CHR '' '' # r) = a \<and>
   drop (Suc (length a)) (a @ CHR '' '' # r) = r"
  by (induction a) auto

lemma month_names_fields:
  "m < 12 \<Longrightarrow> CHR '' '' \<notin> set (month_names ! m) \<and> month_of_name (month_names ! m) = Some m"
  by (drule less_12_cases) (auto simp: month_names_def month_of_name_def upt_rec)

lemma addLeadingZeros_nonneg: "0 \<le> x \<Longrightarrow> addLeadingZeros x n = pad_start n (dec_digits (nat x))"
  by (simp add: addLeadingZeros_def)

lemma format_dMy_valid:
  "valid_time t \<Longrightarrow>
   format_dMy tz t =
     Inr (pad_start 2 (dec_digits (nat (DateFromTime (LocalTime tz t)))) @ '' '' @
          month_names ! MonthFromTime (LocalTime tz t) @ '' '' @
          pad_start 4 (dec_digits (nat (era_year (YearFromTime (LocalTime tz t))))))"
proof -
  have "1 \<le> DateFromTime (LocalTime tz t)" "0 < era_year (YearFromTime (LocalTime tz t))"
    using MonthFromDay_spec[of "Day (LocalTime tz t)"]
    by (simp_all add: DateFromTime_def DateFromDay_def MonthFromTime_def era_year_def)
  moreover assume "valid_time t"
  ultimately show ?thesis by (simp add: format_dMy_def addLeadingZeros_nonneg Let_def)
qed

lemma YearFromTime_greatest: "YearFromTime t = (GREATEST y. msPerDay * DayFromYear y \<le> t)"
proof -
  have "(\<lambda>y. msPerDay * DayFromYear y \<le> t) = (\<lambda>y. DayFromYear y \<le> Day t)"
    by (simp add: fun_eq_iff Day_def mult_le_iff_le_div msPerDay_def)
  then show ?thesis by (simp add: YearFromTime_def YearFromDay_greatest)
qed

lemma date_fields_range:
  "MonthFromTime t < 12 \<and> 1 \<le> DateFromTime t \<and>
   DateFromTime t \<le> days_in_month (InLeapYear (YearFromTime t)) (MonthFromTime t)"
  using MonthFromDay_spec[of "Day t"]
  by (simp add: MonthFromTime_def DateFromTime_def YearFromTime_def DateFromDay_def days_in_month_def)

lemma format_valid: "format_dMy tz t = Inr s \<Longrightarrow> valid_time t"
  by (simp add: format_dMy_def split: if_splits)

lemma format_parse:
  assumes "format_dMy tz t = Inr s"
  shows "parse_dMy s = Some (DateFromTime (LocalTime tz t), MonthFromTime (LocalTime tz t),
                              era_year (YearFromTime (LocalTime tz t)))"
proof -
  let ?lt = "LocalTime tz t"
  have v: "valid_time t" using assms by (rule format_valid)
  have pos: "0 \<le> DateFromTime ?lt" "0 \<le> era_year (YearFromTime ?lt)" "MonthFromTime ?lt < 12"
    using date_fields_range[of ?lt] by (simp_all add: era_year_def)
  let ?a = "pad_start 2 (dec_digits (nat (DateFromTime ?lt)))"
  let ?b = "month_names ! MonthFromTime ?lt"
  let ?c = "pad_start 4 (dec_digits (nat (era_year (YearFromTime ?lt))))"
  have s: "s = ?a @ CHR '' '' # ?b @ CHR '' '' # ?c"
    using assms format_dMy_valid[OF v, of tz] by simp
  have a: "CHR '' '' \<notin> set ?a" "digits_value ?a = Some (DateFromTime ?lt)"
    using pad_start_digits[of 2 "nat (DateFromTime ?lt)"] pos(1)
    by (simp_all add: no_space_digits digits_value_def)
  have c: "digits_value ?c = Some (era_year (YearFromTime ?lt))"
    using pad_start_digits[of 4 "nat (era_year (YearFromTime ?lt))"] pos(2)
    by (simp add: digits_value_def)
  show ?thesis
    using s a c month_names_fields[OF pos(3)] takeWhile_field[OF a(1)]
      takeWhile_field[of ?b "?c"]
    by (simp add: parse_dMy_def Let_def)
qed

lemma fields_of_Day:
  "DateFromTime t = DateFromDay (Day t)" "MonthFromTime t = MonthFromDay (Day t)"
  "YearFromTime t = YearFromDay (Day t)"
  by (simp_all add: DateFromTime_def MonthFromTime_def YearFromTime_def)

lemma era_year_inj: "0 < y \<Longrightarrow> 0 < y' \<Longrightarrow> era_year y = era_year y' \<Longrightarrow> y = y'"
  by (simp add: era_year_def)

lemma format_same_day:
  "valid_time t \<Longrightarrow> valid_time t' \<Longrightarrow> Day (LocalTime tz t) = Day (LocalTime tz' t') \<Longrightarrow>
   format_dMy tz t = format_dMy tz' t'"
  by (simp add: format_dMy_def fields_of_Day Let_def)

text \<open>
  The string identifies the local day: for valid dates in years 1 and later, two
  instants print the same string exactly when they fall on the same local day.
\<close>

lemma format_day_iff:
  assumes "valid_time t" "valid_time t'"
    "0 < YearFromTime (LocalTime tz t)" "0 < YearFromTime (LocalTime tz' t')"
  shows "format_dMy tz t = format_dMy tz' t' \<longleftrightarrow> Day (LocalTime tz t) = Day (LocalTime tz' t')"
proof
  assume eq: "format_dMy tz t = format_dMy tz' t'"
  obtain s where s: "format_dMy tz t = Inr s" using assms(1) by (simp add: format_dMy_def Let_def)
  have "parse_dMy s = Some (DateFromTime (LocalTime tz t), MonthFromTime (LocalTime tz t),
                              era_year (YearFromTime (LocalTime tz t)))"
       "parse_dMy s = Some (DateFromTime (LocalTime tz' t'), MonthFromTime (LocalTime tz' t'),
                              era_year (YearFromTime (LocalTime tz' t')))"
    using format_parse[OF s] format_parse[of tz' t' s] s eq by simp_all
  then have "DateFromTime (LocalTime tz t) = DateFromTime (LocalTime tz' t')"
    "MonthFromTime (LocalTime tz t) = MonthFromTime (LocalTime tz' t')"
    "YearFromTime (LocalTime tz t) = YearFromTime (LocalTime tz' t')"
    using era_year_inj[OF assms(3,4)] by simp_all
  then have "DateFromDay (Day (LocalTime tz t)) = DateFromDay (Day (LocalTime tz' t'))"
    "MonthFromDay (Day (LocalTime tz t)) = MonthFromDay (Day (LocalTime tz' t'))"
    "YearFromDay (Day (LocalTime tz t)) = YearFromDay (Day (LocalTime tz' t'))"
    by (simp_all only: fields_of_Day)
  then show "Day (LocalTime tz t) = Day (LocalTime tz' t')"
    by (metis day_roundtrip)
next
  assume "Day (LocalTime tz t) = Day (LocalTime tz' t')"
  with assms(1,2) show "format_dMy tz t = format_dMy tz' t'" by (rule format_same_day)
qed

lemma date_fns_format_day_iff:
  assumes "valid_time t" "valid_time t'"
    "0 < YearFromTime (LocalTime tz t)" "0 < YearFromTime (LocalTime tz' t')"
  shows "date_fns_format tz t = date_fns_format tz' t' \<longleftrightarrow> Day (LocalTime tz t) = Day (LocalTime tz' t')"
proof -
  have "format_dMy tz t = Inr (date_fns_format tz t)" "format_dMy tz' t' = Inr (date_fns_format tz' t')"
    using assms(1,2) by (simp_all add: date_fns_format_def format_dMy_def Let_def)
  then show ?thesis using format_day_iff[OF assms] by simp
qed

section \<open>Properties of the date format\<close>

text \<open>
  C22. The fields of every string \<open>format\<close> returns are in range: the day of the month
  is 1 to the length of that month in the local year (28 to 31 days), the month is one of
  the twelve names, and the printed year is at least 1. The string is the one the page
  shows: the page's formatter \<open>date_fns_format\<close> returns it.
\<close>

theorem format_fields_bounds:
  assumes "format_dMy tz t = Inr s" "parse_dMy s = Some (dd, mm, yy)"
  shows "1 \<le> dd \<and> dd \<le> days_in_month (InLeapYear (YearFromTime (LocalTime tz t))) mm \<and>
         days_in_month (InLeapYear (YearFromTime (LocalTime tz t))) mm \<le> 31 \<and> mm < 12 \<and> 1 \<le> yy \<and>
         date_fns_format tz t = s"
proof -
  have f: "date_fns_format tz t = s" using assms(1) by (simp add: date_fns_format_def)
  have "dd = DateFromTime (LocalTime tz t)" "mm = MonthFromTime (LocalTime tz t)"
    "yy = era_year (YearFromTime (LocalTime tz t))"
    using format_parse[OF assms(1)] assms(2) by simp_all
  then show ?thesis
    using date_fields_range[of "LocalTime tz t"] days_in_month_range[of mm] f
    by (auto simp: era_year_def)
qed

theorem format_fields_bounds_witness:
  "1 \<le> (9::int) \<and> 9 \<le> days_in_month (InLeapYear (YearFromTime 1794182400000)) 10 \<and>
   days_in_month (InLeapYear (YearFromTime 1794182400000)) 10 \<le> 31 \<and> (10::nat) < 12 \<and> 1 \<le> (2026::int)"
proof -
  have "format_dMy (\<lambda>_. 0) 1794182400000 = Inr ''09 November 2026''" by code_simp
  moreover have "parse_dMy ''09 November 2026'' = Some (9, 10, 2026)" by code_simp
  ultimately show ?thesis using format_fields_bounds[of "\<lambda>_. 0" 1794182400000] by (simp add: LocalTime_def)
qed

text \<open>
  C23. The string identifies the local calendar day. For valid dates in years 1 and
  later, two instants print the same string, possibly formatted in different zones,
  exactly when they fall on the same local day, and so do the strings the page's
  formatter \<open>date_fns_format\<close> shows. This rests on the round trip between
  days and calendar dates (\<open>day_roundtrip\<close>; \<open>civil_of_MakeDay\<close> is its converse).
\<close>

theorem format_identifies_day:
  assumes "valid_time t" "valid_time t'"
    "0 < YearFromTime (LocalTime tz t)" "0 < YearFromTime (LocalTime tz' t')"
  shows "(format_dMy tz t = format_dMy tz' t' \<longleftrightarrow> Day (LocalTime tz t) = Day (LocalTime tz' t')) \<and>
         (date_fns_format tz t = date_fns_format tz' t' \<longleftrightarrow> Day (LocalTime tz t) = Day (LocalTime tz' t'))"
  using format_day_iff[OF assms] date_fns_format_day_iff[OF assms] by blast

theorem format_identifies_day_witness:
  "format_dMy (\<lambda>_. 0) 1794182400000 = format_dMy (\<lambda>_. -10800000) 1794193200000"
proof -
  have h: "valid_time 1794182400000" "valid_time 1794193200000"
    "0 < YearFromTime (LocalTime (\<lambda>_. 0) 1794182400000)"
    "0 < YearFromTime (LocalTime (\<lambda>_. -10800000) 1794193200000)"
    "Day (LocalTime (\<lambda>_. 0) 1794182400000) = Day (LocalTime (\<lambda>_. -10800000) 1794193200000)"
    by code_simp+
  from format_identifies_day[OF h(1-4)] h(5) show ?thesis by simp
qed

text \<open>
  \<open>format\<close> fails exactly on invalid dates: it returns a string for every time value
  within 8.64e15 ms of the epoch (every \<open>new Date()\<close> and every Firestore
  timestamp), and throws \<open>RangeError\<close> otherwise.
\<close>

lemma format_range_error:
  "(\<exists>s. format_dMy tz t = Inr s) = valid_time t \<and>
   (format_dMy tz t = Inl e) = (\<not> valid_time t \<and> e = RangeError)"
  by (auto simp: format_dMy_def Let_def)

end
