(* ===== verification/Json.thy ===== *)
theory Json
  imports Prelude
begin

text \<open>
  \<open>JSON.stringify\<close> and \<open>JSON.parse\<close>, through which the loader hands the task
  list to the page: line 228 serializes the list to the \<open>data\<close> prop, line 50 parses
  it back into the initial \<open>taskList\<close> state. JSON values are a datatype in the
  style of \<open>Nano_JSON\<close>. \<open>stringify\<close> follows ECMA-262's \<open>SerializeJSONProperty\<close>
  and \<open>QuoteJSONString\<close> (25.5.2). \<open>JSON_parse\<close> is a recursive-descent reader of
  the JSON grammar (ECMA-404) with a fuel argument. Both are the JavaScript engine's,
  not the repository's, so they are modelled from the standard. The lemmas show that
  the parser's fuel always suffices and that more fuel changes nothing
  (\<open>json_parse_fuel\<close>), that the parser reads back exactly what \<open>stringify\<close> writes
  (\<open>json_roundtrip\<close>), and that text after a value is a \<open>SyntaxError\<close>
  (\<open>json_parse_trailing\<close>). The \<open>Wire\<close> theory applies them to the page's data.

  Two restrictions of the model, neither of which the page's data reaches: numbers are
  integers (the serialized timestamps are integral seconds and nanoseconds), so a
  fraction or an exponent is rejected; characters are Isabelle's 8-bit \<open>char\<close>, so a
  \<open>\u\<close> escape above \<open>00FF\<close> is rejected.
\<close>

datatype json =
    JNull
  | JBool bool
  | JNum int
  | JStr string
  | JArr "json list"
  | JObj "(string \<times> json) list"

section \<open>JSON.stringify\<close>

text \<open>The quotation mark and the backslash.\<close>

definition dq :: char where
  "dq = CHR 0x22"

definition bs :: char where
  "bs = CHR 0x5C"

definition hex_digit :: "nat \<Rightarrow> char" where
  "hex_digit n = (if n < 10 then char_of (48 + n) else char_of (87 + n))"

text \<open>\<open>QuoteJSONString\<close>: the short escapes, \<open>\u00xx\<close> for the other control characters.\<close>

definition json_escape :: "char \<Rightarrow> string" where
  "json_escape c =
     (let n = (of_char c :: nat) in
      if c = dq then [bs, dq] else if c = bs then [bs, bs]
      else if n = 8 then [bs, CHR ''b''] else if n = 9 then [bs, CHR ''t''] else if n = 10 then [bs, CHR ''n'']
      else if n = 12 then [bs, CHR ''f''] else if n = 13 then [bs, CHR ''r'']
      else if n < 32 then [bs, CHR ''u'', CHR ''0'', CHR ''0'', hex_digit (n div 16), hex_digit (n mod 16)]
      else [c])"

definition quote :: "string \<Rightarrow> string" where
  "quote s = dq # concat (map json_escape s) @ [dq]"

text \<open>\<open>Number::toString\<close> on an integer: the sign and the decimal digits.\<close>

definition num_to_string :: "int \<Rightarrow> string" where
  "num_to_string i = (if i < 0 then ''-'' else []) @ dec_digits (nat \<bar>i\<bar>)"

text \<open>The members of an array or an object, separated by commas.\<close>

fun join_comma :: "string list \<Rightarrow> string" where
  "join_comma [] = []"
| "join_comma [x] = x"
| "join_comma (x # xs) = x @ CHR '','' # join_comma xs"

fun stringify :: "json \<Rightarrow> string" where
  "stringify JNull = ''null''"
| "stringify (JBool b) = (if b then ''true'' else ''false'')"
| "stringify (JNum i) = num_to_string i"
| "stringify (JStr s) = quote s"
| "stringify (JArr vs) = CHR ''['' # join_comma (map stringify vs) @ '']''"
| "stringify (JObj kvs) =
     CHR ''{'' # join_comma (map (\<lambda>(k, v). quote k @ CHR '':'' # stringify v) kvs) @ ''}''"

section \<open>JSON.parse\<close>

definition is_ws :: "char \<Rightarrow> bool" where
  "is_ws c \<longleftrightarrow> (let n = (of_char c :: nat) in n = 32 \<or> n = 9 \<or> n = 10 \<or> n = 13)"

definition skip_ws :: "string \<Rightarrow> string" where
  "skip_ws s = dropWhile is_ws s"

definition hex_val :: "char \<Rightarrow> nat option" where
  "hex_val c =
     (let n = (of_char c :: nat) in
      if 48 \<le> n \<and> n \<le> 57 then Some (n - 48) else if 97 \<le> n \<and> n \<le> 102 then Some (n - 87)
      else if 65 \<le> n \<and> n \<le> 70 then Some (n - 55) else None)"

definition hex4 :: "char \<Rightarrow> char \<Rightarrow> char \<Rightarrow> char \<Rightarrow> nat option" where
  "hex4 a b c d =
     (case (hex_val a, hex_val b, hex_val c, hex_val d) of
        (Some w, Some x, Some y, Some z) \<Rightarrow> Some (((w * 16 + x) * 16 + y) * 16 + z)
      | _ \<Rightarrow> None)"

text \<open>The one-letter escapes \<open>\" \\ \/ \b \f \n \r \t\<close>.\<close>

definition short_unescape :: "char \<Rightarrow> char option" where
  "short_unescape e =
     (if e = dq then Some dq else if e = bs then Some bs else if e = CHR ''/'' then Some (CHR ''/'')
      else if e = CHR ''b'' then Some (CHR 0x08) else if e = CHR ''f'' then Some (CHR 0x0C)
      else if e = CHR ''n'' then Some (CHR 0x0A) else if e = CHR ''r'' then Some (CHR 0x0D)
      else if e = CHR ''t'' then Some (CHR 0x09) else None)"

definition cons_fst :: "char \<Rightarrow> (string \<times> string) option \<Rightarrow> (string \<times> string) option" where
  "cons_fst c x = map_option (\<lambda>(cs, r). (c # cs, r)) x"

text \<open>
  The characters of a string literal after its opening quotation mark, up to the
  closing one: a raw control character is a syntax error.
\<close>

fun parse_chars :: "string \<Rightarrow> (string \<times> string) option" where
  "parse_chars [] = None"
| "parse_chars (c # r) =
     (if c = dq then Some ([], r)
      else if c = bs then
        (case r of
           [] \<Rightarrow> None
         | e # r' \<Rightarrow>
             if e = CHR ''u'' then
               (case r' of
                  h1 # h2 # h3 # h4 # r'' \<Rightarrow>
                    (case hex4 h1 h2 h3 h4 of
                       Some k \<Rightarrow> if k < 256 then cons_fst (char_of k) (parse_chars r'') else None
                     | None \<Rightarrow> None)
                | _ \<Rightarrow> None)
             else (case short_unescape e of Some ch \<Rightarrow> cons_fst ch (parse_chars r') | None \<Rightarrow> None))
      else if (of_char c :: nat) < 32 then None
      else cons_fst c (parse_chars r))"

text \<open>\<open>-?(0|[1-9][0-9]*)\<close>; a fraction or an exponent is outside the model.\<close>

definition parse_number :: "string \<Rightarrow> (int \<times> string) option" where
  "parse_number s =
     (let neg = (s \<noteq> [] \<and> hd s = CHR ''-''); s1 = (if neg then tl s else s);
          ds = takeWhile is_digit s1; r = drop (length ds) s1
      in if ds = [] \<or> (hd ds = CHR ''0'' \<and> 2 \<le> length ds) then None
         else if r \<noteq> [] \<and> (hd r = CHR ''.'' \<or> hd r = CHR ''e'' \<or> hd r = CHR ''E'') then None
         else Some (if neg then - int (undec ds) else int (undec ds), r))"

text \<open>
  The result of a reader: a syntax error, fuel run out, or a value and the rest of the
  input. Each reader skips the white space after what it read.
\<close>

datatype 'a pres = Fail | NoFuel | Ok 'a string

fun parse_value :: "nat \<Rightarrow> string \<Rightarrow> json pres"
and parse_elems :: "nat \<Rightarrow> string \<Rightarrow> json list pres"
and parse_members :: "nat \<Rightarrow> string \<Rightarrow> (string \<times> json) list pres" where
  "parse_value 0 s = NoFuel"
| "parse_value (Suc n) s =
     (case skip_ws s of
        [] \<Rightarrow> Fail
      | c # r \<Rightarrow>
          if c = CHR ''['' then
            (let r1 = skip_ws r in
             if r1 \<noteq> [] \<and> hd r1 = CHR '']'' then Ok (JArr []) (skip_ws (tl r1))
             else (case parse_elems n r1 of Ok vs r2 \<Rightarrow> Ok (JArr vs) r2 | Fail \<Rightarrow> Fail | NoFuel \<Rightarrow> NoFuel))
          else if c = CHR ''{'' then
            (let r1 = skip_ws r in
             if r1 \<noteq> [] \<and> hd r1 = CHR ''}'' then Ok (JObj []) (skip_ws (tl r1))
             else (case parse_members n r1 of Ok kvs r2 \<Rightarrow> Ok (JObj kvs) r2 | Fail \<Rightarrow> Fail | NoFuel \<Rightarrow> NoFuel))
          else if c = dq then
            (case parse_chars r of Some (str, r2) \<Rightarrow> Ok (JStr str) (skip_ws r2) | None \<Rightarrow> Fail)
          else if take 4 (c # r) = ''true'' then Ok (JBool True) (skip_ws (drop 3 r))
          else if take 5 (c # r) = ''false'' then Ok (JBool False) (skip_ws (drop 4 r))
          else if take 4 (c # r) = ''null'' then Ok JNull (skip_ws (drop 3 r))
          else (case parse_number (c # r) of Some (i, r2) \<Rightarrow> Ok (JNum i) (skip_ws r2) | None \<Rightarrow> Fail))"
| "parse_elems 0 s = NoFuel"
| "parse_elems (Suc n) s =
     (case parse_value n s of
        Ok v r \<Rightarrow>
          if r \<noteq> [] \<and> hd r = CHR '','' then
            (case parse_elems n (tl r) of Ok vs r2 \<Rightarrow> Ok (v # vs) r2 | Fail \<Rightarrow> Fail | NoFuel \<Rightarrow> NoFuel)
          else if r \<noteq> [] \<and> hd r = CHR '']'' then Ok [v] (skip_ws (tl r))
          else Fail
      | Fail \<Rightarrow> Fail
      | NoFuel \<Rightarrow> NoFuel)"
| "parse_members 0 s = NoFuel"
| "parse_members (Suc n) s =
     (let s1 = skip_ws s in
      if s1 \<noteq> [] \<and> hd s1 = dq then
        (case parse_chars (tl s1) of
           Some (k, r) \<Rightarrow>
             (let r1 = skip_ws r in
              if r1 \<noteq> [] \<and> hd r1 = CHR '':'' then
                (case parse_value n (tl r1) of
                   Ok v r2 \<Rightarrow>
                     if r2 \<noteq> [] \<and> hd r2 = CHR '','' then
                       (case parse_members n (tl r2) of
                          Ok kvs r3 \<Rightarrow> Ok ((k, v) # kvs) r3 | Fail \<Rightarrow> Fail | NoFuel \<Rightarrow> NoFuel)
                     else if r2 \<noteq> [] \<and> hd r2 = CHR ''}'' then Ok [(k, v)] (skip_ws (tl r2))
                     else Fail
                 | Fail \<Rightarrow> Fail
                 | NoFuel \<Rightarrow> NoFuel)
              else Fail)
         | None \<Rightarrow> Fail)
      else Fail)"

text \<open>
  \<open>JSON.parse(text)\<close>: one value, with white space around it and nothing else, or a
  \<open>SyntaxError\<close>. The fuel, twice the length of the text and one, is always enough
  (\<open>json_parse_fuel\<close>).
\<close>

definition JSON_parse :: "string \<Rightarrow> js_error + json" where
  "JSON_parse s =
     (case parse_value (2 * length s + 1) s of
        Ok v r \<Rightarrow> if r = [] then Inr v else Inl SyntaxError
      | _ \<Rightarrow> Inl SyntaxError)"

section \<open>Measures for the round trip\<close>

text \<open>
  A character that may follow a value in serialized JSON, and the fuel a value needs:
  one unit for the value and one for each member.
\<close>

definition delim :: "string \<Rightarrow> bool" where
  "delim r \<longleftrightarrow> r = [] \<or> hd r = CHR '','' \<or> hd r = CHR '']'' \<or> hd r = CHR ''}''"

fun jsize :: "json \<Rightarrow> nat" where
  "jsize (JArr vs) = Suc (sum_list (map (\<lambda>v. Suc (jsize v)) vs))"
| "jsize (JObj kvs) = Suc (sum_list (map (\<lambda>kv. Suc (jsize (snd kv))) kvs))"
| "jsize _ = 1"

text \<open>A member of an object as \<open>stringify\<close> writes it.\<close>

definition member_string :: "string \<times> json \<Rightarrow> string" where
  "member_string kv = quote (fst kv) @ CHR '':'' # stringify (snd kv)"

section \<open>Lemmas: the readers consume their input\<close>

lemma skip_ws_le: "length (skip_ws s) \<le> length s"
  by (simp add: skip_ws_def length_dropWhile_le)

lemma skip_ws_less: "length y < k \<Longrightarrow> length (skip_ws y) < k"
  using skip_ws_le[of y] by simp

lemma skip_ws_Cons: "skip_ws s = c # x \<Longrightarrow> length x < length s"
  using skip_ws_le[of s] by simp

lemma skip_ws_tl_less: "length y < k \<Longrightarrow> length (skip_ws (tl (skip_ws y))) < k"
  using skip_ws_le[of y] skip_ws_le[of "tl (skip_ws y)"] by simp

lemma cons_fst_Some: "cons_fst c x = Some (a, r) \<longleftrightarrow> (\<exists>a'. x = Some (a', r) \<and> a = c # a')"
  by (cases x) (auto simp: cons_fst_def)

lemma parse_chars_shorter: "parse_chars s = Some (a, r) \<Longrightarrow> length r < length s"
proof (induction s arbitrary: a r rule: parse_chars.induct)
  case (2 c r)
  then show ?case
    by (auto simp: cons_fst_Some split: if_splits list.splits option.splits) fastforce+
qed simp

lemma parse_number_shorter:
  assumes "parse_number s = Some (i, r)"
  shows "length r < length s"
proof -
  define s1 where "s1 = (if s \<noteq> [] \<and> hd s = CHR ''-'' then tl s else s)"
  define ds where "ds = takeWhile is_digit s1"
  have pn: "parse_number s =
      (if ds = [] \<or> (hd ds = CHR ''0'' \<and> 2 \<le> length ds) then None
       else if drop (length ds) s1 \<noteq> [] \<and> (hd (drop (length ds) s1) = CHR ''.'' \<or>
               hd (drop (length ds) s1) = CHR ''e'' \<or> hd (drop (length ds) s1) = CHR ''E'') then None
       else Some (if s \<noteq> [] \<and> hd s = CHR ''-'' then - int (undec ds) else int (undec ds),
                  drop (length ds) s1))"
    unfolding parse_number_def Let_def s1_def ds_def by simp
  have "ds \<noteq> []" "r = drop (length ds) s1"
    using assms unfolding pn by (auto split: if_splits)
  moreover have "length ds \<le> length s1" "length s1 \<le> length s"
    by (simp_all add: ds_def length_takeWhile_le s1_def)
  ultimately show ?thesis by (cases ds) auto
qed

lemma skip_ws_shorter: "length y \<le> length x \<Longrightarrow> length x < length s \<Longrightarrow> length (skip_ws y) < length s"
  using skip_ws_le[of y] by simp

lemma parse_shorter:
  "parse_value n s = Ok v r \<Longrightarrow> length r < length s"
  "parse_elems n s = Ok vs r \<Longrightarrow> length r < length s"
  "parse_members n s = Ok kvs r \<Longrightarrow> length r < length s"
proof (induction n s and n s and n s arbitrary: v r and vs r and kvs r
    rule: parse_value_parse_elems_parse_members.induct)
  case (2 n s)
  obtain c x where sx: "skip_ws s = c # x" using 2(3) by (cases "skip_ws s") auto
  have lx: "length x < length s" using sx by (rule skip_ws_Cons)
  have lsx: "length (skip_ws x) \<le> length x" by (rule skip_ws_le)
  consider (arr) "c = CHR ''['' " | (obj) "c \<noteq> CHR ''['' " "c = CHR ''{''"
    | (str) "c \<noteq> CHR ''['' " "c \<noteq> CHR ''{''" "c = dq"
    | (other) "c \<noteq> CHR ''['' " "c \<noteq> CHR ''{''" "c \<noteq> dq" by blast
  then show ?case
  proof cases
    case arr
    show ?thesis
    proof (cases "skip_ws x \<noteq> [] \<and> hd (skip_ws x) = CHR '']''")
      case True
      then have "r = skip_ws (tl (skip_ws x))" using 2(3) sx arr by simp
      then show ?thesis using skip_ws_tl_less[OF lx] by simp
    next
      case False
      then obtain vs' where "parse_elems n (skip_ws x) = Ok vs' r"
        using 2(3) sx arr by (auto simp: Let_def split: pres.splits)
      then have "length r < length (skip_ws x)" using 2(1)[OF sx arr refl False] by blast
      then show ?thesis using lx lsx by simp
    qed
  next
    case obj
    show ?thesis
    proof (cases "skip_ws x \<noteq> [] \<and> hd (skip_ws x) = CHR ''}''")
      case True
      then have "r = skip_ws (tl (skip_ws x))" using 2(3) sx obj by simp
      then show ?thesis using skip_ws_tl_less[OF lx] by simp
    next
      case False
      then obtain kvs' where "parse_members n (skip_ws x) = Ok kvs' r"
        using 2(3) sx obj by (auto simp: Let_def split: pres.splits)
      then have "length r < length (skip_ws x)" using 2(2)[OF sx obj refl False] by blast
      then show ?thesis using lx lsx by simp
    qed
  next
    case str
    then obtain a y where "parse_chars x = Some (a, y)" "r = skip_ws y"
      using 2(3) sx by (auto split: option.splits)
    then show ?thesis using parse_chars_shorter lx by (metis less_imp_le skip_ws_shorter)
  next
    case other
    have "(\<exists>k. r = skip_ws (drop k x)) \<or> (\<exists>i y. parse_number (c # x) = Some (i, y) \<and> r = skip_ws y)"
      using 2(3) sx other by (auto split: if_splits option.splits)
    moreover have "length (c # x) \<le> length s" using sx skip_ws_le[of s] by simp
    ultimately show ?thesis
      using lx by (auto dest!: parse_number_shorter intro: skip_ws_shorter)
  qed
next
  case (4 n s)
  obtain v0 r0 where pv: "parse_value n s = Ok v0 r0"
    using 4(3) by (cases "parse_value n s") auto
  have l0: "length r0 < length s" using 4(1)[OF pv] .
  show ?case
  proof (cases "r0 \<noteq> [] \<and> hd r0 = CHR '',''")
    case True
    then obtain vs' where "parse_elems n (tl r0) = Ok vs' r" using 4(3) pv by (auto split: pres.splits)
    then have "length r < length (tl r0)" using 4(2)[OF pv True] by blast
    then show ?thesis using l0 by simp
  next
    case False
    then have "r = skip_ws (tl r0)" using 4(3) pv by (simp split: if_splits)
    then show ?thesis using l0 skip_ws_shorter[of "tl r0" r0 s] by simp
  qed
next
  case (6 n s)
  have ne: "skip_ws s \<noteq> [] \<and> hd (skip_ws s) = dq" using 6(3) by (simp add: Let_def split: if_splits)
  obtain k y where pc: "parse_chars (tl (skip_ws s)) = Some (k, y)"
    using 6(3) ne by (auto simp: Let_def split: option.splits)
  have ly: "length y < length s"
    using parse_chars_shorter[OF pc] ne skip_ws_le[of s] by (cases "skip_ws s") auto
  have col: "skip_ws y \<noteq> [] \<and> hd (skip_ws y) = CHR '':''" using 6(3) ne pc by (simp add: Let_def split: if_splits)
  obtain v0 r0 where pv: "parse_value n (tl (skip_ws y)) = Ok v0 r0"
    using 6(3) ne pc col by (cases "parse_value n (tl (skip_ws y))") (simp_all add: Let_def)
  have l0: "length r0 < length s"
    using 6(1)[OF refl ne pc refl refl col pv] skip_ws_le[of y] ly by simp
  show ?case
  proof (cases "r0 \<noteq> [] \<and> hd r0 = CHR '',''")
    case True
    then obtain kvs' where "parse_members n (tl r0) = Ok kvs' r"
      using 6(3) ne pc col pv by (auto simp: Let_def split: pres.splits)
    then have "length r < length (tl r0)" using 6(2)[OF refl ne pc refl refl col pv True] by blast
    then show ?thesis using l0 by simp
  next
    case False
    then have "r = skip_ws (tl r0)" using 6(3) ne pc col pv by (simp add: Let_def split: if_splits)
    then show ?thesis using l0 skip_ws_shorter[of "tl r0" r0 s] by simp
  qed
qed simp_all

lemma pres_map_NoFuel [simp]:
  "(case p of Ok a r \<Rightarrow> Ok (f a) r | Fail \<Rightarrow> Fail | NoFuel \<Rightarrow> NoFuel) = NoFuel \<longleftrightarrow> p = NoFuel"
  by (cases p) simp_all

lemma parse_enough_fuel:
  "2 * length s < n \<Longrightarrow> parse_value n s \<noteq> NoFuel"
  "2 * length s + 1 < n \<Longrightarrow> parse_elems n s \<noteq> NoFuel"
  "2 * length s + 1 < n \<Longrightarrow> parse_members n s \<noteq> NoFuel"
proof (induction n s and n s and n s rule: parse_value_parse_elems_parse_members.induct)
  case (2 n s)
  show ?case
  proof (cases "skip_ws s")
    case Nil
    then show ?thesis by simp
  next
    case (Cons c x)
    have f: "2 * length (skip_ws x) + 1 < n"
      using skip_ws_Cons[OF Cons] skip_ws_le[of x] 2(3) by simp
    consider (arr) "c = CHR ''['' " | (obj) "c \<noteq> CHR ''['' " "c = CHR ''{''"
      | (other) "c \<noteq> CHR ''['' " "c \<noteq> CHR ''{''" by blast
    then show ?thesis
    proof cases
      case arr
      show ?thesis
      proof (cases "skip_ws x \<noteq> [] \<and> hd (skip_ws x) = CHR '']''")
        case True
        then show ?thesis using Cons arr by simp
      next
        case False
        have "parse_elems n (skip_ws x) \<noteq> NoFuel" using 2(1)[OF Cons arr refl False f] .
        then show ?thesis using Cons arr False by (simp add: Let_def)
      qed
    next
      case obj
      show ?thesis
      proof (cases "skip_ws x \<noteq> [] \<and> hd (skip_ws x) = CHR ''}''")
        case True
        then show ?thesis using Cons obj by simp
      next
        case False
        have "parse_members n (skip_ws x) \<noteq> NoFuel" using 2(2)[OF Cons obj refl False f] .
        then show ?thesis using Cons obj False by (simp add: Let_def)
      qed
    next
      case other
      then show ?thesis using Cons by (simp split: option.split prod.split)
    qed
  qed
next
  case (4 n s)
  have v: "parse_value n s \<noteq> NoFuel" using 4(1) 4(3) by simp
  show ?case
  proof (cases "parse_value n s")
    case (Ok v r)
    have "length r < length s" using Ok by (rule parse_shorter(1))
    then have f: "2 * length (tl r) + 1 < n" using 4(3) by simp
    show ?thesis
    proof (cases "r \<noteq> [] \<and> hd r = CHR '',''")
      case True
      have "parse_elems n (tl r) \<noteq> NoFuel" using 4(2)[OF Ok True f] .
      then show ?thesis using Ok True by simp
    next
      case False
      then show ?thesis using Ok by auto
    qed
  qed (use v in simp_all)
next
  case (6 n s)
  show ?case
  proof (cases "skip_ws s \<noteq> [] \<and> hd (skip_ws s) = dq")
    case False
    then show ?thesis by (auto simp: Let_def)
  next
    case ne: True
    show ?thesis
    proof (cases "parse_chars (tl (skip_ws s))")
      case None
      then show ?thesis using ne by (simp add: Let_def)
    next
      case (Some kr)
      obtain k y where pc: "parse_chars (tl (skip_ws s)) = Some (k, y)" using Some by (cases kr) simp
      have ly: "length y < length s"
        using parse_chars_shorter[OF pc] ne skip_ws_le[of s] by (cases "skip_ws s") auto
      show ?thesis
      proof (cases "skip_ws y \<noteq> [] \<and> hd (skip_ws y) = CHR '':''")
        case False
        then show ?thesis using ne pc by (auto simp: Let_def)
      next
        case col: True
        have l1: "length (tl (skip_ws y)) < length s" using ly skip_ws_le[of y] by simp
        then have f1: "2 * length (tl (skip_ws y)) < n" using 6(3) by simp
        have v: "parse_value n (tl (skip_ws y)) \<noteq> NoFuel" using 6(1)[OF refl ne pc refl refl col f1] .
        show ?thesis
        proof (cases "parse_value n (tl (skip_ws y))")
          case (Ok v r2)
          have "length r2 < length (tl (skip_ws y))" using Ok by (rule parse_shorter(1))
          then have f2: "2 * length (tl r2) + 1 < n" using l1 6(3) by simp
          show ?thesis
          proof (cases "r2 \<noteq> [] \<and> hd r2 = CHR '',''")
            case True
            have "parse_members n (tl r2) \<noteq> NoFuel" using 6(2)[OF refl ne pc refl refl col Ok True f2] .
            then show ?thesis using ne pc col Ok True by (simp add: Let_def)
          next
            case False
            then show ?thesis using ne pc col Ok by (auto simp: Let_def)
          qed
        qed (use ne pc col v in \<open>simp_all add: Let_def\<close>)
      qed
    qed
  qed
qed simp_all

lemma parse_fuel_mono:
  "parse_value n s \<noteq> NoFuel \<Longrightarrow> n \<le> m \<Longrightarrow> parse_value m s = parse_value n s"
  "parse_elems n s \<noteq> NoFuel \<Longrightarrow> n \<le> m \<Longrightarrow> parse_elems m s = parse_elems n s"
  "parse_members n s \<noteq> NoFuel \<Longrightarrow> n \<le> m \<Longrightarrow> parse_members m s = parse_members n s"
proof (induction n s and n s and n s arbitrary: m and m and m
    rule: parse_value_parse_elems_parse_members.induct)
  case (2 n s)
  obtain m' where m: "m = Suc m'" "n \<le> m'" using 2(4) by (cases m) auto
  show ?case
  proof (cases "skip_ws s")
    case Nil
    then show ?thesis using m by simp
  next
    case (Cons c x)
    consider (arr) "c = CHR ''['' " | (obj) "c \<noteq> CHR ''['' " "c = CHR ''{''"
      | (other) "c \<noteq> CHR ''['' " "c \<noteq> CHR ''{''" by blast
    then show ?thesis
    proof cases
      case arr
      show ?thesis
      proof (cases "skip_ws x \<noteq> [] \<and> hd (skip_ws x) = CHR '']''")
        case True
        then show ?thesis using m Cons arr by simp
      next
        case False
        have ne: "parse_elems n (skip_ws x) \<noteq> NoFuel" using 2(3) Cons arr False by (simp add: Let_def)
        have "parse_elems m' (skip_ws x) = parse_elems n (skip_ws x)" using 2(1)[OF Cons arr refl False ne m(2)] .
        then show ?thesis using m Cons arr False by (auto simp: Let_def)
      qed
    next
      case obj
      show ?thesis
      proof (cases "skip_ws x \<noteq> [] \<and> hd (skip_ws x) = CHR ''}''")
        case True
        then show ?thesis using m Cons obj by simp
      next
        case False
        have ne: "parse_members n (skip_ws x) \<noteq> NoFuel" using 2(3) Cons obj False by (simp add: Let_def)
        have "parse_members m' (skip_ws x) = parse_members n (skip_ws x)" using 2(2)[OF Cons obj refl False ne m(2)] .
        then show ?thesis using m Cons obj False by (auto simp: Let_def)
      qed
    next
      case other
      then show ?thesis using m Cons by simp
    qed
  qed
next
  case (4 n s)
  obtain m' where m: "m = Suc m'" "n \<le> m'" using 4(4) by (cases m) auto
  have ne: "parse_value n s \<noteq> NoFuel" using 4(3) by (cases "parse_value n s") simp_all
  have pv: "parse_value m' s = parse_value n s" using 4(1)[OF ne m(2)] .
  show ?case
  proof (cases "parse_value n s")
    case (Ok v r)
    show ?thesis
    proof (cases "r \<noteq> [] \<and> hd r = CHR '',''")
      case True
      have ne2: "parse_elems n (tl r) \<noteq> NoFuel" using 4(3) Ok True by simp
      have "parse_elems m' (tl r) = parse_elems n (tl r)" using 4(2)[OF Ok True ne2 m(2)] .
      then show ?thesis using m pv Ok True by simp
    next
      case False
      then show ?thesis using m pv Ok by auto
    qed
  qed (use ne m pv in simp_all)
next
  case (6 n s)
  obtain m' where m: "m = Suc m'" "n \<le> m'" using 6(4) by (cases m) auto
  show ?case
  proof (cases "skip_ws s \<noteq> [] \<and> hd (skip_ws s) = dq")
    case False
    then show ?thesis using m by (auto simp: Let_def)
  next
    case ne: True
    show ?thesis
    proof (cases "parse_chars (tl (skip_ws s))")
      case None
      then show ?thesis using m ne by (simp add: Let_def)
    next
      case (Some kr)
      obtain k y where pc: "parse_chars (tl (skip_ws s)) = Some (k, y)" using Some by (cases kr) simp
      show ?thesis
      proof (cases "skip_ws y \<noteq> [] \<and> hd (skip_ws y) = CHR '':''")
        case False
        then show ?thesis using m ne pc by (auto simp: Let_def)
      next
        case col: True
        have nv: "parse_value n (tl (skip_ws y)) \<noteq> NoFuel"
          using 6(3) ne pc col by (cases "parse_value n (tl (skip_ws y))") (simp_all add: Let_def)
        have pv: "parse_value m' (tl (skip_ws y)) = parse_value n (tl (skip_ws y))"
          using 6(1)[OF refl ne pc refl refl col nv m(2)] .
        show ?thesis
        proof (cases "parse_value n (tl (skip_ws y))")
          case (Ok v r2)
          show ?thesis
          proof (cases "r2 \<noteq> [] \<and> hd r2 = CHR '',''")
            case True
            have ne2: "parse_members n (tl r2) \<noteq> NoFuel" using 6(3) ne pc col Ok True by (simp add: Let_def)
            have "parse_members m' (tl r2) = parse_members n (tl r2)"
              using 6(2)[OF refl ne pc refl refl col Ok True ne2 m(2)] .
            then show ?thesis using m ne pc col pv Ok True by (simp add: Let_def)
          next
            case False
            then show ?thesis using m ne pc col pv Ok by (auto simp: Let_def)
          qed
        qed (use m ne pc col pv nv in \<open>simp_all add: Let_def\<close>)
      qed
    qed
  qed
qed simp_all

section \<open>Lemmas: reading back what stringify writes\<close>

lemma char_of_eq_iff_code: "(k::nat) < 256 \<Longrightarrow> char_of k = c \<longleftrightarrow> of_char c = k"
  by (metis char_of_char of_char_of mod_less)

lemma hex_val_hex_digit: "k < 16 \<Longrightarrow> hex_val (hex_digit k) = Some k"
  by (auto simp: hex_val_def hex_digit_def Let_def)

lemma parse_chars_escape: "parse_chars (json_escape c @ r) = cons_fst c (parse_chars r)"
proof -
  let ?n = "of_char c :: nat"
  have n256: "?n < 256" by (rule nat_of_char_less_256)
  have lit: "?n = of_char d \<Longrightarrow> c = d" for d by (metis char_of_char)
  have "c = dq \<or> c = bs \<or> c \<in> {CHR 0x08, CHR 0x09, CHR 0x0A, CHR 0x0C, CHR 0x0D} \<or>
        (c \<noteq> dq \<and> c \<noteq> bs \<and> ?n \<notin> {8, 9, 10, 12, 13} \<and> ?n < 32) \<or> (c \<noteq> dq \<and> c \<noteq> bs \<and> \<not> ?n < 32)"
  proof (cases "?n \<in> {8, 9, 10, 12, 13}")
    case True
    then have "c \<in> {CHR 0x08, CHR 0x09, CHR 0x0A, CHR 0x0C, CHR 0x0D}"
      using lit[of "CHR 0x08"] lit[of "CHR 0x09"] lit[of "CHR 0x0A"] lit[of "CHR 0x0C"] lit[of "CHR 0x0D"]
      by auto
    then show ?thesis by blast
  qed auto
  then consider "c = dq" | "c = bs" | "c \<in> {CHR 0x08, CHR 0x09, CHR 0x0A, CHR 0x0C, CHR 0x0D}"
    | "c \<noteq> dq" "c \<noteq> bs" "?n \<notin> {8, 9, 10, 12, 13}" "?n < 32"
    | "c \<noteq> dq" "c \<noteq> bs" "\<not> ?n < 32"
    by blast
  then show ?thesis
  proof cases
    case 3
    then show ?thesis by (auto simp: json_escape_def short_unescape_def Let_def bs_def dq_def)
  next
    case 4
    have "?n div 16 < 16" "?n mod 16 < 16" using 4 by simp_all
    then have h: "hex4 (CHR ''0'') (CHR ''0'') (hex_digit (?n div 16)) (hex_digit (?n mod 16)) = Some ?n"
      by (simp add: hex4_def hex_val_hex_digit) (simp add: hex_val_def)
    have "json_escape c = [bs, CHR ''u'', CHR ''0'', CHR ''0'', hex_digit (?n div 16), hex_digit (?n mod 16)]"
      using 4 by (simp add: json_escape_def Let_def)
    then show ?thesis using h n256 by (simp add: bs_def dq_def)
  next
    case 5
    then show ?thesis by (simp add: json_escape_def Let_def)
  qed (simp_all add: json_escape_def short_unescape_def Let_def bs_def dq_def)
qed

lemma parse_chars_quote: "parse_chars (concat (map json_escape s) @ dq # r) = Some (s, r)"
  by (induction s) (simp_all add: parse_chars_escape cons_fst_def)

lemma dec_digits_hd_nonzero: "k \<noteq> 0 \<Longrightarrow> hd (dec_digits k) \<noteq> CHR ''0''"
proof (induction k rule: dec_digits.induct)
  case (1 k)
  show ?case
  proof (cases "k < 10")
    case True
    then show ?thesis using "1.prems" by (subst dec_digits.simps) (simp add: char_of_eq_iff_code)
  next
    case False
    then have "hd (dec_digits k) = hd (dec_digits (k div 10))" by (subst dec_digits.simps) simp
    with "1.IH" False show ?thesis by simp
  qed
qed

lemma dec_digits_hd_zero: "hd (dec_digits k) = CHR ''0'' \<Longrightarrow> length (dec_digits k) = 1"
  using dec_digits_hd_nonzero[of k] by (cases "k = 0") (simp_all add: dec_digits.simps)

lemma takeWhile_digits:
  "list_all is_digit ds \<Longrightarrow> (r = [] \<or> \<not> is_digit (hd r)) \<Longrightarrow> takeWhile is_digit (ds @ r) = ds"
  by (induction ds) (cases r; auto)+

lemma delim_not_digit: "delim r \<Longrightarrow> r = [] \<or> (\<not> is_digit (hd r) \<and> hd r \<noteq> CHR ''.'' \<and> hd r \<noteq> CHR ''e'' \<and> hd r \<noteq> CHR ''E'')"
  by (auto simp: delim_def is_digit_def)

lemma parse_number_num: "delim r \<Longrightarrow> parse_number (num_to_string i @ r) = Some (i, r)"
proof -
  assume d: "delim r"
  let ?ds = "dec_digits (nat \<bar>i\<bar>)"
  have tw: "takeWhile is_digit (?ds @ r) = ?ds"
    using delim_not_digit[OF d] by (intro takeWhile_digits dec_digits_is_digit) auto
  have hd_ds: "is_digit (hd ?ds)"
    using dec_digits_is_digit[of "nat \<bar>i\<bar>"] by (cases ?ds) simp_all
  have nm: "hd ?ds \<noteq> CHR ''-''" using hd_ds by (auto simp: is_digit_def)
  have z: "\<not> (hd ?ds = CHR ''0'' \<and> 2 \<le> length ?ds)" using dec_digits_hd_zero[of "nat \<bar>i\<bar>"] by auto
  have rest: "\<not> (r \<noteq> [] \<and> (hd r = CHR ''.'' \<or> hd r = CHR ''e'' \<or> hd r = CHR ''E''))"
    using delim_not_digit[OF d] by auto
  show ?thesis
    using tw nm z rest undec_dec_digits[of "nat \<bar>i\<bar>"]
    by (cases "i < 0") (auto simp: parse_number_def num_to_string_def Let_def)
qed

lemma dq_facts:
  "\<not> is_ws dq" "dq \<noteq> CHR '']''" "dq \<noteq> CHR ''}''" "dq \<noteq> CHR '',''" "dq \<noteq> CHR ''[''"
  "dq \<noteq> CHR ''{''" "dq \<noteq> CHR '':''"
  by (simp_all add: dq_def is_ws_def)

lemma skip_ws_Cons_keep: "\<not> is_ws c \<Longrightarrow> skip_ws (c # r) = c # r"
  by (simp add: skip_ws_def)

lemma skip_ws_delim: "delim r \<Longrightarrow> skip_ws r = r"
  by (cases r) (auto simp: delim_def skip_ws_def is_ws_def Let_def)

lemma num_to_string_Cons:
  "\<exists>c x. num_to_string i = c # x \<and> (c = CHR ''-'' \<or> is_digit c)"
proof -
  have "dec_digits (nat \<bar>i\<bar>) \<noteq> []" "list_all is_digit (dec_digits (nat \<bar>i\<bar>))"
    by (simp_all add: dec_digits_is_digit)
  then show ?thesis by (cases "dec_digits (nat \<bar>i\<bar>)") (auto simp: num_to_string_def)
qed

lemma digit_not_special:
  "is_digit c \<Longrightarrow> \<not> is_ws c \<and> c \<noteq> CHR ''['' \<and> c \<noteq> CHR ''{'' \<and> c \<noteq> dq \<and> c \<noteq> CHR ''t'' \<and>
     c \<noteq> CHR ''f'' \<and> c \<noteq> CHR ''n'' \<and> c \<noteq> CHR '']'' \<and> c \<noteq> CHR ''}'' \<and> c \<noteq> CHR '',''"
  by (auto simp: is_digit_def is_ws_def dq_def Let_def)

text \<open>What \<open>stringify\<close> writes starts with a character that is not white space and cannot end a list.\<close>

lemma stringify_Cons:
  "\<exists>c x. stringify v = c # x \<and> \<not> is_ws c \<and> c \<noteq> CHR '']'' \<and> c \<noteq> CHR ''}'' \<and> c \<noteq> CHR '',''"
proof (cases v)
  case (JNum i)
  obtain c x where "num_to_string i = c # x" "c = CHR ''-'' \<or> is_digit c" using num_to_string_Cons by blast
  then show ?thesis using JNum digit_not_special[of c] by (auto simp: is_ws_def Let_def)
next
  case (JStr s)
  then show ?thesis using dq_facts by (simp add: quote_def)
qed (auto simp: is_ws_def Let_def)

lemma skip_ws_stringify: "skip_ws (stringify v @ r) = stringify v @ r"
  using stringify_Cons[of v] skip_ws_Cons_keep by fastforce

lemma parse_elems_stringify:
  assumes IH: "\<forall>v\<in>set vs. \<forall>n r. jsize v < n \<longrightarrow> delim r \<longrightarrow> parse_value n (stringify v @ r) = Ok v r"
  shows "vs \<noteq> [] \<Longrightarrow> sum_list (map (\<lambda>v. Suc (jsize v)) vs) < m \<Longrightarrow> delim r \<Longrightarrow>
         parse_elems m (join_comma (map stringify vs) @ CHR '']'' # r) = Ok vs r"
  using IH
proof (induction vs arbitrary: m rule: induct_list012)
  case (2 v)
  then obtain m' where m: "m = Suc m'" "jsize v < m'" by (cases m) auto
  have "parse_value m' (stringify v @ CHR '']'' # r) = Ok v (CHR '']'' # r)"
    using "2.prems"(4) m by (simp add: delim_def)
  then show ?case using m "2.prems"(3) by (simp add: skip_ws_delim)
next
  case (3 v w vs)
  then obtain m' where m: "m = Suc m'" "jsize v < m'"
    "sum_list (map (\<lambda>v. Suc (jsize v)) (w # vs)) < m'" by (cases m) auto
  have "parse_value m' (stringify v @ CHR '','' # join_comma (map stringify (w # vs)) @ CHR '']'' # r) =
        Ok v (CHR '','' # join_comma (map stringify (w # vs)) @ CHR '']'' # r)"
    using "3.prems"(4) m by (simp add: delim_def)
  moreover have "parse_elems m' (join_comma (map stringify (w # vs)) @ CHR '']'' # r) = Ok (w # vs) r"
    using "3.IH"(2)[of m'] "3.prems" m by simp
  ultimately show ?case using m by simp
qed simp

lemma member_string_eq: "(\<lambda>(k, v). quote k @ CHR '':'' # stringify v) = member_string"
  by (auto simp: member_string_def fun_eq_iff)

lemma parse_member:
  assumes "parse_value m (stringify v @ r) = Ok v r"
  shows "parse_chars (tl (skip_ws (member_string (k, v) @ r))) = Some (k, CHR '':'' # stringify v @ r) \<and>
         hd (skip_ws (member_string (k, v) @ r)) = dq \<and> skip_ws (member_string (k, v) @ r) \<noteq> [] \<and>
         skip_ws (CHR '':'' # stringify v @ r) = CHR '':'' # stringify v @ r"
  using dq_facts parse_chars_quote[of k "CHR '':'' # stringify v @ r"]
  by (simp add: member_string_def quote_def skip_ws_Cons_keep is_ws_def)

lemma parse_members_stringify:
  assumes IH: "\<forall>kv\<in>set kvs. \<forall>n r. jsize (snd kv) < n \<longrightarrow> delim r \<longrightarrow>
                 parse_value n (stringify (snd kv) @ r) = Ok (snd kv) r"
  shows "kvs \<noteq> [] \<Longrightarrow> sum_list (map (\<lambda>kv. Suc (jsize (snd kv))) kvs) < m \<Longrightarrow> delim r \<Longrightarrow>
         parse_members m (join_comma (map member_string kvs) @ CHR ''}'' # r) = Ok kvs r"
  using IH
proof (induction kvs arbitrary: m rule: induct_list012)
  case (2 kv)
  obtain k v where kv: "kv = (k, v)" by fastforce
  from 2 kv obtain m' where m: "m = Suc m'" "jsize v < m'" by (cases m) auto
  have pv: "parse_value m' (stringify v @ CHR ''}'' # r) = Ok v (CHR ''}'' # r)"
    using "2.prems"(4) m kv by (simp add: delim_def)
  show ?case using parse_member[OF pv, of k] pv m kv "2.prems"(3) by (simp add: skip_ws_delim Let_def)
next
  case (3 kv lw kvs)
  obtain k v where kv: "kv = (k, v)" by fastforce
  from 3 kv obtain m' where m: "m = Suc m'" "jsize v < m'"
    "sum_list (map (\<lambda>kv. Suc (jsize (snd kv))) (lw # kvs)) < m'" by (cases m) auto
  let ?r = "CHR '','' # join_comma (map member_string (lw # kvs)) @ CHR ''}'' # r"
  have pv: "parse_value m' (stringify v @ ?r) = Ok v ?r"
    using "3.prems"(4) m kv by (simp add: delim_def)
  have "parse_members m' (join_comma (map member_string (lw # kvs)) @ CHR ''}'' # r) = Ok (lw # kvs) r"
    using "3.IH"(2)[of m'] "3.prems" m by simp
  then show ?case using parse_member[OF pv, of k] pv m kv by (simp add: Let_def)
qed simp

lemma parse_stringify: "jsize v < n \<Longrightarrow> delim r \<Longrightarrow> parse_value n (stringify v @ r) = Ok v r"
proof (induction v arbitrary: n r)
  case JNull
  then obtain m where "n = Suc m" by (cases n) auto
  then show ?case using JNull.prems by (simp add: skip_ws_Cons_keep is_ws_def skip_ws_delim dq_def bs_def)
next
  case (JBool b)
  then obtain m where "n = Suc m" by (cases n) auto
  then show ?case using JBool.prems by (cases b) (simp_all add: skip_ws_Cons_keep is_ws_def skip_ws_delim dq_def bs_def)
next
  case (JNum i)
  then obtain m where m: "n = Suc m" by (cases n) auto
  obtain c x where cx: "num_to_string i = c # x" "c = CHR ''-'' \<or> is_digit c"
    using num_to_string_Cons by blast
  have nc: "\<not> is_ws c" "c \<noteq> CHR ''['' \<and> c \<noteq> CHR ''{'' \<and> c \<noteq> dq \<and> c \<noteq> CHR ''t'' \<and> c \<noteq> CHR ''f'' \<and> c \<noteq> CHR ''n''"
    using cx(2) digit_not_special[of c] by (auto simp: is_ws_def dq_def)
  have "parse_number (c # x @ r) = Some (i, r)" using parse_number_num[OF JNum.prems(2), of i] cx by simp
  then show ?case using m cx nc JNum.prems(2) by (simp add: skip_ws_Cons_keep skip_ws_delim)
next
  case (JStr str)
  then obtain m where "n = Suc m" by (cases n) auto
  then show ?case using JStr.prems dq_facts parse_chars_quote[of str r]
    by (simp add: quote_def skip_ws_Cons_keep skip_ws_delim)
next
  case (JArr vs)
  then obtain m where m: "n = Suc m" "sum_list (map (\<lambda>v. Suc (jsize v)) vs) < m" by (cases n) auto
  show ?case
  proof (cases vs)
    case Nil
    then show ?thesis using m JArr.prems(2) by (simp add: skip_ws_Cons_keep is_ws_def skip_ws_delim)
  next
    case (Cons w ws)
    obtain c x where cx: "stringify w = c # x" "\<not> is_ws c" "c \<noteq> CHR '']''" using stringify_Cons by blast
    have j: "join_comma (map stringify vs) = c # x @ (if ws = [] then [] else CHR '','' # join_comma (map stringify ws))"
      using Cons cx by (cases ws) simp_all
    have "parse_elems m (join_comma (map stringify vs) @ CHR '']'' # r) = Ok vs r"
      using parse_elems_stringify[of vs m r] JArr.IH JArr.prems(2) m Cons by blast
    then show ?thesis using m j cx by (simp add: skip_ws_Cons_keep is_ws_def Let_def)
  qed
next
  case (JObj kvs)
  then obtain m where m: "n = Suc m" "sum_list (map (\<lambda>kv. Suc (jsize (snd kv))) kvs) < m" by (cases n) auto
  show ?case
  proof (cases kvs)
    case Nil
    then show ?thesis using m JObj.prems(2) by (simp add: skip_ws_Cons_keep is_ws_def skip_ws_delim)
  next
    case (Cons kw ws)
    have IH: "\<forall>kv\<in>set kvs. \<forall>n r. jsize (snd kv) < n \<longrightarrow> delim r \<longrightarrow>
                parse_value n (stringify (snd kv) @ r) = Ok (snd kv) r"
      using JObj.IH by (metis prod.collapse snds.intros)
    have j: "join_comma (map member_string kvs) =
        dq # tl (member_string kw) @ (if ws = [] then [] else CHR '','' # join_comma (map member_string ws))"
      using Cons by (cases ws) (simp_all add: member_string_def quote_def)
    have "parse_members m (join_comma (map member_string kvs) @ CHR ''}'' # r) = Ok kvs r"
      using parse_members_stringify[OF IH] JObj.prems(2) m Cons by blast
    then show ?thesis using m j dq_facts
      by (simp add: skip_ws_Cons_keep is_ws_def member_string_eq Let_def)
  qed
qed

lemma length_join_comma: "sum_list (map length xs) + length xs \<le> Suc (length (join_comma xs))"
  by (induction xs rule: join_comma.induct) auto

lemma jsize_le_length: "jsize v \<le> length (stringify v)"
proof (induction v)
  case (JNum i)
  then show ?case using num_to_string_Cons[of i] by auto
next
  case (JArr vs)
  have "sum_list (map (\<lambda>v. Suc (jsize v)) vs) \<le> sum_list (map (\<lambda>v. Suc (length (stringify v))) vs)"
    using JArr.IH by (intro sum_list_mono) simp
  also have "\<dots> = sum_list (map length (map stringify vs)) + length (map stringify vs)"
    by (induction vs) simp_all
  also have "\<dots> \<le> Suc (length (join_comma (map stringify vs)))" by (rule length_join_comma)
  finally show ?case by simp
next
  case (JObj kvs)
  have "sum_list (map (\<lambda>kv. Suc (jsize (snd kv))) kvs) \<le> sum_list (map (\<lambda>kv. length (member_string kv)) kvs)"
    using JObj.IH by (intro sum_list_mono) (force simp: member_string_def quote_def)
  also have "\<dots> \<le> sum_list (map length (map member_string kvs)) + length (map member_string kvs)"
    by (simp add: comp_def)
  also have "\<dots> \<le> Suc (length (join_comma (map member_string kvs)))" by (rule length_join_comma)
  finally show ?case by (simp add: member_string_eq)
qed (simp_all add: quote_def)

lemma parse_value_stringify: "parse_value (2 * length (stringify v @ r) + 1) (stringify v @ r) = Ok v r"
  if "delim r"
proof -
  have "jsize v < 2 * length (stringify v @ r) + 1" using jsize_le_length[of v] by simp
  then show ?thesis by (rule parse_stringify[OF _ that])
qed

section \<open>The reader on serialized values and on any text\<close>

lemma json_roundtrip: "JSON_parse (stringify v) = Inr v"
proof -
  have "delim []" by (simp add: delim_def)
  from parse_value_stringify[OF this, of v]
  have "parse_value (2 * length (stringify v) + 1) (stringify v) = Ok v []" by (simp only: append_Nil2)
  then show ?thesis unfolding JSON_parse_def by (simp only: pres.case) simp
qed

lemma json_parse_fuel:
  "parse_value (2 * length s + 1) s \<noteq> NoFuel"
  "parse_value (2 * length s + 1 + k) s = parse_value (2 * length s + 1) s"
proof -
  show ne: "parse_value (2 * length s + 1) s \<noteq> NoFuel" by (rule parse_enough_fuel(1)) simp
  show "parse_value (2 * length s + 1 + k) s = parse_value (2 * length s + 1) s"
    using parse_fuel_mono(1)[OF ne le_add1] .
qed

lemma json_parse_trailing: "delim r \<Longrightarrow> r \<noteq> [] \<Longrightarrow> JSON_parse (stringify v @ r) = Inl SyntaxError"
proof -
  assume "delim r" "r \<noteq> []"
  from parse_value_stringify[OF this(1), of v] this(2)
  show ?thesis unfolding JSON_parse_def by (simp only: pres.case) simp
qed

lemma JSON_parse_Nil: "JSON_parse [] = Inl SyntaxError"
  by (simp add: JSON_parse_def skip_ws_def)

end
