(* ===== verification/Wire.thy ===== *)
theory Wire
  imports Json Board Loader
begin

text \<open>
  The task list on its way from the server to the browser
  (\<open>src/src/pages/board/index.tsx\<close>): the loader turns each document into an
  object literal and serializes the list with \<open>JSON.stringify\<close> (lines 228--234); the
  page parses it back with \<open>JSON.parse(data)\<close> (line 50) and uses the result as its
  \<open>TaskList[]\<close> state, which the render reads (lines 166--177). The
  \<open>Loader\<close> and \<open>Board\<close> theories hold the list as records; this theory shows
  what the JSON in between does to it: the fields the page reads arrive unchanged,
  and \<open>created\<close> arrives as an object of neither type \<open>TaskList\<close> declares.
\<close>

section \<open>What the loader serializes\<close>

text \<open>
  A Firestore \<open>Timestamp\<close> serializes as its two fields (\<open>Timestamp.toJSON\<close>): the
  whole seconds and the nanoseconds of the rest; a time stored from a \<open>Date\<close> has
  millisecond precision.
\<close>

definition Timestamp_json :: "time \<Rightarrow> json" where
  "Timestamp_json t = JObj [(''seconds'', JNum (t div 1000)), (''nanoseconds'', JNum (t mod 1000 * 1000000))]"

text \<open>
  Lines 229--233: \<open>{id: doc.id, createdFormatted: format(...), ...doc.data()}\<close>, as the
  object \<open>JSON.stringify\<close> sees: the two named keys, then the document's own fields.
\<close>

definition doc_json :: "formatter \<Rightarrow> doc_id \<times> task_doc \<Rightarrow> json" where
  "doc_json fmt kd =
     (case kd of (k, d) \<Rightarrow>
        JObj [(''id'', JStr k), (''createdFormatted'', JStr (fmt (d_created d))),
              (''created'', Timestamp_json (d_created d)), (''task'', JStr (d_task d)),
              (''userId'', JStr (d_userId d)), (''name'', JStr (d_name d))])"

definition loader_data :: "formatter \<Rightarrow> (doc_id \<times> task_doc) list \<Rightarrow> string" where
  "loader_data fmt ds = stringify (JArr (map (doc_json fmt) ds))"

text \<open>
  Line 50, \<open>useState<TaskList[]>(JSON.parse(data))\<close>: the page's initial task list is
  the parsed \<open>data\<close> prop, or the \<open>SyntaxError\<close> the render throws.
\<close>

definition page_tasks :: "string \<Rightarrow> js_error + json" where
  "page_tasks str = JSON_parse str"

section \<open>The declared type of the parsed list\<close>

text \<open>
  The TypeScript types of line 30: a type is checked structurally, an object type lists
  its fields with their types and whether they are optional (\<open>?\<close>), and other
  fields are allowed. \<open>JSON.parse\<close> never yields a \<open>Date\<close>, so no JSON value has type
  \<open>TDate\<close>.
\<close>

datatype ts_type =
    TString
  | TNumber
  | TBoolean
  | TDate
  | TUnion ts_type ts_type
  | TArray ts_type
  | TObject "(string \<times> ts_type \<times> bool) list"

text \<open>A property read on a parsed object: with a repeated key, \<open>JSON.parse\<close> keeps the last.\<close>

definition json_prop :: "string \<Rightarrow> json \<Rightarrow> json option" where
  "json_prop f v = (case v of JObj kvs \<Rightarrow> map_of (rev kvs) f | _ \<Rightarrow> None)"

fun has_type :: "json \<Rightarrow> ts_type \<Rightarrow> bool" where
  "has_type (JStr _) TString = True"
| "has_type (JNum _) TNumber = True"
| "has_type (JBool _) TBoolean = True"
| "has_type v (TUnion a b) = (has_type v a \<or> has_type v b)"
| "has_type (JArr vs) (TArray t) = list_all (\<lambda>v. has_type v t) vs"
| "has_type (JObj kvs) (TObject fs) =
     list_all (\<lambda>(f, t, opt). case map_of (rev kvs) f of None \<Rightarrow> opt | Some v \<Rightarrow> has_type v t) fs"
| "has_type _ _ = False"

text \<open>Lines 30--37, \<open>type TaskList\<close>.\<close>

definition TaskList_type :: ts_type where
  "TaskList_type =
     TObject [(''id'', TString, False), (''created'', TUnion TString TDate, False),
              (''createdFormatted'', TString, True), (''task'', TString, False),
              (''userId'', TString, False), (''name'', TString, False)]"

text \<open>
  What the client receives for \<open>created\<close>: the serialized \<open>Timestamp\<close>, an object of two
  numbers, and the declared type with one field's type replaced.
\<close>

definition Timestamp_type :: ts_type where
  "Timestamp_type = TObject [(''seconds'', TNumber, False), (''nanoseconds'', TNumber, False)]"

fun with_field_type :: "string \<Rightarrow> ts_type \<Rightarrow> ts_type \<Rightarrow> ts_type" where
  "with_field_type f t (TObject fs) = TObject (map (\<lambda>(g, u, opt). if g = f then (g, t, opt) else (g, u, opt)) fs)"
| "with_field_type f t u = u"

section \<open>The render of a parsed task\<close>

text \<open>
  Lines 166--177 on the object \<open>JSON.parse\<close> produced: \<open>task.id\<close> in the link's
  \<open>href\<close> (an absent field would print as \<open>undefined\<close>), \<open>task.task\<close> as the link text
  (an absent one renders nothing), \<open>task.createdFormatted\<close> in the \<open><time>\<close> element,
  and the edit button for a supporter.
\<close>

definition str_prop :: "string \<Rightarrow> json \<Rightarrow> string option" where
  "str_prop f v = (case json_prop f v of Some (JStr s) \<Rightarrow> Some s | _ \<Rightarrow> None)"

definition render_article_json :: "UserProps \<Rightarrow> json \<Rightarrow> article" where
  "render_article_json u v =
     \<lparr>href = ''/board/'' @ (case str_prop ''id'' v of Some s \<Rightarrow> s | None \<Rightarrow> ''undefined''),
      link_text = (case str_prop ''task'' v of Some s \<Rightarrow> s | None \<Rightarrow> []),
      time_text = str_prop ''createdFormatted'' v, edit_button = vip u\<rparr>"

text \<open>The user summary the loader builds for the demo session of \<open>Loader\<close>.\<close>

definition demo_loaded_user :: UserProps where
  "demo_loaded_user = \<lparr>uid = ''u1'', uname = ''Ana'', vip = True, lastDonate = 0\<rparr>"

section \<open>Lemmas\<close>

lemma render_article_doc_json: "render_article_json u (doc_json fmt kd) = render_article u (doc_to_task fmt kd)"
  by (cases kd) (simp add: render_article_json_def render_article_def str_prop_def json_prop_def doc_json_def doc_to_task_def)

lemma doc_json_with_created: "has_type (doc_json fmt kd) (with_field_type ''created'' Timestamp_type TaskList_type)"
  by (cases kd) (simp add: doc_json_def TaskList_type_def Timestamp_type_def Timestamp_json_def)

lemma doc_json_not_TaskList: "\<not> has_type (doc_json fmt kd) TaskList_type"
  by (cases kd) (simp add: doc_json_def TaskList_type_def Timestamp_json_def)

section \<open>Properties of the wire format\<close>

text \<open>
  C26. The list the page parses from \<open>data\<close> is not a \<open>TaskList[]\<close>: it parses, and
  each element has every field \<open>TaskList\<close> declares with its declared type except
  \<open>created\<close>, which is the serialized \<open>Timestamp\<close> object \<open>{seconds, nanoseconds}\<close>;
  as soon as the user has a task, the list does not have the type the page declares
  for its state (\<open>created: string | Date\<close>).
\<close>

theorem loaded_data_type:
  "page_tasks (loader_data fmt ds) = Inr (JArr (map (doc_json fmt) ds)) \<and>
   has_type (JArr (map (doc_json fmt) ds)) (TArray (with_field_type ''created'' Timestamp_type TaskList_type)) \<and>
   (ds \<noteq> [] \<longrightarrow> \<not> has_type (JArr (map (doc_json fmt) ds)) (TArray TaskList_type))"
proof -
  have "page_tasks (loader_data fmt ds) = Inr (JArr (map (doc_json fmt) ds))"
    unfolding page_tasks_def loader_data_def by (rule json_roundtrip)
  then show ?thesis using doc_json_with_created doc_json_not_TaskList
    by (cases ds) (simp_all add: list_all_iff)
qed

theorem loaded_data_type_witness:
  "\<not> has_type (JArr (map (doc_json demo_fmt_loader) (where_userId ''u1'' demo_store))) (TArray TaskList_type)"
proof -
  have "where_userId ''u1'' demo_store \<noteq> []" by (simp add: where_userId_def demo_store_def)
  then show ?thesis using loaded_data_type[of demo_fmt_loader "where_userId ''u1'' demo_store"] by blast
qed

text \<open>
  C27. The JSON round trip is invisible to the render: for every page the loader
  returns, the \<open>data\<close> string it builds from the same query parses, and rendering the
  parsed objects shows the same articles (link, text, date, edit button) as rendering
  the loader's task records. This justifies holding \<open>data\<close> as the records in the
  \<open>Loader\<close> and \<open>Board\<close> theories.
\<close>

theorem wire_refines_loader:
  "getServerSideProps fmt n sess st = Props p \<Longrightarrow>
   \<exists>vs. page_tasks (loader_data fmt (where_userId (uid (user p)) st)) = Inr (JArr vs) \<and>
        map (render_article_json (user p)) vs = articles (render (user p) (board_init p))"
proof -
  assume "getServerSideProps fmt n sess st = Props p"
  then obtain i where "uid (user p) = i" "data p = map (doc_to_task fmt) (where_userId i st)"
    by (auto simp: getServerSideProps_Props)
  moreover have "page_tasks (loader_data fmt ds) = Inr (JArr (map (doc_json fmt) ds))" for ds
    unfolding page_tasks_def loader_data_def by (rule json_roundtrip)
  ultimately show ?thesis by (simp add: render_def board_init_def render_article_doc_json)
qed

theorem wire_refines_loader_witness:
  "\<exists>vs. page_tasks (loader_data demo_fmt_loader (where_userId ''u1'' demo_store)) = Inr (JArr vs) \<and>
     map (render_article_json demo_loaded_user) vs =
     [\<lparr>href = ''/board/1'', link_text = ''Buy milk'', time_text = Some ''01 January 1970'', edit_button = True\<rparr>]"
proof -
  let ?p = "\<lparr>user = demo_loaded_user,
             data = map (doc_to_task demo_fmt_loader) (where_userId ''u1'' demo_store)\<rparr>"
  have g: "getServerSideProps demo_fmt_loader Delivered (Some demo_session) demo_store = Props ?p"
    by (simp add: getServerSideProps_def getDocs_def demo_session_def demo_loaded_user_def)
  have a: "articles (render (user ?p) (board_init ?p)) =
     [\<lparr>href = ''/board/1'', link_text = ''Buy milk'', time_text = Some ''01 January 1970'', edit_button = True\<rparr>]"
    by (simp add: render_def board_init_def render_article_def where_userId_def demo_store_def
        doc_to_task_def demo_fmt_loader_def demo_loaded_user_def)
  show ?thesis using wire_refines_loader[OF g] a by (simp add: demo_loaded_user_def)
qed

end
