(* ===== verification/Distance.thy ===== *)
theory Distance
  imports DateFormat Json Board
begin

text \<open>
  The supporter panel of the page (\<open>src/src/pages/board/index.tsx\<close>, lines 192--205):
  for a supporter it reads \<open>Obrigado por apoiar esse projeto.\<close> and
  \<open>Ultima doacao foi a\<close> (with the accents of Portuguese) followed by
  \<open>formatDistance(new Date(user.lastDonate), new Date(), {locale: ptBR})\<close>.

  \<open>formatDistance\<close> is \<open>date-fns\<close>' (the 2.x releases, \<open>src/formatDistance\<close> and
  \<open>src/differenceInMonths\<close>), with the phrases of its \<open>pt-BR\<close> locale
  (\<open>src/locale/pt-BR/_lib/formatDistance\<close>). Neither is among the sources, so both are
  modelled from their code. The distance is measured in whole seconds and rounded to
  minutes (\<open>Math.round\<close>); below two months the minutes decide the phrase, beyond that
  the calendar months of \<open>differenceInMonths\<close>, read in local time. The host zone is a
  fixed offset \<open>off\<close> (milliseconds east of UTC): the correction \<open>formatDistance\<close>
  makes for a change of offset between the two dates is then zero. Brazil's zones have
  had no daylight saving time since 2019.
\<close>

section \<open>The pt-BR phrases\<close>

text \<open>The tokens \<open>formatDistance\<close> passes to the locale when \<open>includeSeconds\<close> is off.\<close>

datatype dist_token =
    LessThanXMinutes | XMinutes | AboutXHours | XDays | AboutXMonths | XMonths
  | AboutXYears | OverXYears | AlmostXYears

text \<open>
  Each token's \<open>one\<close> form and its \<open>other\<close> form around \<open>{{count}}\<close>. Characters
  beyond ASCII are written by their code (the e with circumflex of \<open>mes\<close> is \<open>0xEA\<close>).
\<close>

fun ptBR_forms :: "dist_token \<Rightarrow> string \<times> string \<times> string" where
  "ptBR_forms LessThanXMinutes = (''menos de um minuto'', ''menos de '', '' minutos'')"
| "ptBR_forms XMinutes = (''1 minuto'', [], '' minutos'')"
| "ptBR_forms AboutXHours = (''cerca de 1 hora'', ''cerca de '', '' horas'')"
| "ptBR_forms XDays = (''1 dia'', [], '' dias'')"
| "ptBR_forms AboutXMonths = (''cerca de 1 m'' @ [CHR 0xEA] @ ''s'', ''cerca de '', '' meses'')"
| "ptBR_forms XMonths = (''1 m'' @ [CHR 0xEA] @ ''s'', [], '' meses'')"
| "ptBR_forms AboutXYears = (''cerca de 1 ano'', ''cerca de '', '' anos'')"
| "ptBR_forms OverXYears = (''mais de 1 ano'', ''mais de '', '' anos'')"
| "ptBR_forms AlmostXYears = (''quase 1 ano'', ''quase '', '' anos'')"

text \<open>
  The locale's \<open>formatDistance(token, count, options)\<close>: the \<open>one\<close> form for a count
  of 1, otherwise the \<open>other\<close> form with \<open>String(count)\<close>; the page passes no
  \<open>addSuffix\<close>, so no \<open>em\<close>/\<open>ha\<close> (in or ago) is added.
\<close>

definition ptBR_formatDistance :: "dist_token \<Rightarrow> int \<Rightarrow> string" where
  "ptBR_formatDistance tok n =
     (case ptBR_forms tok of (one, pre, post) \<Rightarrow> if n = 1 then one else pre @ num_to_string n @ post)"

section \<open>Local-time arithmetic of the Date object\<close>

text \<open>\<open>Math.round(a / b)\<close> for \<open>b > 0\<close>: the nearest integer, halves rounded up.\<close>

definition js_round :: "int \<Rightarrow> int \<Rightarrow> int" where
  "js_round a b = (2 * a + b) div (2 * b)"

definition TimeWithinDay :: "time \<Rightarrow> int" where
  "TimeWithinDay t = t mod msPerDay"

definition MakeDate :: "int \<Rightarrow> int \<Rightarrow> time" where
  "MakeDate day tm = day * msPerDay + tm"

text \<open>\<open>compareAsc\<close> on valid dates.\<close>

definition compareAsc :: "time \<Rightarrow> time \<Rightarrow> int" where
  "compareAsc a b = (if a < b then -1 else if b < a then 1 else 0)"

text \<open>
  \<open>Date.prototype.setDate\<close> and \<open>setMonth\<close> (21.4.4.20, 21.4.4.24) in a zone of offset
  \<open>off\<close>: the new local date keeps the local time of day, and a day or month out of
  range carries over (\<open>MakeDay\<close>).
\<close>

definition setDate :: "int \<Rightarrow> int \<Rightarrow> time \<Rightarrow> time" where
  "setDate off dt t =
     (let lt = t + off
      in MakeDate (MakeDay (YearFromTime lt) (int (MonthFromTime lt)) dt) (TimeWithinDay lt) - off)"

definition setMonth :: "int \<Rightarrow> int \<Rightarrow> time \<Rightarrow> time" where
  "setMonth off m t =
     (let lt = t + off
      in MakeDate (MakeDay (YearFromTime lt) m (DateFromTime lt)) (TimeWithinDay lt) - off)"

definition differenceInCalendarMonths :: "int \<Rightarrow> time \<Rightarrow> time \<Rightarrow> int" where
  "differenceInCalendarMonths off a b =
     (YearFromTime (a + off) - YearFromTime (b + off)) * 12 +
     (int (MonthFromTime (a + off)) - int (MonthFromTime (b + off)))"

definition isLastDayOfMonth :: "int \<Rightarrow> time \<Rightarrow> bool" where
  "isLastDayOfMonth off t \<longleftrightarrow>
     DateFromTime (t + off) = days_in_month (InLeapYear (YearFromTime (t + off))) (MonthFromTime (t + off))"

text \<open>
  \<open>differenceInMonths(dateLeft, dateRight)\<close>: the calendar months between the dates,
  less one when the last month is not full. A date at the end of February is first
  moved to the 30th, and the last day of a month is a full month after the last day of
  the month before. A date the move takes out of range is \<open>NaN\<close>, which compares
  as unordered.
\<close>

definition differenceInMonths :: "int \<Rightarrow> time \<Rightarrow> time \<Rightarrow> int" where
  "differenceInMonths off a b =
     (let sign = compareAsc a b; difference = \<bar>differenceInCalendarMonths off a b\<bar>
      in if difference < 1 then 0
         else
           (let a1 = (if MonthFromTime (a + off) = 1 \<and> 27 < DateFromTime (a + off) then setDate off 30 a else a);
                a2 = (if valid_time a1 then setMonth off (int (MonthFromTime (a1 + off)) - sign * difference) a1 else a1);
                notFull = (valid_time a2 \<and> compareAsc a2 b = - sign);
                notFull' = (if isLastDayOfMonth off a \<and> difference = 1 \<and> compareAsc a b = 1 then False else notFull)
            in sign * (difference - (if notFull' then 1 else 0))))"

section \<open>formatDistance\<close>

text \<open>
  The token and count for two valid dates \<open>l \<le> r\<close>. The thresholds are in minutes:
  a day is 1440, \<open>MINUTES_IN_ALMOST_TWO_DAYS\<close> 2520, a month 43200, two months
  86400.
\<close>

definition distance_token :: "int \<Rightarrow> time \<Rightarrow> time \<Rightarrow> dist_token \<times> int" where
  "distance_token off l r =
     (let seconds = (r - l) div 1000; minutes = js_round seconds 60
      in if minutes < 2 then (if minutes = 0 then (LessThanXMinutes, 1) else (XMinutes, minutes))
         else if minutes < 45 then (XMinutes, minutes)
         else if minutes < 90 then (AboutXHours, 1)
         else if minutes < 1440 then (AboutXHours, js_round minutes 60)
         else if minutes < 2520 then (XDays, 1)
         else if minutes < 43200 then (XDays, js_round minutes 1440)
         else if minutes < 86400 then (AboutXMonths, js_round minutes 43200)
         else
           (let months = differenceInMonths off r l
            in if months < 12 then (XMonths, js_round minutes 43200)
               else
                 (let monthsSinceStartOfYear = months mod 12; years = months div 12
                  in if monthsSinceStartOfYear < 3 then (AboutXYears, years)
                     else if monthsSinceStartOfYear < 9 then (OverXYears, years)
                     else (AlmostXYears, years + 1))))"

text \<open>
  \<open>formatDistance(date, baseDate, {locale})\<close>: \<open>RangeError\<close> when a date is invalid;
  otherwise the earlier date is the left one.
\<close>

definition formatDistance :: "int \<Rightarrow> time \<Rightarrow> time \<Rightarrow> js_error + string" where
  "formatDistance off d b =
     (if \<not> valid_time d \<or> \<not> valid_time b then Inl RangeError
      else
        (let (l, r) = (if 0 < compareAsc d b then (b, d) else (d, b))
         in Inr (case distance_token off l r of (tok, n) \<Rightarrow> ptBR_formatDistance tok n)))"

section \<open>The documented table\<close>

text \<open>
  The table of \<open>formatDistance\<close>'s documentation, by the elapsed seconds: the phrase and
  the range of its count, up to two months (beyond, the phrase depends on the calendar).
  The bounds are \<open>30 s\<close>, \<open>1 min 30 s\<close>, \<open>44 min 30 s\<close>, \<open>89 min 30 s\<close>,
  \<open>23 h 59 min 30 s\<close>, \<open>41 h 59 min 30 s\<close>, \<open>29 d 23 h 59 min 30 s\<close>,
  \<open>44 d 23 h 59 min 30 s\<close> and \<open>59 d 23 h 59 min 30 s\<close>.
\<close>

definition doc_distance :: "int \<Rightarrow> (dist_token \<times> int \<times> int) option" where
  "doc_distance s =
     (if s < 0 then None
      else if s < 30 then Some (LessThanXMinutes, 1, 1)
      else if s < 90 then Some (XMinutes, 1, 1)
      else if s < 2670 then Some (XMinutes, 2, 44)
      else if s < 5370 then Some (AboutXHours, 1, 1)
      else if s < 86370 then Some (AboutXHours, 2, 24)
      else if s < 151170 then Some (XDays, 1, 1)
      else if s < 2591970 then Some (XDays, 2, 30)
      else if s < 3887970 then Some (AboutXMonths, 1, 1)
      else if s < 5183970 then Some (AboutXMonths, 2, 2)
      else None)"

section \<open>The supporter panel\<close>

text \<open>\<open>Ultima doacao foi a\<close> (with the accents of Portuguese) and a space, in Latin-1 codes.\<close>

definition panel_prefix :: string where
  "panel_prefix = [CHR 0xDA] @ ''ltima doa'' @ [CHR 0xE7, CHR 0xE3] @ ''o foi a ''"

text \<open>
  Lines 192--205: nothing for a non-supporter; for a supporter the panel's sentence,
  with the distance from \<open>lastDonate\<close> to the render's \<open>new Date()\<close>, or the
  \<open>RangeError\<close> the render throws.
\<close>

definition vip_panel_text :: "int \<Rightarrow> UserProps \<Rightarrow> time \<Rightarrow> js_error + string option" where
  "vip_panel_text off u now =
     (if vip u then
        (case formatDistance off (lastDonate u) now of
           Inl e \<Rightarrow> Inl e
         | Inr s \<Rightarrow> Inr (Some (panel_prefix @ s)))
      else Inr None)"

section \<open>Lemmas: rounding\<close>

lemma zdiv_less_iff: "0 < (k::int) \<Longrightarrow> a div k < q \<longleftrightarrow> a < k * q"
  using mult_le_iff_le_div[of k q a] by linarith

lemma js_round_less [simp]: "0 < b \<Longrightarrow> js_round a b < q \<longleftrightarrow> 2 * a + b < 2 * b * q"
  by (simp add: js_round_def zdiv_less_iff)

lemma le_js_round [simp]: "0 < b \<Longrightarrow> q \<le> js_round a b \<longleftrightarrow> 2 * b * q \<le> 2 * a + b"
  by (simp add: js_round_def mult_le_iff_le_div)

lemma js_round_le [simp]: "0 < b \<Longrightarrow> js_round a b \<le> q \<longleftrightarrow> 2 * a + b < 2 * b * (q + 1)"
  by (metis add.commute js_round_less zless_add1_eq zle_add1_eq_le not_less)

lemma less_js_round [simp]: "0 < b \<Longrightarrow> q < js_round a b \<longleftrightarrow> 2 * b * (q + 1) \<le> 2 * a + b"
  using js_round_le[of b a q] by linarith

lemma js_round_eq [simp]: "0 < b \<Longrightarrow> js_round a b = q \<longleftrightarrow> 2 * b * q \<le> 2 * a + b \<and> 2 * a + b < 2 * b * (q + 1)"
  using js_round_le[of b a q] le_js_round[of b q a] by (metis antisym order_refl)

lemma distance_token_doc:
  assumes "l \<le> r" "doc_distance ((r - l) div 1000) = Some (tok, lo, hi)"
  shows "fst (distance_token off l r) = tok \<and> lo \<le> snd (distance_token off l r) \<and> snd (distance_token off l r) \<le> hi"
proof -
  define s where "s = (r - l) div 1000"
  have s0: "0 \<le> s" using assms(1) by (simp add: s_def)
  have d: "doc_distance s = Some (tok, lo, hi)" using assms(2) by (simp add: s_def)
  show ?thesis
    using s0 d unfolding distance_token_def Let_def s_def[symmetric]
    by (simp add: doc_distance_def not_less split: if_splits)
qed

lemma vip_panel_text_cases:
  "\<not> vip u \<Longrightarrow> vip_panel_text off u now = Inr None"
  "vip u \<Longrightarrow> \<not> valid_time (lastDonate u) \<or> \<not> valid_time now \<Longrightarrow> vip_panel_text off u now = Inl RangeError"
  by (auto simp: vip_panel_text_def formatDistance_def)

lemma formatDistance_valid:
  assumes "valid_time d" "valid_time b"
  shows "\<exists>l r. l \<le> r \<and> r - l = \<bar>b - d\<bar> \<and>
           formatDistance off d b = Inr (case distance_token off l r of (tok, n) \<Rightarrow> ptBR_formatDistance tok n)"
proof (cases "0 < compareAsc d b")
  case True
  then have "b < d" by (simp add: compareAsc_def split: if_splits)
  then show ?thesis using assms True by (intro exI[of _ b] exI[of _ d]) (simp add: formatDistance_def)
next
  case False
  then have "d \<le> b" by (simp add: compareAsc_def split: if_splits)
  then show ?thesis using assms False by (intro exI[of _ d] exI[of _ b]) (simp add: formatDistance_def)
qed

section \<open>Property of the supporter panel\<close>

text \<open>
  C24. The supporter panel says what \<open>formatDistance\<close>'s documentation promises: for a
  donation less than two months from the render's clock, before or after it, the panel
  reads \<open>Ultima doacao foi a\<close> (with the accents of Portuguese) and the phrase the documented table gives for the
  elapsed whole seconds (\<open>menos de um minuto\<close> under 30 s, \<open>N minutos\<close> from
  1 min 30 s to 44 min 30 s with N from 2 to 44, \<open>cerca de N horas\<close> up to 23 h 59 min
  30 s with N up to 24, \<open>N dias\<close> with N up to 30, \<open>cerca de N mes/meses\<close>), with
  its count in the documented range. The implementation decides by minutes rounded
  with \<open>Math.round\<close> and counts rounded again; the table is in seconds.
\<close>

theorem panel_matches_documented_table:
  "vip u \<Longrightarrow> valid_time (lastDonate u) \<Longrightarrow> valid_time now \<Longrightarrow>
   doc_distance (\<bar>now - lastDonate u\<bar> div 1000) = Some (tok, lo, hi) \<Longrightarrow>
   \<exists>n. lo \<le> n \<and> n \<le> hi \<and> vip_panel_text off u now = Inr (Some (panel_prefix @ ptBR_formatDistance tok n))"
proof -
  assume v: "vip u" and d: "valid_time (lastDonate u)" "valid_time now"
    and t: "doc_distance (\<bar>now - lastDonate u\<bar> div 1000) = Some (tok, lo, hi)"
  obtain l r where lr: "l \<le> r" "r - l = \<bar>now - lastDonate u\<bar>"
    and f: "formatDistance off (lastDonate u) now = Inr (case distance_token off l r of (tok, n) \<Rightarrow> ptBR_formatDistance tok n)"
    using formatDistance_valid[OF d] by blast
  have "doc_distance ((r - l) div 1000) = Some (tok, lo, hi)" using t lr(2) by simp
  from distance_token_doc[OF lr(1) this, of off]
  obtain n where "distance_token off l r = (tok, n)" "lo \<le> n" "n \<le> hi"
    by (metis prod.collapse)
  then show ?thesis using v f by (intro exI[of _ n]) (simp add: vip_panel_text_def)
qed

theorem panel_matches_documented_table_witness:
  "\<exists>n. 2 \<le> n \<and> n \<le> 24 \<and>
     vip_panel_text (-10800000) demo_user 10800000 = Inr (Some (panel_prefix @ ptBR_formatDistance AboutXHours n))"
proof -
  have "vip demo_user" "valid_time (lastDonate demo_user)" "valid_time 10800000"
    "doc_distance (\<bar>10800000 - lastDonate demo_user\<bar> div 1000) = Some (AboutXHours, 2, 24)"
    by (simp_all add: demo_user_def valid_time_def doc_distance_def)
  then show ?thesis using panel_matches_documented_table by blast
qed

end
