(* ===== verification/Spec2Isabelle.thy ===== *)
theory Spec2Isabelle
  imports Board_Async DateFormat Wire Distance
begin

text \<open>
  \<^bold>\<open>A verification library for the task board page of thmachado7/board.\<close>

  \<^medskip>
  \<^emph>\<open>The program.\<close> The repository's one source file,
  \<open>src/src/pages/board/index.tsx\<close>, is a Next.js page with two parts. The server-side
  loader \<open>getServerSideProps\<close> (lines 212--246) reads the next-auth session. Without a
  session identifier it redirects to \<open>/\<close>. Otherwise it queries the Firestore
  collection \<open>tasks\<close> for the user's documents, formats each creation date, and passes
  the list and a user summary as props. The React component \<open>Board\<close> (lines 48--210)
  holds three pieces of state: \<open>input\<close>, \<open>taskList\<close> and \<open>taskEdit\<close>. It
  renders the list and offers four handlers: add or update on submit
  (\<open>handleAddTask\<close>), \<open>handleDelete\<close>, \<open>handleEditTask\<close> (a supporter only) and
  \<open>handleCancelEdit\<close>. Each remote call patches the local state in its \<open>.then\<close>
  callback, and a failure is only logged. The two parts meet in the store they both use
  and in the props the loader hands the component.

  \<^medskip>
  \<^emph>\<open>The theories.\<close>
  \<^item> \<open>Prelude\<close>: type names (\<open>doc_id\<close>, \<open>time\<close>, \<open>formatter\<close>). The JavaScript
    built-ins the page relies on: \<open>js_findIndex\<close> (\<open>-1\<close> when nothing matches) and
    \<open>js_modify_at\<close> (\<open>data[i].task = v\<close>, a \<open>TypeError\<close> when \<open>data[i]\<close> is
    undefined). Lemmas on lists read as maps by a key (\<open>keyed\<close>), shared by the
    invariant proofs.
  \<^item> \<open>Store\<close>: the Firestore \<open>db\<close> of \<open>services/firebaseConnection\<close>. That file
    is not among the sources, so it is modelled from the spec. A store is an
    association list of documents and a counter for fresh identifiers. \<open>addDoc\<close>,
    \<open>updateDoc\<close> and \<open>deleteDoc\<close> take the network outcome (\<open>net\<close>: delivered,
    rejected, or applied with the reply lost). \<open>getDocs\<close>/\<open>where_userId\<close> is the
    filtered query. Lemmas: generated identifiers are new (\<open>auto_id\<close> is injective and
    its value is not yet issued), each operation keeps the store well-formed, and how
    each changes \<open>owned\<close>, a user's documents read as a map.
  \<^item> \<open>Task\<close>: the records \<open>TaskList\<close>, \<open>UserProps\<close> and \<open>BoardProps\<close> of lines
    30--46.
  \<^item> \<open>Loader\<close>: \<open>getServerSideProps\<close> as a function of the session, the network and
    the store, with \<open>doc_to_task\<close> for the mapping of line 229.
  \<^item> \<open>Board\<close>: the state record \<open>board\<close> and the system state \<open>sys\<close> (the view's
    state, the store, and the observable effects: alerts, console logs, remote calls).
    The \<open>.then\<close> callbacks are \<open>add_then\<close>, \<open>update_then\<close> and \<open>delete_then\<close>,
    closures over the snapshot of the render that ran the handler. Then come the
    handlers, \<open>dispatch\<close> (the page's controls, with their guards from the render),
    \<open>run\<close> (a sequence of events) and \<open>render\<close>. One lemma per branch of each
    handler (\<open>handleAddTask_add_ok\<close>, \<open>handleAddTask_update_ok\<close>,
    \<open>handleDelete_fail\<close>, ...); the claims about single handlers follow (C3--C7, C14).
  \<^item> \<open>Board_System\<close>: the page as a whole. \<open>reachable u fmt ok\<close> is an inductive
    predicate: the loader's props give the first state, then any handled event whose
    remote call meets a world satisfying \<open>ok\<close>. The abstract specification is a
    map from identifiers to (text, owner, owner name) with the steps of
    \<open>spec_step\<close>, read off the store by \<open>abs_sys\<close>. The invariant \<open>consistent\<close>
    says the view's list, read by identifier, equals the abstract state, with distinct
    identifiers and an edit target that is the user's or gone. It is preserved by every
    event over a \<open>reliable\<close> network (no lost reply); one lemma per kind of step,
    combined in \<open>consistent_dispatch\<close>. A second invariant, \<open>edit_safe\<close>, holds
    whatever the network does and rules out the \<open>TypeError\<close> of the edit callback.
    Claims: the refinement (C1), reload shows the same tasks (C2), only supporters edit
    (C8), the edit callback never throws (C11), a single lost reply breaks \<open>consistent\<close>
    from every state reachable over a reliable network (C12), and deleting the edit
    target leaves the page stuck in edit mode (C13).
  \<^item> \<open>Board_Async\<close>: the page with overlapping calls. JavaScript objects are shared by
    reference, so the task objects live in a heap \<open>objs\<close> (an address is an index).
    \<open>taskList\<close> is an array of addresses, and \<open>taskEdit\<close> is the address of the
    clicked object. A handler issues its call (\<open>a_submit\<close>, \<open>a_delete\<close>) and
    leaves a \<open>pending_call\<close> holding the call's outcome and the snapshot of its
    render. A \<open>Reply j\<close> event runs the j-th pending callback (\<open>a_callback\<close>), in
    any order. The store applies each write in issue order. \<open>to_sys\<close> reads a heap
    state as a sequential state, and \<open>a_sync\<close> runs an event followed at once by its
    reply. \<open>a_wf\<close> bounds every address held by the page or by a pending snapshot,
    over every interleaving (\<open>a_wf_run\<close>). Claims: with immediate replies the model
    is the sequential one (C17). The next four start from any consistent page with no
    call in flight: two deletes in flight bring a deleted task back (C18), an add and a
    delete in flight lose the added task on the page (C19), the edit callback's
    \<open>TypeError\<close> becomes reachable (C20), and the order of two replies decides
    whether a deleted task comes back (C21). The divergence is bounded (C28): by the invariant \<open>no_ghost\<close>, preserved by every
    event and reply whatever the network does, every task the page shows is in the
    store or is one the page itself asked to delete.
  \<^item> \<open>Calendar\<close> and \<open>DateFormat\<close>: the date string of lines 94 and 231,
    \<open>format(date, 'dd MMMM yyyy')\<close> of \<open>date-fns\<close> (\<open>format_dMy\<close>). It reads
    the local date with the \<open>Date\<close> algorithms of ECMA-262, which keep the standard's
    names (\<open>Day\<close>, \<open>DayFromYear\<close>, \<open>YearFromTime\<close>, \<open>MonthFromTime\<close>,
    \<open>DateFromTime\<close>, \<open>MakeDay\<close>, \<open>LocalTime\<close>). It then pads with
    \<open>addLeadingZeros\<close>, writes the en-US month name and the year of the era, and
    throws \<open>RangeError\<close> on an invalid date. \<open>YearFromTime\<close> is a search upwards
    from an estimate, as engines compute it (\<open>year_search\<close>, terminating because
    consecutive years start 365 or 366 days apart, \<open>DayFromYear_succ\<close>). Lemmas: the
    search computes the standard's \<open>YearFromTime\<close> (\<open>YearFromTime_greatest\<close>),
    \<open>MakeDay\<close> and decoding are inverse (\<open>day_roundtrip\<close>), the string reads back
    to the date with the reader \<open>parse_dMy\<close> (\<open>format_parse\<close>), and \<open>format\<close>
    fails exactly on invalid dates (\<open>format_range_error\<close>). Claims: the date fields
    are in range (C22), and the string identifies the local day, in any two zones (C23).
    \<open>date_fns_format tz\<close> is the formatter the other theories take as \<open>fmt\<close>.
  \<^item> \<open>Distance\<close>: the supporter panel of lines 192--205 (\<open>vip_panel_text\<close>) and
    the \<open>formatDistance\<close> of \<open>date-fns\<close> 2.x it calls with the \<open>pt-BR\<close> locale
    (\<open>formatDistance\<close>, \<open>distance_token\<close>, \<open>differenceInMonths\<close>,
    \<open>ptBR_formatDistance\<close>), on the \<open>Date\<close> algorithms of \<open>DateFormat\<close>
    (\<open>setDate\<close>, \<open>setMonth\<close> through \<open>MakeDay\<close>). The rounding of
    \<open>Math.round\<close> is \<open>js_round\<close>; its lemmas turn every threshold on rounded
    minutes into a bound on seconds. Claim: the panel shows the phrase and count of
    \<open>formatDistance\<close>'s documented table for every distance under two months (C24).
  \<^item> \<open>Json\<close> and \<open>Wire\<close>: the task list on its way from the server to the
    browser. \<open>Json\<close> models the engine's \<open>JSON.stringify\<close> (\<open>stringify\<close>, with
    \<open>QuoteJSONString\<close> escapes) and \<open>JSON.parse\<close> (\<open>JSON_parse\<close>, a
    recursive-descent reader with fuel), from ECMA-262 and ECMA-404. Its lemmas: the
    reader reads back what the writer writes (\<open>json_roundtrip\<close>, by induction on the
    value with a size measure \<open>jsize\<close>), the fuel suffices and more fuel changes
    nothing (\<open>parse_enough_fuel\<close>, \<open>parse_fuel_mono\<close>, by induction over the three
    mutually recursive readers), and text after a value is refused. \<open>Wire\<close>
    models lines 228--234 (\<open>doc_json\<close>: the object literal
    \<open>{id, createdFormatted, ...doc.data()}\<close> with the Firestore \<open>Timestamp\<close>;
    \<open>loader_data\<close>: the serialized list), line 50 (\<open>page_tasks\<close>:
    \<open>JSON.parse(data)\<close>), the type \<open>TaskList\<close> of line 30 as a structural type
    judgment \<open>has_type\<close>, and the render of a parsed object
    (\<open>render_article_json\<close>). Claims: \<open>created\<close> arrives as an object that is
    neither \<open>string\<close> nor \<open>Date\<close> (C26), and the render of the parsed objects
    equals the render of the loader's records (C27).
  \<^item> This theory: the date of a new task as the page shows it and as a reload shows
    it, which differ exactly when the browser's and the server's local days differ
    (C25). It combines \<open>Board\<close>, \<open>Loader\<close> and \<open>DateFormat\<close>.

  \<^medskip>
  \<^emph>\<open>Modelling choices.\<close> In \<open>Board\<close> and \<open>Board_System\<close>, each remote call
  resolves before the next event, so every callback's snapshot is the current state.
  Interleaved calls, where the snapshot is stale, are the subject of \<open>Board_Async\<close>.
  C17 shows that the sequential model is its special case, so the invariants of
  \<open>Board_System\<close> are statements about that model's runs with immediate replies.
  Times are JavaScript milliseconds (\<open>int\<close>). The page's theories take the date
  formatter as a parameter \<open>fmt\<close>, so their lemmas hold for any formatter;
  \<open>DateFormat\<close> models the one the page uses, with the host's time-zone offset as a
  parameter \<open>tz\<close>. In \<open>Loader\<close>, \<open>Board\<close> and the theories above them the props hold the task
  list as records, not as the JSON text: C27 shows that the render cannot tell the
  difference, and C26 that the one field it does not read, \<open>created\<close>, is retyped. Firestore's random 20-character identifiers
  are modelled as the decimal rendering of a counter: the page relies only on their
  being new, which \<open>auto_id_fresh\<close> proves. Every definition is structurally
  recursive or non-recursive, except the two searches of \<open>DateFormat\<close>, which are
  \<open>function\<close>s with termination measures (the days left to the searched day, the
  months left), and the JSON reader, which takes fuel. Each reader call consumes a
  character before a nested call, or passes to the next element, so twice the length of
  the text and one is enough fuel (\<open>parse_enough_fuel\<close>); \<open>parse_fuel_mono\<close>
  shows the result does not depend on the bound. The runs of the page are finite
  sequences of events. JSON numbers are integers and characters are 8-bit: the page's
  data, integral timestamps and Latin-1 text in the model, never leaves that range.

  \<^medskip>
  \<^emph>\<open>Plan for the rest of the development.\<close> The page's code is modelled as far as
  its sources allow; what is left depends on code outside them: how Next.js serializes
  the props (the session's \<open>lastDonate\<close>, a \<open>string | Date\<close>, reaches the page as
  a string that \<open>new Date\<close> parses), and the session callback of the next-auth
  configuration that decides which fields a session has.

  \<^emph>\<open>Not modelled.\<close> Styling, icons, \<open>Head\<close> and \<open>Link\<close> markup (presentational
  only). \<open>SupportButton\<close> (a component that is not among the sources). The next-auth
  provider that issues sessions (external); the model takes the session, and the
  user's \<open>lastDonate\<close> as the time value \<open>new Date(user.lastDonate)\<close> denotes, as
  inputs. \<open>formatDistance\<close> in a zone whose offset changes between the two dates
  (daylight saving time): the model fixes the offset, so its correction term is zero.
\<close>

section \<open>Concrete inputs\<close>

text \<open>
  A world in which the store answers and every clock reads 2026-11-10 01:30 UTC, that
  is 22:30 on 9 November in Brasilia.
\<close>

definition demo_world2 :: world where
  "demo_world2 = \<lparr>w_net = Delivered, clock0 = 1794274200000, clock1 = 1794274200000,
                   clock2 = 1794274200000\<rparr>"

section \<open>Properties that span the components\<close>

text \<open>
  C25. The date shown for a new task can change on reload. The browser formats the
  task's date in its own time zone when the add's reply arrives (line 94, the clock
  \<open>clock2\<close>), the loader formats the stored timestamp, taken when the handler ran
  (\<open>clock0\<close>), in the server's (line 231). From any consistent page, after an add the
  store accepts, the page's entry for the new identifier shows the browser's string,
  the reloaded entry shows the server's string, and the two agree exactly when the two
  instants fall on the same local day in their zones. A task added at 22:30 on
  9 November 2026 in Brasilia (UTC-3) shows \<open>09 November 2026\<close> on the page;
  reloaded from a server running in UTC, it shows \<open>10 November 2026\<close>.
\<close>

theorem reload_changes_shown_date:
  assumes c: "consistent u s" and a: "input (board s) \<noteq> []" "taskEdit (board s) = None"
    "w_net w = Delivered"
    and l: "getServerSideProps (date_fns_format tzs) n (Some se)
              (db (handleAddTask u (date_fns_format tzb) w s)) = Props p" "uid (user p) = uid u"
    and v: "valid_time (clock2 w)" "valid_time (clock0 w)"
      "0 < YearFromTime (LocalTime tzb (clock2 w))" "0 < YearFromTime (LocalTime tzs (clock0 w))"
  shows "keyed tid createdFormatted (taskList (board (handleAddTask u (date_fns_format tzb) w s)))
           (auto_id (next_id (db s))) = Some (Some (date_fns_format tzb (clock2 w))) \<and>
         keyed tid createdFormatted (data p) (auto_id (next_id (db s))) =
           Some (Some (date_fns_format tzs (clock0 w))) \<and>
         (date_fns_format tzb (clock2 w) = date_fns_format tzs (clock0 w) \<longleftrightarrow>
            Day (LocalTime tzb (clock2 w)) = Day (LocalTime tzs (clock0 w)))"
proof -
  let ?k = "auto_id (next_id (db s))"
  let ?s' = "handleAddTask u (date_fns_format tzb) w s"
  have wf: "store_wf (db s)" using c by (simp add: consistent_def)
  then have fs: "?k \<notin> fst ` set (docs (db s))" by (rule store_wf_fresh)
  have "keyed tid task_view (taskList (board s)) ?k = None"
    using c abs_sys_fresh[OF c] by (simp add: consistent_def)
  then have fl: "?k \<notin> tid ` set (taskList (board s))" by (simp add: keyed_None_iff)
  have p1: "keyed tid createdFormatted (taskList (board ?s')) ?k = Some (Some (date_fns_format tzb (clock2 w)))"
    using a fl by (simp add: handleAddTask_add_ok add_then_def keyed_append_fresh Let_def)
  have wf': "store_wf (db ?s')"
    using addDoc_wf[OF wf, of Delivered] a by (simp add: handleAddTask_add_ok addDoc_def reply_def Let_def)
  have dp: "data p = map (doc_to_task (date_fns_format tzs)) (where_userId (uid u) (db ?s'))"
    using l by (auto simp: getServerSideProps_Props)
  have "owned (uid u) (db ?s') ?k = Some \<lparr>d_created = clock0 w, d_task = input (board s),
           d_userId = uid u, d_name = uname u\<rparr>"
    using a fs by (simp add: handleAddTask_add_ok owned_append_fresh Let_def)
  then have p2: "keyed tid createdFormatted (data p) ?k = Some (Some (date_fns_format tzs (clock0 w)))"
    using dp keyed_created_loaded[OF wf'] by simp
  show ?thesis using p1 p2 date_fns_format_day_iff[OF v] by blast
qed

theorem reload_changes_shown_date_witness:
  "keyed tid createdFormatted
     (taskList (board (handleAddTask demo_user (date_fns_format (\<lambda>_. -10800000)) demo_world2
        (onChange ''Walk dog'' (demo_start True))))) ''3'' = Some (Some ''09 November 2026'') \<and>
   keyed tid createdFormatted
     (map (doc_to_task (date_fns_format (\<lambda>_. 0)))
        (where_userId ''u1'' (db (handleAddTask demo_user (date_fns_format (\<lambda>_. -10800000)) demo_world2
           (onChange ''Walk dog'' (demo_start True)))))) ''3'' = Some (Some ''10 November 2026'')"
proof -
  let ?s = "onChange ''Walk dog'' (demo_start True)"
  let ?s' = "handleAddTask demo_user (date_fns_format (\<lambda>_. -10800000)) demo_world2 ?s"
  let ?p = "\<lparr>user = demo_user, data = map (doc_to_task (date_fns_format (\<lambda>_. 0))) (where_userId ''u1'' (db ?s'))\<rparr>"
  have r0: "reachable demo_user demo_fmt reliable (demo_start True)"
    using demo_start_reachable[of True] by (simp add: demo_user_def)
  have r1: "reachable demo_user demo_fmt reliable ?s"
    by (rule reachable.step[OF r0, of demo_world "Change ''Walk dog''"])
      (simp_all add: reliable_def demo_world_def)
  have c: "consistent demo_user ?s" using r1 by (rule reachable_imp_consistent)
  have a: "input (board ?s) \<noteq> []" "taskEdit (board ?s) = None" "w_net demo_world2 = Delivered"
    by (simp_all add: onChange_def demo_start_def board_init_def demo_world2_def)
  have l: "getServerSideProps (date_fns_format (\<lambda>_. 0)) Delivered (Some demo_session) (db ?s') = Props ?p"
    "uid (user ?p) = uid demo_user"
    by (simp_all add: getServerSideProps_def getDocs_def demo_session_def demo_user_def)
  have v: "valid_time (clock2 demo_world2)" "valid_time (clock0 demo_world2)"
    "0 < YearFromTime (LocalTime (\<lambda>_. -10800000) (clock2 demo_world2))"
    "0 < YearFromTime (LocalTime (\<lambda>_. 0) (clock0 demo_world2))"
    by (simp_all add: demo_world2_def) code_simp+
  have k: "auto_id (next_id (db ?s)) = ''3''"
    by (simp add: onChange_def demo_start_def demo_store_def) code_simp
  have f: "date_fns_format (\<lambda>_. -10800000) (clock2 demo_world2) = ''09 November 2026''"
    "date_fns_format (\<lambda>_. 0) (clock0 demo_world2) = ''10 November 2026''"
    by (simp_all add: demo_world2_def) code_simp+
  from reload_changes_shown_date[OF c a l v] show ?thesis unfolding k f by simp
qed

end
